(* ===== verification/Prelude.thy ===== *)
theory Prelude
  imports Main "HOL-Library.Word"
begin

unbundle bit_operations_syntax

text \<open>
  Shared vocabulary of the development: the C integer types as words, memory faults as values,
  the host byte order with the loads and stores that depend on it, bounded buffer copies, and the
  generic list and word lemmas the component theories rest on.
\<close>

section \<open>Collections of simplification rules\<close>

named_theorems byte_simps \<open>loads, stores and byte swaps\<close>
named_theorems mem_simps \<open>bounded reads and writes of buffers\<close>
named_theorems frame_simps \<open>fields an operation leaves alone\<close>

section \<open>Integer types\<close>

type_synonym u8 = "8 word"
type_synonym u16 = "16 word"
type_synonym u32 = "32 word"
type_synonym bytes = "u8 list"

lemma unat_u8_less: "unat (a :: u8) < 256"
  using unsigned_less [of a] by simp

lemma unat_u16_less: "unat (a :: u16) < 65536"
  using unsigned_less [of a] by simp

lemma unat_u32_less: "unat (a :: u32) < 4294967296"
  using unsigned_less [of a] by simp

lemma unat_ucast_up:
  "unat (ucast (a :: u8) :: u16) = unat a" "unat (ucast (a :: u8) :: u32) = unat a"
  "unat (ucast (b :: u16) :: u32) = unat b"
  using unat_u8_less [of a] unat_u16_less [of b]
  by (simp_all add: unsigned_ucast_eq take_bit_nat_eq_self)

lemma unat_of_nat_u16: "n < 65536 \<Longrightarrow> unat (of_nat n :: u16) = n"
  by (simp add: unsigned_of_nat take_bit_nat_eq_self)

lemma unat_u16_add: "unat a + n < 65536 \<Longrightarrow> unat (a + of_nat n :: u16) = unat a + n"
  using unat_of_nat_u16 [of "unat a + n"] by simp

text \<open>\<open>size_t\<close> is 64 bits wide: a negative \<open>int\<close> converted to it wraps.\<close>

definition size_of_int :: "int \<Rightarrow> nat" where
  "size_of_int i = nat (i mod 2 ^ 64)"

lemma size_of_int_nonneg [simp]: "0 \<le> i \<Longrightarrow> i < 2 ^ 64 \<Longrightarrow> size_of_int i = nat i"
  by (simp add: size_of_int_def)

lemma size_of_int_neg: "- (2 ^ 63) \<le> i \<Longrightarrow> i < 0 \<Longrightarrow> 2 ^ 63 \<le> size_of_int i"
proof -
  assume a: "- (2 ^ 63) \<le> i" "i < 0"
  have "i mod 2 ^ 64 = (i + 2 ^ 64) mod 2 ^ 64" by simp
  also have "\<dots> = i + 2 ^ 64" using a by (intro mod_pos_pos_trivial) auto
  finally show ?thesis using a by (simp add: size_of_int_def)
qed

section \<open>Faults\<close>

text \<open>
  What the C standard leaves undefined and the code can run into; \<open>Blocked\<close> for a call that is
  still waiting for another thread when the modelled run ends; \<open>NoReturn\<close> for a loop that has used
  up the number of turns the model gives it. A function that may fault returns a sum; \<open>Inl\<close>
  carries the fault.
\<close>

datatype fault =
    OutOfBounds
  | NullDeref
  | UseAfterFree
  | ShiftTooWide
  | Blocked
  | NoReturn

type_synonym 'a res = "fault + 'a"

definition bindr :: "'a res \<Rightarrow> ('a \<Rightarrow> 'b res) \<Rightarrow> 'b res" where
  "bindr m f = (case m of Inl e \<Rightarrow> Inl e | Inr x \<Rightarrow> f x)"

lemma bindr_simps [simp]: "bindr (Inl e) f = Inl e" "bindr (Inr x) f = f x"
  by (simp_all add: bindr_def)

lemma bindr_Inr_iff: "bindr m f = Inr y \<longleftrightarrow> (\<exists>x. m = Inr x \<and> f x = Inr y)"
  by (cases m) auto

lemma bindr_Inl_iff: "bindr m f = Inl e \<longleftrightarrow> m = Inl e \<or> (\<exists>x. m = Inr x \<and> f x = Inl e)"
  by (cases m) auto

lemma bindr_assoc: "bindr (bindr m f) g = bindr m (\<lambda>x. bindr (f x) g)"
  by (cases m) auto

lemma bindr_cong [fundef_cong]:
  "m = m' \<Longrightarrow> (\<And>x. m' = Inr x \<Longrightarrow> f x = f' x) \<Longrightarrow> bindr m f = bindr m' f'"
  by (cases m') auto

text \<open>
  What holds of the result when there is one: the proof rule for properties that a sequence of
  fallible steps keeps.
\<close>

definition postr :: "'a res \<Rightarrow> ('a \<Rightarrow> bool) \<Rightarrow> bool" where
  "postr m Q \<longleftrightarrow> (case m of Inl _ \<Rightarrow> True | Inr x \<Rightarrow> Q x)"

lemma postr_simps [simp]: "postr (Inl e) Q" "postr (Inr x) Q \<longleftrightarrow> Q x"
  by (simp_all add: postr_def)

lemma postrI: "(\<And>x. m = Inr x \<Longrightarrow> Q x) \<Longrightarrow> postr m Q"
  by (cases m) auto

lemma postrD: "postr m Q \<Longrightarrow> m = Inr x \<Longrightarrow> Q x"
  by simp

lemma postr_bindI: "(\<And>x. m = Inr x \<Longrightarrow> postr (f x) Q) \<Longrightarrow> postr (bindr m f) Q"
  by (cases m) auto

lemma postr_mono: "postr m P \<Longrightarrow> (\<And>x. P x \<Longrightarrow> Q x) \<Longrightarrow> postr m Q"
  by (cases m) auto

lemma postr_bind_with: "postr m P \<Longrightarrow> (\<And>x. P x \<Longrightarrow> postr (f x) Q) \<Longrightarrow> postr (bindr m f) Q"
  by (cases m) auto

text \<open>The total version: the step does not fault, and its result satisfies the property.\<close>

definition okr :: "'a res \<Rightarrow> ('a \<Rightarrow> bool) \<Rightarrow> bool" where
  "okr m Q \<longleftrightarrow> (case m of Inl _ \<Rightarrow> False | Inr x \<Rightarrow> Q x)"

lemma okr_simps [simp]: "\<not> okr (Inl e) Q" "okr (Inr x) Q \<longleftrightarrow> Q x"
  by (simp_all add: okr_def)

lemma okr_iff: "okr m Q \<longleftrightarrow> (\<exists>x. m = Inr x \<and> Q x)"
  by (cases m) auto

lemma okr_bind: "okr m P \<Longrightarrow> (\<And>x. P x \<Longrightarrow> okr (f x) Q) \<Longrightarrow> okr (bindr m f) Q"
  by (cases m) auto

lemma okr_mono: "okr m P \<Longrightarrow> (\<And>x. P x \<Longrightarrow> Q x) \<Longrightarrow> okr m Q"
  by (cases m) auto

lemma okr_postr: "okr m P \<Longrightarrow> postr m Q \<Longrightarrow> okr m (\<lambda>x. P x \<and> Q x)"
  by (cases m) auto

section \<open>Byte order of the host\<close>

datatype endian = Little | Big

definition load16 :: "endian \<Rightarrow> u8 \<Rightarrow> u8 \<Rightarrow> u16" where
  "load16 e a b =
     (case e of Little \<Rightarrow> ucast a OR push_bit 8 (ucast b)
              | Big \<Rightarrow> ucast b OR push_bit 8 (ucast a))"

definition bytes16 :: "endian \<Rightarrow> u16 \<Rightarrow> bytes" where
  "bytes16 e v =
     (case e of Little \<Rightarrow> [ucast v, ucast (drop_bit 8 v)]
              | Big \<Rightarrow> [ucast (drop_bit 8 v), ucast v])"

definition load32 :: "endian \<Rightarrow> u8 \<Rightarrow> u8 \<Rightarrow> u8 \<Rightarrow> u8 \<Rightarrow> u32" where
  "load32 e a b c d =
     (case e of
        Little \<Rightarrow> (ucast a OR push_bit 8 (ucast b)) OR (push_bit 16 (ucast c) OR push_bit 24 (ucast d))
      | Big \<Rightarrow> (ucast d OR push_bit 8 (ucast c)) OR (push_bit 16 (ucast b) OR push_bit 24 (ucast a)))"

definition bytes32 :: "endian \<Rightarrow> u32 \<Rightarrow> bytes" where
  "bytes32 e v =
     (case e of
        Little \<Rightarrow> [ucast v, ucast (drop_bit 8 v), ucast (drop_bit 16 v), ucast (drop_bit 24 v)]
      | Big \<Rightarrow> [ucast (drop_bit 24 v), ucast (drop_bit 16 v), ucast (drop_bit 8 v), ucast v])"

lemma bit_u8_less: "bit (a :: u8) n \<Longrightarrow> n < 8"
  using bit_imp_le_length [of a n] by simp

lemma bit_u8_ge [simp]: "8 \<le> n \<Longrightarrow> \<not> bit (a :: u8) n"
  using bit_u8_less [of a n] by auto

lemma length_bytes16 [simp]: "length (bytes16 e v) = 2"
  by (cases e) (simp_all add: bytes16_def)

lemma length_bytes32 [simp]: "length (bytes32 e v) = 4"
  by (cases e) (simp_all add: bytes32_def)

lemma load16_bytes16 [byte_simps]: "bytes16 e v = [a, b] \<Longrightarrow> load16 e a b = v"
  by (cases e) (auto simp: load16_def bytes16_def bit_simps intro!: bit_word_eqI)

lemma bytes16_load16 [byte_simps]: "bytes16 e (load16 e a b) = [a, b]"
  by (cases e) (auto simp: load16_def bytes16_def bit_simps intro!: bit_word_eqI)

lemma bytes32_load32 [byte_simps]: "bytes32 e (load32 e a b c d) = [a, b, c, d]"
  by (cases e) (auto simp: load32_def bytes32_def bit_simps intro!: bit_word_eqI)

lemma bytes_of_u32_join:
  fixes v :: u32
  shows "(ucast (ucast v :: u8) OR push_bit 8 (ucast (ucast (drop_bit 8 v) :: u8))) OR
         (push_bit 16 (ucast (ucast (drop_bit 16 v) :: u8)) OR
          push_bit 24 (ucast (ucast (drop_bit 24 v) :: u8))) = v" (is "?l = v")
proof (rule bit_word_eqI)
  fix n assume "n < LENGTH(32)"
  then consider "n < 8" | "8 \<le> n \<and> n < 16" | "16 \<le> n \<and> n < 24" | "24 \<le> n \<and> n < 32"
    by (fastforce simp: not_less)
  then show "bit ?l n = bit v n"
    by cases (simp_all add: bit_simps less_diff_conv2)
qed

lemma load32_bytes32 [byte_simps]: "bytes32 e v = [a, b, c, d] \<Longrightarrow> load32 e a b c d = v"
  by (cases e) (auto simp: load32_def bytes32_def bytes_of_u32_join)

section \<open>Buffers\<close>

text \<open>
  An array of the program is a list of its exact length. \<open>mem_write\<close> is \<open>memcpy\<close> into
  it and \<open>mem_read\<close> a read of \<open>n\<close> bytes out of it; both fault when they leave the array.
\<close>

definition mem_write :: "'a list \<Rightarrow> nat \<Rightarrow> 'a list \<Rightarrow> 'a list res" where
  "mem_write buf off src =
     (if off + length src \<le> length buf
      then Inr (take off buf @ src @ drop (off + length src) buf)
      else Inl OutOfBounds)"

definition mem_read :: "'a list \<Rightarrow> nat \<Rightarrow> nat \<Rightarrow> 'a list res" where
  "mem_read buf off n =
     (if off + n \<le> length buf then Inr (take n (drop off buf)) else Inl OutOfBounds)"

lemma mem_write_Inr_iff [mem_simps]:
  "mem_write buf off src = Inr buf' \<longleftrightarrow>
     off + length src \<le> length buf \<and> buf' = take off buf @ src @ drop (off + length src) buf"
  by (auto simp: mem_write_def)

lemma mem_write_Inl_iff [mem_simps]:
  "mem_write buf off src = Inl f \<longleftrightarrow> length buf < off + length src \<and> f = OutOfBounds"
  by (auto simp: mem_write_def)

lemma length_mem_write: "mem_write buf off src = Inr buf' \<Longrightarrow> length buf' = length buf"
  by (auto simp: mem_simps)

lemma mem_read_write_same:
  "mem_write buf off src = Inr buf' \<Longrightarrow> mem_read buf' off (length src) = Inr src"
  by (auto simp: mem_simps mem_read_def)

lemma nth_mem_write:
  assumes "mem_write buf off src = Inr buf'" "i < length buf"
  shows "buf' ! i = (if off \<le> i \<and> i < off + length src then src ! (i - off) else buf ! i)"
  using assms by (auto simp: mem_simps nth_append min_def)

lemma mem_read_Inr_iff [mem_simps]:
  "mem_read buf off n = Inr xs \<longleftrightarrow> off + n \<le> length buf \<and> xs = take n (drop off buf)"
  by (auto simp: mem_read_def)

lemma length_mem_read: "mem_read buf off n = Inr xs \<Longrightarrow> length xs = n"
  by (auto simp: mem_simps)

section \<open>Tables\<close>

text \<open>The scan of a fixed array for its first entry with a property.\<close>

fun first_index :: "('a \<Rightarrow> bool) \<Rightarrow> 'a list \<Rightarrow> nat option" where
  "first_index P [] = None"
| "first_index P (x # xs) = (if P x then Some 0 else map_option Suc (first_index P xs))"

lemma first_index_None_iff: "first_index P xs = None \<longleftrightarrow> (\<forall>x \<in> set xs. \<not> P x)"
  by (induction xs) auto

lemma first_index_SomeD: "first_index P xs = Some i \<Longrightarrow> i < length xs \<and> P (xs ! i) \<and> (\<forall>j < i. \<not> P (xs ! j))"
  by (induction xs arbitrary: i) (auto simp: less_Suc_eq_0_disj split: if_splits)

lemma first_index_unique:
  assumes "i < length xs" "P (xs ! i)" "\<And>j. j < length xs \<Longrightarrow> P (xs ! j) \<Longrightarrow> j = i"
  shows "first_index P xs = Some i"
proof (cases "first_index P xs")
  case None
  then show ?thesis using assms(1,2) by (auto simp: first_index_None_iff)
next
  case (Some j)
  with first_index_SomeD [OF Some] assms(3) show ?thesis by auto
qed

lemma first_index_replicate [simp]: "\<not> P x \<Longrightarrow> first_index P (replicate n x) = None"
  by (simp add: first_index_None_iff)

lemma first_index_nth_ex: "i < length xs \<Longrightarrow> P (xs ! i) \<Longrightarrow> \<exists>j. first_index P xs = Some j"
  by (cases "first_index P xs") (auto simp: first_index_None_iff)

end
