(* ===== verification/Sys.thy ===== *)
theory Sys
  imports Prelude
begin

text \<open>
  The environment the stack runs in: the C library and the kernel. Their answers are a parameter
  \<open>os\<close> of the model, indexed by the number of the call, so that no two calls need to answer
  alike; the state counts the calls made (\<open>sys_tick\<close>), holds the open file descriptors and the
  log of what was written to them. Every layer's state record extends this one.
\<close>

record os =
  os_endian :: endian
  os_malloc :: "nat \<Rightarrow> bool"
  os_time :: "nat \<Rightarrow> int"
  os_timeofday :: "nat \<Rightarrow> (int \<times> int) option"
  os_random :: "nat \<Rightarrow> u32"
  os_ret :: "nat \<Rightarrow> int"
  os_read :: "nat \<Rightarrow> bytes option"

record sys =
  sys_tick :: nat
  sys_fds :: "int list"
  sys_sent :: "(int \<times> bytes \<times> int) list"

text \<open>
  \<open>malloc\<close> returns null or a new block; a block is named by the number of the call that
  allocated it.
\<close>

definition sys_malloc :: "os \<Rightarrow> 'a sys_scheme \<Rightarrow> nat option \<times> 'a sys_scheme" where
  "sys_malloc os s =
     (if os_malloc os (sys_tick s) then Some (sys_tick s) else None, s\<lparr>sys_tick := Suc (sys_tick s)\<rparr>)"

definition sys_time :: "os \<Rightarrow> 'a sys_scheme \<Rightarrow> int \<times> 'a sys_scheme" where
  "sys_time os s = (os_time os (sys_tick s), s\<lparr>sys_tick := Suc (sys_tick s)\<rparr>)"

text \<open>\<open>gettimeofday\<close>: seconds and microseconds, or \<open>None\<close> for a return of -1.\<close>

definition sys_timeofday :: "os \<Rightarrow> 'a sys_scheme \<Rightarrow> (int \<times> int) option \<times> 'a sys_scheme" where
  "sys_timeofday os s = (os_timeofday os (sys_tick s), s\<lparr>sys_tick := Suc (sys_tick s)\<rparr>)"

definition sys_random :: "os \<Rightarrow> 'a sys_scheme \<Rightarrow> u32 \<times> 'a sys_scheme" where
  "sys_random os s = (os_random os (sys_tick s), s\<lparr>sys_tick := Suc (sys_tick s)\<rparr>)"

text \<open>A call of which only the returned integer matters: \<open>ioctl\<close>, \<open>bind\<close>, \<open>poll\<close>.\<close>

definition sys_call :: "os \<Rightarrow> 'a sys_scheme \<Rightarrow> int \<times> 'a sys_scheme" where
  "sys_call os s = (os_ret os (sys_tick s), s\<lparr>sys_tick := Suc (sys_tick s)\<rparr>)"

text \<open>\<open>socket\<close> and \<open>open\<close>: a new file descriptor, or -1.\<close>

definition sys_open :: "os \<Rightarrow> 'a sys_scheme \<Rightarrow> int \<times> 'a sys_scheme" where
  "sys_open os s =
     (let fd = os_ret os (sys_tick s);
          s = s\<lparr>sys_tick := Suc (sys_tick s)\<rparr>
      in (fd, if fd = -1 then s else s\<lparr>sys_fds := fd # sys_fds s\<rparr>))"

definition sys_close :: "int \<Rightarrow> 'a sys_scheme \<Rightarrow> 'a sys_scheme" where
  "sys_close fd s = s\<lparr>sys_fds := remove1 fd (sys_fds s)\<rparr>"

text \<open>\<open>read\<close> delivers at most the size of the buffer; \<open>None\<close> is a return of -1.\<close>

definition sys_read :: "os \<Rightarrow> nat \<Rightarrow> 'a sys_scheme \<Rightarrow> bytes option \<times> 'a sys_scheme" where
  "sys_read os n s =
     (map_option (take n) (os_read os (sys_tick s)), s\<lparr>sys_tick := Suc (sys_tick s)\<rparr>)"

text \<open>\<open>ioctl\<close> with \<open>SIOCGIFHWADDR\<close> fills the 14 bytes of \<open>sa_data\<close>, or fails.\<close>

definition sys_hwaddr :: "os \<Rightarrow> 'a sys_scheme \<Rightarrow> bytes option \<times> 'a sys_scheme" where
  "sys_hwaddr os s =
     (map_option (\<lambda>d. take 14 (d @ replicate 14 0)) (os_read os (sys_tick s)),
      s\<lparr>sys_tick := Suc (sys_tick s)\<rparr>)"

definition sys_write :: "os \<Rightarrow> int \<Rightarrow> bytes \<Rightarrow> 'a sys_scheme \<Rightarrow> int \<times> 'a sys_scheme" where
  "sys_write os fd buf s =
     (let r = os_ret os (sys_tick s)
      in (r, s\<lparr>sys_tick := Suc (sys_tick s), sys_sent := sys_sent s @ [(fd, buf, r)]\<rparr>))"

lemmas sys_defs =
  sys_malloc_def sys_time_def sys_timeofday_def sys_random_def sys_call_def sys_open_def
  sys_close_def sys_read_def sys_hwaddr_def sys_write_def

lemma tick_self [simp]: "\<exists>t. s = s\<lparr>sys_tick := t\<rparr>"
  by (rule exI [of _ "sys_tick s"]) simp

text \<open>
  The steps that only send: they make environment calls and append to the log of what was written.
\<close>

definition sends :: "'a sys_scheme \<Rightarrow> 'a sys_scheme \<Rightarrow> bool" where
  "sends s s' \<longleftrightarrow> (\<exists>t l. s' = s\<lparr>sys_tick := t, sys_sent := sys_sent s @ l\<rparr>)"

lemma sends_refl [simp]: "sends s s"
  unfolding sends_def by (rule exI [of _ "sys_tick s"], rule exI [of _ "[]"]) simp

lemma sends_trans [trans]: "sends s s' \<Longrightarrow> sends s' s'' \<Longrightarrow> sends s s''"
  by (fastforce simp: sends_def)

lemma sends_tick [simp]: "sends s (s\<lparr>sys_tick := t\<rparr>)"
  unfolding sends_def by (rule exI [of _ t], rule exI [of _ "[]"]) simp

lemma sends_calls [simp]:
  "sends s (snd (sys_malloc os s))" "sends s (snd (sys_time os s))" "sends s (snd (sys_timeofday os s))"
  "sends s (snd (sys_random os s))" "sends s (snd (sys_call os s))" "sends s (snd (sys_write os fd buf s))"
  by (simp_all add: sys_defs Let_def) (auto simp: sends_def)

text \<open>
  An environment in which every allocation succeeds, the clock stands still and every other call
  returns \<open>r\<close>: the instance the concrete runs use.
\<close>

definition plain_os :: "int \<Rightarrow> int \<Rightarrow> os" where
  "plain_os now r =
     \<lparr>os_endian = Little, os_malloc = \<lambda>_. True, os_time = \<lambda>_. now, os_timeofday = \<lambda>_. Some (now, 0),
      os_random = \<lambda>_. 1000, os_ret = \<lambda>_. r, os_read = \<lambda>_. None\<rparr>"

lemma plain_os_simps [simp]:
  "os_endian (plain_os now r) = Little" "os_malloc (plain_os now r) k"
  "os_time (plain_os now r) k = now" "os_timeofday (plain_os now r) k = Some (now, 0)"
  "os_random (plain_os now r) k = 1000" "os_ret (plain_os now r) k = r" "os_read (plain_os now r) k = None"
  by (simp_all add: plain_os_def)

end
