(* ===== verification/Byteorder.thy ===== *)
theory Byteorder
  imports Prelude
begin

unbundle bit_operations_syntax

text \<open>
  The byte-order helpers of \<open>util.c\<close>: \<open>byteorder\<close>, \<open>byteswap16/32\<close> and
  \<open>hton16\<close>, \<open>ntoh16\<close>, \<open>hton32\<close>, \<open>ntoh32\<close> with the lazily initialised
  static variable \<open>endian\<close>. The host's byte order is the parameter \<open>e\<close>.
\<close>

definition byteorder :: "endian \<Rightarrow> int" where
  "byteorder e = (if hd (bytes32 e 0x00000001) \<noteq> 0 then 1234 else 4321)"

definition byteswap16 :: "u16 \<Rightarrow> u16" where
  "byteswap16 v = push_bit 8 (v AND 0x00ff) OR drop_bit 8 (v AND 0xff00)"

definition byteswap32 :: "u32 \<Rightarrow> u32" where
  "byteswap32 v =
     push_bit 24 (v AND 0x000000ff) OR push_bit 8 (v AND 0x0000ff00) OR
     drop_bit 8 (v AND 0x00ff0000) OR drop_bit 24 (v AND 0xff000000)"

text \<open>
  One call: the first component of the result is the new value of the static \<open>endian\<close>, the
  second the value returned. \<open>ntoh16\<close> and \<open>ntoh32\<close> have the same bodies as
  \<open>hton16\<close> and \<open>hton32\<close>.
\<close>

definition hton16_call :: "endian \<Rightarrow> int \<Rightarrow> u16 \<Rightarrow> int \<times> u16" where
  "hton16_call e cache h =
     (let cache' = (if cache = 0 then byteorder e else cache)
      in (cache', if cache' = 1234 then byteswap16 h else h))"

definition ntoh16_call :: "endian \<Rightarrow> int \<Rightarrow> u16 \<Rightarrow> int \<times> u16" where
  "ntoh16_call e cache n =
     (let cache' = (if cache = 0 then byteorder e else cache)
      in (cache', if cache' = 1234 then byteswap16 n else n))"

definition hton32_call :: "endian \<Rightarrow> int \<Rightarrow> u32 \<Rightarrow> int \<times> u32" where
  "hton32_call e cache h =
     (let cache' = (if cache = 0 then byteorder e else cache)
      in (cache', if cache' = 1234 then byteswap32 h else h))"

definition ntoh32_call :: "endian \<Rightarrow> int \<Rightarrow> u32 \<Rightarrow> int \<times> u32" where
  "ntoh32_call e cache n =
     (let cache' = (if cache = 0 then byteorder e else cache)
      in (cache', if cache' = 1234 then byteswap32 n else n))"

text \<open>The value a call returns when the static variable is still 0.\<close>

definition hton16 :: "endian \<Rightarrow> u16 \<Rightarrow> u16" where
  "hton16 e h = snd (hton16_call e 0 h)"

definition ntoh16 :: "endian \<Rightarrow> u16 \<Rightarrow> u16" where
  "ntoh16 e n = snd (ntoh16_call e 0 n)"

definition hton32 :: "endian \<Rightarrow> u32 \<Rightarrow> u32" where
  "hton32 e h = snd (hton32_call e 0 h)"

definition ntoh32 :: "endian \<Rightarrow> u32 \<Rightarrow> u32" where
  "ntoh32 e n = snd (ntoh32_call e 0 n)"

section \<open>Byte swaps\<close>

lemma u16_masks: "(0x00ff :: u16) = mask 8" "(0xff00 :: u16) = push_bit 8 (mask 8)"
  by (simp_all add: mask_eq_exp_minus_1)

lemma u32_masks:
  "(0x000000ff :: u32) = mask 8" "(0x0000ff00 :: u32) = push_bit 8 (mask 8)"
  "(0x00ff0000 :: u32) = push_bit 16 (mask 8)" "(0xff000000 :: u32) = push_bit 24 (mask 8)"
  by (simp_all add: mask_eq_exp_minus_1)

lemma bit_byteswap16:
  "bit (byteswap16 v) n \<longleftrightarrow> n < 16 \<and> bit v (if n < 8 then n + 8 else n - 8)"
  unfolding byteswap16_def u16_masks by (auto simp: bit_simps add.commute)

lemma bit_byteswap32:
  "bit (byteswap32 v) n \<longleftrightarrow>
     n < 32 \<and> bit v (if n < 8 then n + 24 else if n < 16 then n + 8
                     else if n < 24 then n - 8 else n - 24)"
  unfolding byteswap32_def u32_masks by (auto simp: bit_simps add.commute)

lemma byteswap16_byteswap16 [simp]: "byteswap16 (byteswap16 v) = v"
  by (rule bit_word_eqI) (auto simp: bit_byteswap16)

lemma byteswap32_byteswap32 [simp]: "byteswap32 (byteswap32 v) = v"
  by (rule bit_word_eqI) (auto simp: bit_byteswap32)

lemma byteorder_simps [simp]: "byteorder Little = 1234" "byteorder Big = 4321"
  by (simp_all add: byteorder_def bytes32_def)

lemma hton_simps [byte_simps]:
  "hton16 Little v = byteswap16 v" "hton16 Big v = v"
  "hton32 Little w = byteswap32 w" "hton32 Big w = w"
  "ntoh16 Little v = byteswap16 v" "ntoh16 Big v = v"
  "ntoh32 Little w = byteswap32 w" "ntoh32 Big w = w"
  by (simp_all add: hton16_def hton32_def ntoh16_def ntoh32_def hton16_call_def
      hton32_call_def ntoh16_call_def ntoh32_call_def)

lemma ntoh16_hton16 [simp]: "ntoh16 e (hton16 e v) = v"
  by (cases e) (simp_all add: byte_simps)

lemma hton16_ntoh16 [simp]: "hton16 e (ntoh16 e v) = v"
  by (cases e) (simp_all add: byte_simps)

lemma ntoh32_hton32 [simp]: "ntoh32 e (hton32 e v) = v"
  by (cases e) (simp_all add: byte_simps)

lemma hton32_ntoh32 [simp]: "hton32 e (ntoh32 e v) = v"
  by (cases e) (simp_all add: byte_simps)

lemma ntoh16_inject [simp]: "ntoh16 e v = ntoh16 e w \<longleftrightarrow> v = w"
  by (metis hton16_ntoh16)

lemma hton16_inject [simp]: "hton16 e v = hton16 e w \<longleftrightarrow> v = w"
  by (metis ntoh16_hton16)

lemma ntoh16_zero_iff [simp]: "hton16 e v = 0 \<longleftrightarrow> v = 0"
proof -
  have "byteswap16 0 = 0" by (simp add: byteswap16_def)
  then have "hton16 e 0 = 0" by (cases e) (simp_all add: byte_simps)
  then show ?thesis by (metis hton16_inject)
qed

section \<open>The bytes on the wire\<close>

lemma bytes_Big:
  "bytes16 Big v = [ucast (drop_bit 8 v), ucast v]"
  "bytes32 Big w = [ucast (drop_bit 24 w), ucast (drop_bit 16 w), ucast (drop_bit 8 w), ucast w]"
  by (simp_all add: bytes16_def bytes32_def)

text \<open>What a converted value looks like in memory does not depend on the host.\<close>

lemma byteswap16_bytes: "bytes16 Little (byteswap16 v) = bytes16 Big v"
  by (auto simp: bytes16_def bit_simps bit_byteswap16 add.commute intro!: bit_word_eqI)

lemma byteswap32_bytes: "bytes32 Little (byteswap32 v) = bytes32 Big v"
  by (auto simp: bytes32_def bit_simps bit_byteswap32 add.commute intro!: bit_word_eqI)

lemma bytes16_hton16 [byte_simps]: "bytes16 e (hton16 e v) = bytes16 Big v"
  by (cases e) (simp_all add: hton_simps byteswap16_bytes)

lemma bytes32_hton32 [byte_simps]: "bytes32 e (hton32 e v) = bytes32 Big v"
  by (cases e) (simp_all add: hton_simps byteswap32_bytes)

lemma ntoh16_load16 [byte_simps]: "ntoh16 e (load16 e a b) = load16 Big a b"
  by (metis bytes16_hton16 bytes16_load16 hton16_ntoh16 load16_bytes16)

lemma ntoh32_load32 [byte_simps]: "ntoh32 e (load32 e a b c d) = load32 Big a b c d"
  by (metis bytes32_hton32 bytes32_load32 hton32_ntoh32 load32_bytes32)

text \<open>
  Whatever the host and however often the conversions have been called before (the
  static variable is 0 or holds the host's order), a call returns the same value, leaves the static
  variable valid, stores the value in network byte order, and undoes itself.
\<close>

theorem hton16_network_order:
  assumes "cache \<in> {0, byteorder e}"
  shows "snd (hton16_call e cache h) = hton16 e h \<and> fst (hton16_call e cache h) = byteorder e \<and>
         bytes16 e (snd (hton16_call e cache h)) = [ucast (drop_bit 8 h), ucast h] \<and>
         snd (ntoh16_call e cache (snd (hton16_call e cache h))) = h \<and>
         bytes32 e (snd (hton32_call e cache w)) =
           [ucast (drop_bit 24 w), ucast (drop_bit 16 w), ucast (drop_bit 8 w), ucast w] \<and>
         snd (ntoh32_call e cache (snd (hton32_call e cache w))) = w"
proof -
  have "hton16_call e cache h = (byteorder e, hton16 e h)"
    and "ntoh16_call e cache (hton16 e h) = (byteorder e, h)"
    and "hton32_call e cache w = (byteorder e, hton32 e w)"
    and "ntoh32_call e cache (hton32 e w) = (byteorder e, w)"
    using assms by (cases e; auto simp: hton16_call_def ntoh16_call_def hton32_call_def
        ntoh32_call_def byte_simps)+
  then show ?thesis by (simp add: bytes16_hton16 bytes32_hton32 bytes_Big)
qed

theorem hton16_network_order_witness:
  "(1234 :: int) \<in> {0, byteorder Little} \<and>
   bytes16 Little (snd (hton16_call Little 1234 0x0800)) = [0x08, 0x00] \<and>
   bytes32 Little (snd (hton32_call Little 1234 0xc0a8210d)) = [0xc0, 0xa8, 0x21, 0x0d]"
proof -
  have h: "(1234 :: int) \<in> {0, byteorder Little}" by simp
  have "bytes16 Little (snd (hton16_call Little 1234 0x0800)) = [ucast (drop_bit 8 (0x0800 :: u16)), ucast (0x0800 :: u16)]"
    and "bytes32 Little (snd (hton32_call Little 1234 0xc0a8210d)) =
      [ucast (drop_bit 24 (0xc0a8210d :: u32)), ucast (drop_bit 16 (0xc0a8210d :: u32)),
       ucast (drop_bit 8 (0xc0a8210d :: u32)), ucast (0xc0a8210d :: u32)]"
    using hton16_network_order [OF h, of "0x0800" "0xc0a8210d"] by blast+
  with h show ?thesis by simp
qed

end
