(* ===== verification/Checksum.thy ===== *)
theory Checksum
  imports Byteorder
begin

unbundle bit_operations_syntax

text \<open>
  \<open>cksum16\<close> of \<open>util.c\<close>: the 16-bit one's complement checksum over a buffer read as host
  half words, with a 32-bit accumulator folded twice.
\<close>

section \<open>The routine\<close>

text \<open>The loop over the half words and the odd trailing byte; the accumulator wraps at 32 bits.\<close>

fun cksum_loop :: "endian \<Rightarrow> u32 \<Rightarrow> bytes \<Rightarrow> u32" where
  "cksum_loop e s (a # b # bs) = cksum_loop e (s + ucast (load16 e a b)) bs"
| "cksum_loop e s [a] = s + ucast a"
| "cksum_loop e s [] = s"

definition cksum_fold :: "u32 \<Rightarrow> u32" where
  "cksum_fold s = (s AND 0xffff) + drop_bit 16 s"

text \<open>\<open>data\<close> is the memory the pointer refers to; reading past its end faults.\<close>

definition cksum16 :: "endian \<Rightarrow> bytes \<Rightarrow> u16 \<Rightarrow> u32 \<Rightarrow> u16 res" where
  "cksum16 e data sz init =
     bindr (mem_read data 0 (unat sz)) (\<lambda>bs.
       let s = cksum_fold (cksum_fold (cksum_loop e init bs))
       in Inr (NOT (ucast s)))"

section \<open>Arithmetic specification\<close>

text \<open>The sum of the half words as a natural number.\<close>

fun half_sum :: "endian \<Rightarrow> bytes \<Rightarrow> nat" where
  "half_sum e (a # b # bs) = unat (load16 e a b) + half_sum e bs"
| "half_sum e [a] = unat a"
| "half_sum e [] = 0"

text \<open>One's complement normal form: the representative of \<open>n\<close> modulo 65535 in
  \<open>{1..65535}\<close>, and 0 for 0.\<close>

definition oc_norm :: "nat \<Rightarrow> nat" where
  "oc_norm n = (if n = 0 then 0 else if n mod 65535 = 0 then 65535 else n mod 65535)"

lemma oc_norm_le: "oc_norm n \<le> 65535"
  by (simp add: oc_norm_def)

lemma oc_norm_unique: "m \<le> 65535 \<Longrightarrow> (m = 0 \<longleftrightarrow> n = 0) \<Longrightarrow> m mod 65535 = n mod 65535 \<Longrightarrow> m = oc_norm n"
  by (cases "m = 65535") (auto simp: oc_norm_def)

lemma oc_norm_full_iff: "oc_norm n = 65535 \<longleftrightarrow> 0 < n \<and> 65535 dvd n"
proof -
  have "n mod 65535 \<noteq> 65535" by (metis less_irrefl mod_less_divisor zero_less_numeral)
  then show ?thesis by (auto simp: oc_norm_def mod_eq_0_iff_dvd)
qed

lemma half_sum_le: "half_sum e bs \<le> 65535 * ((length bs + 1) div 2)"
proof (induction e bs rule: half_sum.induct)
  case (1 e a b bs)
  have "unat (load16 e a b) \<le> 65535"
    using unat_u16_less [of "load16 e a b"] by simp
  with 1 show ?case by simp
next
  case (2 e a)
  have "unat a \<le> 255" using unat_u8_less [of a] by simp
  then show ?case by simp
qed simp

lemma half_sum_append: "even (length xs) \<Longrightarrow> half_sum e (xs @ ys) = half_sum e xs + half_sum e ys"
  by (induction e xs rule: half_sum.induct) auto

lemma half_sum_bytes16 [simp]: "half_sum e (bytes16 e v @ bs) = unat v + half_sum e bs"
proof -
  obtain a b where ab: "bytes16 e v = [a, b]"
    by (cases e) (auto simp: bytes16_def)
  then show ?thesis by (simp add: load16_bytes16 [OF ab])
qed

lemma unat_cksum_loop:
  "unat s + half_sum e bs < 2 ^ 32 \<Longrightarrow> unat (cksum_loop e s bs) = unat s + half_sum e bs"
proof (induction e s bs rule: cksum_loop.induct)
  case (1 e s a b bs)
  have "unat (s + ucast (load16 e a b)) = unat s + unat (load16 e a b)"
    using 1(2) by (subst unat_add_lem [THEN iffD1]) (auto simp: unat_ucast_up)
  with 1 show ?case by simp
next
  case (2 e s a)
  then show ?case by (simp add: unat_add_lem [THEN iffD1] unat_ucast_up)
qed simp

lemma unat_cksum_fold: "unat (cksum_fold s) = unat s mod 65536 + unat s div 65536"
proof -
  have m: "unat (s AND 0xffff) = unat s mod 65536"
  proof -
    have "s AND 0xffff = take_bit 16 s"
      by (simp add: take_bit_eq_mask mask_eq_exp_minus_1)
    also have "unat \<dots> = take_bit 16 (unat s)" by (simp only: unsigned_take_bit_eq)
    finally show ?thesis by (simp add: take_bit_eq_mod)
  qed
  have d: "unat (drop_bit 16 s) = unat s div 65536"
    by (simp only: unat_drop_bit_eq) (simp add: drop_bit_eq_div)
  have "unat s div 65536 < 65536" using unat_u32_less [of s] by (simp add: less_mult_imp_div_less)
  moreover have "unat s mod 65536 < 65536" by simp
  ultimately have "unat (s AND 0xffff) + unat (drop_bit 16 s) < 2 ^ 32" unfolding m d by simp
  then show ?thesis
    unfolding cksum_fold_def by (simp add: unat_add_lem [THEN iffD1] m d)
qed

lemma fold_below: "m < 131071 \<Longrightarrow> m mod 65536 + m div 65536 \<le> (65535 :: nat)"
proof (cases "m < 65536")
  case False
  assume "m < 131071"
  with False have "m div 65536 = 1" by (intro div_nat_eqI) auto
  moreover from this have "m mod 65536 = m - 65536" by (simp add: modulo_nat_def)
  ultimately show ?thesis using \<open>m < 131071\<close> by simp
qed simp

lemma unat_cksum_fold_twice: "unat (cksum_fold (cksum_fold s)) = oc_norm (unat s)"
proof -
  let ?n = "unat s"
  let ?f = "\<lambda>n. n mod 65536 + n div (65536 :: nat)"
  have mod_eq: "?f n mod 65535 = n mod 65535" for n
  proof -
    have "n = (n div 65536) * 65535 + ?f n" by simp
    then show ?thesis by (metis mod_mult_self3)
  qed
  have zero: "?f n = 0 \<longleftrightarrow> n = 0" for n
  proof
    assume "?f n = 0"
    then have "n mod 65536 = 0" "n div 65536 = 0" by simp_all
    then show "n = 0" by (metis div_mult_mod_eq mult_zero_left add_0)
  qed simp
  have n: "?n < 4294967296" by (rule unat_u32_less)
  then have "?n div 65536 < 65536" by (simp add: less_mult_imp_div_less)
  moreover have "?n mod 65536 < 65536" by simp
  ultimately have "?f ?n < 131071" by linarith
  then have "?f (?f ?n) \<le> 65535" by (rule fold_below)
  then show ?thesis
    unfolding unat_cksum_fold
    by (rule oc_norm_unique) (simp_all only: zero mod_eq)
qed

lemma unat_not_ucast16:
  assumes "unat (s :: u32) \<le> 65535"
  shows "unat (NOT (ucast s) :: u16) = 65535 - unat s"
proof -
  have "unat (ucast s :: u16) = unat s"
    using assms by (simp add: unsigned_ucast_eq take_bit_nat_eq_self)
  moreover have "NOT (ucast s :: u16) = 0xffff - ucast s"
    by (simp add: not_eq_complement)
  ultimately show ?thesis
    using assms by (simp add: unat_sub word_le_nat_alt)
qed

definition sum_fits :: "endian \<Rightarrow> bytes \<Rightarrow> u16 \<Rightarrow> u32 \<Rightarrow> bool" where
  "sum_fits e data sz init \<longleftrightarrow>
     unat sz \<le> length data \<and> unat init + half_sum e (take (unat sz) data) < 2 ^ 32"

lemma sum_fitsI: "unat sz \<le> length data \<Longrightarrow> unat init < 2 ^ 31 \<Longrightarrow> sum_fits e data sz init"
proof -
  assume a: "unat sz \<le> length data" "unat init < 2 ^ 31"
  have "unat sz \<le> 65535" using unat_u16_less [of sz] by simp
  then have "(length (take (unat sz) data) + 1) div 2 \<le> 32768" using a by simp
  then have "half_sum e (take (unat sz) data) \<le> 65535 * 32768"
    using half_sum_le [of e "take (unat sz) data"] by (meson le_trans mult_le_mono2)
  with a show ?thesis by (simp add: sum_fits_def)
qed

lemma cksum16_spec:
  assumes "sum_fits e data sz init"
  shows "\<exists>c. cksum16 e data sz init = Inr c \<and>
             unat c = 65535 - oc_norm (unat init + half_sum e (take (unat sz) data))"
proof -
  let ?bs = "take (unat sz) data"
  let ?s = "cksum_loop e init ?bs"
  let ?c = "NOT (ucast (cksum_fold (cksum_fold ?s))) :: u16"
  have "unat ?s = unat init + half_sum e ?bs"
    using assms by (simp add: sum_fits_def unat_cksum_loop)
  then have "unat ?c = 65535 - oc_norm (unat init + half_sum e ?bs)"
    by (simp add: unat_not_ucast16 unat_cksum_fold_twice oc_norm_le)
  moreover have "cksum16 e data sz init = Inr ?c"
    using assms by (simp add: cksum16_def sum_fits_def mem_read_def Let_def)
  ultimately show ?thesis by blast
qed

lemma cksum16_zero_iff:
  assumes "sum_fits e data sz init"
  shows "cksum16 e data sz init = Inr 0 \<longleftrightarrow>
           (let s = unat init + half_sum e (take (unat sz) data) in 0 < s \<and> 65535 dvd s)"
proof -
  let ?s = "unat init + half_sum e (take (unat sz) data)"
  obtain c where c: "cksum16 e data sz init = Inr c" "unat c = 65535 - oc_norm ?s"
    using cksum16_spec [OF assms] by blast
  have "c = 0 \<longleftrightarrow> oc_norm ?s = 65535"
    using c(2) oc_norm_le [of ?s] unat_eq_zero [of c] by linarith
  also have "\<dots> \<longleftrightarrow> 0 < ?s \<and> 65535 dvd ?s" by (rule oc_norm_full_iff)
  finally show ?thesis using c(1) by (simp add: Let_def)
qed

section \<open>Checksum fields\<close>

lemma oc_norm_eq_mod: "oc_norm n mod 65535 = n mod 65535"
  by (simp add: oc_norm_def)

lemma oc_norm_complement: "0 < n + (65535 - oc_norm n) \<and> 65535 dvd n + (65535 - oc_norm n)"
proof
  show "0 < n + (65535 - oc_norm n)" by (cases "n = 0", simp add: oc_norm_def, simp only: neq0_conv trans_less_add1)
  obtain k where k: "65535 = oc_norm n + k" using oc_norm_le le_Suc_ex by blast
  have "(n + k) mod 65535 = (oc_norm n + k) mod 65535"
    by (metis mod_add_left_eq oc_norm_eq_mod)
  then have "(n + k) mod 65535 = 0" using k by simp
  moreover have "65535 - oc_norm n = k" using k by simp
  ultimately show "65535 dvd n + (65535 - oc_norm n)" by (simp add: mod_eq_0_iff_dvd)
qed

lemma cksum16_field:
  assumes "even (length pre)" "unat sz = length pre + 2 + length post" "unat init < 2 ^ 31"
    and c: "cksum16 e (pre @ [0, 0] @ post @ rest) sz init = Inr c"
  shows "cksum16 e (pre @ bytes16 e c @ post @ rest) sz init = Inr 0"
proof -
  let ?S = "unat init + half_sum e (pre @ [0, 0] @ post)"
  have "load16 e 0 0 = 0" by (cases e) (simp_all add: load16_def)
  then have z: "half_sum e (pre @ [0, 0] @ post) = half_sum e pre + half_sum e post"
    using assms(1) by (simp add: half_sum_append)
  have cut: "take (unat sz) (pre @ v @ post @ rest) = pre @ v @ post" if "length v = 2" for v :: bytes
    using that assms(2) by simp
  have fits: "sum_fits e (pre @ v @ post @ rest) sz init" if "length v = 2" for v :: bytes
    using that assms(2,3) by (intro sum_fitsI) auto
  have u: "unat c = 65535 - oc_norm ?S"
    using cksum16_spec [OF fits [of "[0, 0]"]] c cut [of "[0, 0]"] by auto
  have "unat init + half_sum e (pre @ bytes16 e c @ post) = ?S + (65535 - oc_norm ?S)"
    using assms(1) z u by (simp add: half_sum_append)
  then show ?thesis
    unfolding cksum16_zero_iff [OF fits [OF length_bytes16]] cut [OF length_bytes16] Let_def
    using oc_norm_complement [of ?S] by (simp only: simp_thms)
qed

text \<open>
  Property C24: a checksum field filled with \<open>cksum16\<close> over the buffer with a zero field makes
  the whole buffer check to 0, on either host, for any even field offset, odd and even sizes and
  any start value below \<open>2 ^ 31\<close>: what a sender computes, a receiver accepts.
\<close>

theorem cksum16_accepts_own_checksum:
  assumes "even (length pre)" "unat sz = length pre + 2 + length post" "unat init < 2 ^ 31"
  shows "\<exists>c. cksum16 e (pre @ [0, 0] @ post @ rest) sz init = Inr c \<and>
             cksum16 e (pre @ bytes16 e c @ post @ rest) sz init = Inr 0"
proof -
  have "sum_fits e (pre @ [0, 0] @ post @ rest) sz init"
    using assms by (intro sum_fitsI) auto
  then obtain c where "cksum16 e (pre @ [0, 0] @ post @ rest) sz init = Inr c"
    using cksum16_spec by blast
  with cksum16_field [OF assms] show ?thesis by blast
qed

theorem cksum16_accepts_own_checksum_witness:
  "\<exists>c. cksum16 Little ([0x45, 0x00] @ [0, 0] @ [0x01] @ [0x99]) 5 0 = Inr c \<and>
       cksum16 Little ([0x45, 0x00] @ bytes16 Little c @ [0x01] @ [0x99]) 5 0 = Inr 0"
  by (rule cksum16_accepts_own_checksum) simp_all

lemma cksum16_half_word:
  assumes "even (length pre)" "unat sz = length pre + 2 + length post" "unat init < 2 ^ 31"
    and ok: "cksum16 e (pre @ bytes16 e v @ post) sz init = Inr 0"
    and ne: "v \<noteq> v'" "{v, v'} \<noteq> {0, 0xffff}"
  shows "cksum16 e (pre @ bytes16 e v' @ post) sz init \<noteq> Inr 0"
proof
  assume ok': "cksum16 e (pre @ bytes16 e v' @ post) sz init = Inr 0"
  let ?R = "unat init + half_sum e pre + half_sum e post"
  have fits: "sum_fits e (pre @ bytes16 e w @ post) sz init" for w
    using assms(2,3) by (intro sum_fitsI) auto
  have cut: "take (unat sz) (pre @ bytes16 e w @ post) = pre @ bytes16 e w @ post" for w
    using assms(2) by simp
  have dvd: "65535 dvd unat w + ?R" if "cksum16 e (pre @ bytes16 e w @ post) sz init = Inr 0" for w
    using that assms(1) unfolding cksum16_zero_iff [OF fits] cut Let_def
    by (simp add: half_sum_append ac_simps)
  have "unat v mod 65535 = unat v' mod 65535"
  proof -
    have "int (unat v + ?R) - int (unat v' + ?R) = int (unat v) - int (unat v')" by simp
    moreover have "int 65535 dvd int (unat v + ?R)" "int 65535 dvd int (unat v' + ?R)"
      using dvd [OF ok] dvd [OF ok'] by (simp_all only: int_dvd_int_iff)
    ultimately have "int 65535 dvd int (unat v) - int (unat v')" by (metis dvd_diff)
    then have "int (unat v) mod int 65535 = int (unat v') mod int 65535" by (simp only: mod_eq_dvd_iff)
    then show ?thesis by (metis of_nat_eq_iff of_nat_mod)
  qed
  moreover have "unat v \<le> 65535" "unat v' \<le> 65535"
    using unat_u16_less [of v] unat_u16_less [of v'] by simp_all
  ultimately have "unat v = unat v' \<or> {unat v, unat v'} = {0, 65535}"
    by (cases "unat v = 65535"; cases "unat v' = 65535") auto
  then show False
  proof
    assume "unat v = unat v'" with ne(1) show False by (simp add: word_unat_eq_iff)
  next
    assume "{unat v, unat v'} = {0, 65535}"
    moreover have "w = 0xffff" if "unat w = 65535" for w :: u16
      using that by (simp only: word_unat_eq_iff) simp
    ultimately have "{v, v'} = {0, 0xffff}" by (auto simp: doubleton_eq_iff unat_eq_zero)
    with ne(2) show False by simp
  qed
qed

text \<open>
  A half word of an accepted buffer that is changed makes the buffer rejected, unless
  the change exchanges the two representations of zero, \<open>0x0000\<close> and \<open>0xffff\<close>.
\<close>

theorem cksum16_detects_half_word:
  assumes "even (length pre)" "unat sz = length pre + 2 + length post" "unat init < 2 ^ 31"
    and ok: "cksum16 e (pre @ bytes16 e v @ post) sz init = Inr 0"
    and ne: "v \<noteq> v'" "{v, v'} \<noteq> {0, 0xffff}"
  shows "cksum16 e (pre @ bytes16 e v' @ post) sz init \<noteq> Inr 0"
  using assms by (rule cksum16_half_word)

theorem cksum16_detects_half_word_witness:
  "cksum16 Little ([] @ bytes16 Little 0xffff @ []) 2 0 = Inr 0 \<and>
   cksum16 Little ([] @ bytes16 Little 0xfffe @ []) 2 0 \<noteq> Inr 0"
proof -
  have ok: "cksum16 Little ([] @ bytes16 Little 0xffff @ []) 2 0 = Inr 0"
    by code_simp
  have "(0xffff :: u16) \<noteq> 0xfffe" "{0xffff, 0xfffe} \<noteq> {0, 0xffff :: u16}"
    by (simp_all add: doubleton_eq_iff)
  then have "cksum16 Little ([] @ bytes16 Little 0xfffe @ []) 2 0 \<noteq> Inr 0"
    using cksum16_detects_half_word [of "[]" 2 "[]" 0 Little "0xffff" "0xfffe"] ok by simp
  with ok show ?thesis by blast
qed

end
