(* ===== verification/Bitmask.thy ===== *)
theory Bitmask
  imports Prelude
begin

unbundle bit_operations_syntax

text \<open>
  The bit-mask routines of \<open>util.c\<close> (\<open>maskset\<close>, \<open>maskchk\<close>, \<open>maskclr\<close>) on an
  array of 32-bit words. A shift by 32 or more and an index past the array are faults. The
  \<open>size\<close> parameter is the one the code passes; only \<open>maskclr\<close> uses it.
\<close>

section \<open>The routines\<close>

definition ones_shr :: "nat \<Rightarrow> u32 res" where
  "ones_shr n = (if n < 32 then Inr (drop_bit n 0xffffffff) else Inl ShiftTooWide)"

definition mask_get :: "u32 list \<Rightarrow> nat \<Rightarrow> u32 res" where
  "mask_get m i = (if i < length m then Inr (m ! i) else Inl OutOfBounds)"

definition mask_put :: "u32 list \<Rightarrow> nat \<Rightarrow> u32 \<Rightarrow> u32 list res" where
  "mask_put m i w = (if i < length m then Inr (m[i := w]) else Inl OutOfBounds)"

text \<open>The two loops over whole words; \<open>n\<close> counts the iterations left.\<close>

fun maskset_words :: "u32 list \<Rightarrow> nat \<Rightarrow> nat \<Rightarrow> u32 list res" where
  "maskset_words m idx 0 = Inr m"
| "maskset_words m idx (Suc n) =
     bindr (mask_put m (idx + 1) 0xffffffff) (\<lambda>m'. maskset_words m' (idx + 1) n)"

fun maskchk_words :: "u32 list \<Rightarrow> nat \<Rightarrow> nat \<Rightarrow> bool res" where
  "maskchk_words m idx 0 = Inr True"
| "maskchk_words m idx (Suc n) =
     bindr (mask_get m (idx + 1)) (\<lambda>w.
       if w XOR 0xffffffff \<noteq> 0 then Inr False else maskchk_words m (idx + 1) n)"

definition maskset :: "u32 list \<Rightarrow> nat \<Rightarrow> nat \<Rightarrow> nat \<Rightarrow> u32 list res" where
  "maskset m sz off len =
     (let so = off div 32; sb = off mod 32;
          bl = (if len > 32 - sb then 32 - sb else len)
      in bindr (mask_get m so) (\<lambda>w.
         bindr (ones_shr (32 - bl)) (\<lambda>ones.
         bindr (mask_put m so (w OR push_bit sb ones)) (\<lambda>m.
         let len = len - bl; idx = so + len div 32
         in bindr (maskset_words m so (len div 32)) (\<lambda>m.
         let len = len - 32 * (idx - so)
         in if len = 0 then Inr m
            else bindr (mask_get m (idx + 1)) (\<lambda>w.
                 bindr (ones_shr (32 - len)) (\<lambda>ones.
                   mask_put m (idx + 1) (w OR ones))))))))"

definition maskchk :: "u32 list \<Rightarrow> nat \<Rightarrow> nat \<Rightarrow> nat \<Rightarrow> bool res" where
  "maskchk m sz off len =
     (let so = off div 32; sb = off mod 32;
          bl = (if len > 32 - sb then 32 - sb else len)
      in bindr (mask_get m (off div 32)) (\<lambda>w.
         bindr (ones_shr (32 - bl)) (\<lambda>ones.
         if (w AND push_bit sb ones) XOR push_bit sb ones \<noteq> 0 then Inr False
         else
           let len = len - bl; idx = so + len div 32
           in bindr (maskchk_words m so (len div 32)) (\<lambda>all.
              if \<not> all then Inr False
              else
                let len = len - 32 * (idx - so)
                in if len = 0 then Inr True
                   else bindr (mask_get m (idx + 1)) (\<lambda>w.
                        bindr (ones_shr (32 - len)) (\<lambda>ones.
                          Inr ((w AND ones) XOR ones = 0)))))))"

text \<open>The \<open>memset\<close> clears \<open>size\<close> elements of the array, not \<open>size\<close> bytes.\<close>

definition maskclr :: "u32 list \<Rightarrow> nat \<Rightarrow> u32 list res" where
  "maskclr m sz = mem_write m 0 (replicate sz 0)"

section \<open>Bits of a mask\<close>

definition mask_bit :: "u32 list \<Rightarrow> nat \<Rightarrow> bool" where
  "mask_bit m i \<longleftrightarrow> i div 32 < length m \<and> bit (m ! (i div 32)) (i mod 32)"

lemma bit_ones: "bit (0xffffffff :: int) k \<longleftrightarrow> k < 32"
proof -
  have "(0xffffffff :: int) = mask 32" by (simp add: mask_eq_exp_minus_1)
  then show ?thesis by (simp only: bit_mask_iff) simp
qed

lemma bit_ones_shr: "ones_shr n = Inr w \<Longrightarrow> bit w k \<longleftrightarrow> k < 32 - n"
  by (auto simp: ones_shr_def bit_drop_bit_eq bit_ones less_diff_conv add.commute split: if_splits)

lemma ones_shr_ok: "n < 32 \<Longrightarrow> \<exists>w. ones_shr n = Inr w"
  by (simp add: ones_shr_def)

lemma word_and_xor_zero_iff: "(w AND x) XOR x = 0 \<longleftrightarrow> (\<forall>k. bit x k \<longrightarrow> bit (w :: u32) k)"
proof -
  have "(w AND x) XOR x = 0 \<longleftrightarrow> (\<forall>k < 32. bit x k \<longrightarrow> bit w k)"
    by (auto simp: bit_eq_iff bit_simps)
  then show ?thesis using bit_imp_le_length [of x] by auto
qed

lemma word_xor_ones_zero_iff: "w XOR 0xffffffff = 0 \<longleftrightarrow> (\<forall>k < 32. bit (w :: u32) k)"
  by (auto simp: bit_eq_iff bit_simps bit_ones)

lemma mask_bit_update:
  "j < length m \<Longrightarrow>
     mask_bit (m[j := w]) i = (if i div 32 = j then bit w (i mod 32) else mask_bit m i)"
  by (auto simp: mask_bit_def nth_list_update)

lemma div32_eq: "(i :: nat) div 32 = j \<longleftrightarrow> 32 * j \<le> i \<and> i < 32 * j + 32"
  by (auto simp: div_nat_eqI mult.commute)

lemma maskset_words_bits:
  "idx + n < length m \<Longrightarrow>
     \<exists>m'. maskset_words m idx n = Inr m' \<and> length m' = length m \<and>
          (\<forall>i. mask_bit m' i \<longleftrightarrow> mask_bit m i \<or> 32 * (idx + 1) \<le> i \<and> i < 32 * (idx + 1 + n))"
proof (induction n arbitrary: m idx)
  case 0
  then show ?case by auto
next
  case (Suc n)
  let ?m1 = "m[idx + 1 := 0xffffffff]"
  obtain m' where m': "maskset_words ?m1 (idx + 1) n = Inr m'" "length m' = length m"
    "\<And>i. mask_bit m' i \<longleftrightarrow> mask_bit ?m1 i \<or> 32 * (idx + 2) \<le> i \<and> i < 32 * (idx + 2 + n)"
    using Suc.IH [of "idx + 1" ?m1] Suc.prems by auto
  have b: "bit (0xffffffff :: u32) (i mod 32)" for i :: nat by (simp add: bit_ones)
  have "mask_bit ?m1 i \<longleftrightarrow> mask_bit m i \<or> i div 32 = idx + 1" for i
  proof -
    have "mask_bit ?m1 i =
        (if i div 32 = idx + 1 then bit (0xffffffff :: u32) (i mod 32) else mask_bit m i)"
      using Suc.prems by (intro mask_bit_update) simp
    then show ?thesis using b [of i] by argo
  qed
  moreover have "32 * (idx + 1) \<le> i \<and> i < 32 * (idx + 1) + 32 \<or>
      32 * (idx + 2) \<le> i \<and> i < 32 * (idx + 2 + n) \<longleftrightarrow>
      32 * (idx + 1) \<le> i \<and> i < 32 * (idx + 1 + Suc n)" for i
    by auto
  ultimately have "mask_bit m' i \<longleftrightarrow> mask_bit m i \<or> 32 * (idx + 1) \<le> i \<and> i < 32 * (idx + 1 + Suc n)" for i
    unfolding m'(3) div32_eq by blast
  moreover have "maskset_words m idx (Suc n) = Inr m'"
    using Suc.prems m'(1) by (simp add: mask_put_def)
  ultimately show ?case using m'(2) by blast
qed

definition mask_all :: "u32 list \<Rightarrow> nat \<Rightarrow> nat \<Rightarrow> bool" where
  "mask_all m lo hi \<longleftrightarrow> (\<forall>i \<in> {lo..<hi}. mask_bit m i)"

lemma mask_all_split:
  "lo \<le> mid \<Longrightarrow> mid \<le> hi \<Longrightarrow> mask_all m lo hi \<longleftrightarrow> mask_all m lo mid \<and> mask_all m mid hi"
proof -
  assume "lo \<le> mid" "mid \<le> hi"
  then have "{lo..<hi} = {lo..<mid} \<union> {mid..<hi}" by auto
  then show ?thesis by (simp only: mask_all_def ball_Un)
qed

lemma ball_shift: "(\<forall>i \<in> {c + a..<c + b}. P i) \<longleftrightarrow> (\<forall>k \<in> {a..<b :: nat}. P (c + k))"
proof
  assume r: "\<forall>k \<in> {a..<b}. P (c + k)"
  show "\<forall>i \<in> {c + a..<c + b}. P i"
  proof
    fix i assume "i \<in> {c + a..<c + b}"
    with r have "P (c + (i - c))" by fastforce
    with \<open>i \<in> {c + a..<c + b}\<close> show "P i" by simp
  qed
qed simp

lemma mask_all_word:
  assumes "j < length m" "b \<le> 32"
  shows "mask_all m (32 * j + a) (32 * j + b) \<longleftrightarrow> (\<forall>k. a \<le> k \<and> k < b \<longrightarrow> bit (m ! j) k)"
proof -
  have dm: "(32 * j + k) div 32 = j \<and> (32 * j + k) mod 32 = k" if "k < b" for k
    using that assms(2) by (simp add: div32_eq)
  have "mask_all m (32 * j + a) (32 * j + b) \<longleftrightarrow> (\<forall>k \<in> {a..<b}. mask_bit m (32 * j + k))"
    unfolding mask_all_def by (rule ball_shift)
  also have "\<dots> \<longleftrightarrow> (\<forall>k. a \<le> k \<and> k < b \<longrightarrow> bit (m ! j) k)"
    using dm assms(1) by (auto simp: mask_bit_def)
  finally show ?thesis .
qed

lemma maskchk_words_all:
  "idx + n < length m \<Longrightarrow>
     maskchk_words m idx n = Inr (mask_all m (32 * (idx + 1)) (32 * (idx + 1 + n)))"
proof (induction n arbitrary: idx)
  case 0
  then show ?case by (simp add: mask_all_def)
next
  case (Suc n)
  have word: "m ! (idx + 1) XOR 0xffffffff = 0 \<longleftrightarrow>
      mask_all m (32 * (idx + 1)) (32 * (idx + 1) + 32)"
    using mask_all_word [of "idx + 1" m 32 0] Suc.prems by (simp add: word_xor_ones_zero_iff)
  have IH: "maskchk_words m (idx + 1) n =
      Inr (mask_all m (32 * (idx + 1) + 32) (32 * (idx + 1 + Suc n)))"
    using Suc.IH [of "idx + 1"] Suc.prems by (simp add: algebra_simps)
  have "mask_all m (32 * (idx + 1)) (32 * (idx + 1 + Suc n)) \<longleftrightarrow>
      mask_all m (32 * (idx + 1)) (32 * (idx + 1) + 32) \<and>
      mask_all m (32 * (idx + 1) + 32) (32 * (idx + 1 + Suc n))"
    by (rule mask_all_split) auto
  note split = this
  have "maskchk_words m idx (Suc n) =
      (if m ! (idx + 1) XOR 0xffffffff \<noteq> 0 then Inr False else maskchk_words m (idx + 1) n)"
    unfolding maskchk_words.simps mask_get_def using Suc.prems by (simp only: add_Suc_right) simp
  then show ?case unfolding word IH split by presburger
qed

section \<open>What the routines compute\<close>

lemma mask_or_bits:
  assumes "j < length m" "b \<le> 32" "\<And>k. bit x k \<longleftrightarrow> a \<le> k \<and> k < b"
  shows "mask_bit (m[j := m ! j OR x]) i \<longleftrightarrow> mask_bit m i \<or> 32 * j + a \<le> i \<and> i < 32 * j + b"
proof (cases "i div 32 = j")
  case True
  have i: "i = 32 * j + i mod 32" using True by (metis mult_div_mod_eq)
  have "mask_bit (m[j := m ! j OR x]) i \<longleftrightarrow> bit (m ! j) (i mod 32) \<or> bit x (i mod 32)"
    using True assms(1) by (simp add: mask_bit_update bit_or_iff)
  also have "\<dots> \<longleftrightarrow> mask_bit m i \<or> a \<le> i mod 32 \<and> i mod 32 < b"
    using True assms by (simp add: mask_bit_def)
  also have "\<dots> \<longleftrightarrow> mask_bit m i \<or> 32 * j + a \<le> i \<and> i < 32 * j + b"
    using i by linarith
  finally show ?thesis .
next
  case False
  then have "\<not> (32 * j + a \<le> i \<and> i < 32 * j + b)"
    using assms(2) unfolding div32_eq by linarith
  moreover have "mask_bit (m[j := m ! j OR x]) i = mask_bit m i"
    using False assms(1) by (simp add: mask_bit_update)
  ultimately show ?thesis by blast
qed

text \<open>How a bit range falls into a first word, whole words and a last word.\<close>

lemma range_parts:
  fixes off len :: nat
  assumes so_def: "so = off div 32" and sb_def: "sb = off mod 32"
    and bl_def: "bl = (if len > 32 - sb then 32 - sb else len)"
    and q_def: "q = (len - bl) div 32" and r_def: "r = (len - bl) mod 32"
    and len: "0 < len" and fits: "off + len \<le> 32 * n"
  shows "sb + bl \<le> 32" "0 < bl" "bl \<le> 32" "so + q < n" "off = 32 * so + sb"
    "len - bl - 32 * (so + q - so) = r"
    "r \<noteq> 0 \<Longrightarrow> so + q + 1 < n"
    "0 < len - bl \<Longrightarrow> off + bl = 32 * (so + 1)"
    "off + len = off + bl + 32 * q + r"
proof -
  have sb: "sb < 32" by (simp add: sb_def)
  show 1: "sb + bl \<le> 32" and 2: "0 < bl" and "bl \<le> 32"
    using sb len by (auto simp: bl_def)
  show 3: "off = 32 * so + sb" by (simp add: so_def sb_def)
  show 4: "len - bl - 32 * (so + q - so) = r"
    by (simp add: q_def r_def minus_mult_div_eq_mod)
  have le: "bl \<le> len" by (simp add: bl_def)
  have e: "len - bl = 32 * q + r" by (simp add: q_def r_def)
  then show 5: "off + len = off + bl + 32 * q + r" using le by linarith
  show 6: "0 < len - bl \<Longrightarrow> off + bl = 32 * (so + 1)"
    using sb 3 by (auto simp: bl_def split: if_splits)
  show "so + q < n"
  proof (cases "0 < len - bl")
    case True
    then have "32 * (so + 1) + 32 * q + r \<le> 32 * n" using 5 6 fits by linarith
    then show ?thesis by simp
  next
    case False
    then have "q = 0" by (simp add: q_def)
    moreover have "32 * so < 32 * n" using 3 fits len by linarith
    ultimately show ?thesis by simp
  qed
  show "so + q + 1 < n" if "r \<noteq> 0"
  proof -
    have "0 < len - bl" using that by (metis gr0I mod_0 r_def)
    then have "32 * (so + 1) + 32 * q + r \<le> 32 * n" using 5 6 fits by linarith
    then show ?thesis using that by simp
  qed
qed

lemma maskset_bits:
  assumes "0 < len" "off + len \<le> 32 * length m"
  shows "\<exists>m'. maskset m sz off len = Inr m' \<and> length m' = length m \<and>
           (\<forall>i. mask_bit m' i \<longleftrightarrow> mask_bit m i \<or> off \<le> i \<and> i < off + len)"
proof -
  define so sb where "so = off div 32" and "sb = off mod 32"
  define bl where "bl = (if len > 32 - sb then 32 - sb else len)"
  define q r where "q = (len - bl) div 32" and "r = (len - bl) mod 32"
  note defs = so_def sb_def bl_def q_def r_def
  note parts = range_parts [OF defs assms]
  obtain w where w: "ones_shr (32 - bl) = Inr w" using ones_shr_ok parts(2) by force
  define m1 where "m1 = m[so := m ! so OR push_bit sb w]"
  have so: "so < length m" using parts(4) by simp
  have bw: "bit (push_bit sb w) k \<longleftrightarrow> sb \<le> k \<and> k < sb + bl" for k
    using bit_ones_shr [OF w, of "k - sb"] parts(1,3) by (auto simp: bit_push_bit_iff)
  have b1: "mask_bit m1 i \<longleftrightarrow> mask_bit m i \<or> off \<le> i \<and> i < off + bl" for i
    using mask_or_bits [OF so parts(1) bw, of i] parts(5) by (simp add: m1_def add.assoc)
  obtain m2 where m2: "maskset_words m1 so q = Inr m2" "length m2 = length m"
    and b2: "\<And>i. mask_bit m2 i \<longleftrightarrow> mask_bit m1 i \<or> 32 * (so + 1) \<le> i \<and> i < 32 * (so + 1 + q)"
    using maskset_words_bits [of so q m1] parts(4) by (auto simp: m1_def)
  have run: "maskset m sz off len =
      (if r = 0 then Inr m2
       else bindr (mask_get m2 (so + q + 1)) (\<lambda>w. bindr (ones_shr (32 - r)) (\<lambda>ones.
              mask_put m2 (so + q + 1) (w OR ones))))"
    unfolding maskset_def Let_def defs(1,2) [symmetric] bl_def [symmetric] q_def [symmetric] parts(6)
    using so w m2(1) by (simp add: mask_get_def mask_put_def m1_def [symmetric])
  show ?thesis
  proof (cases "r = 0")
    case True
    have "off \<le> i \<and> i < off + bl \<or> 32 * (so + 1) \<le> i \<and> i < 32 * (so + 1 + q) \<longleftrightarrow>
        off \<le> i \<and> i < off + len" for i
      using True parts(5,8,9) by (cases "0 < len - bl") (auto simp: q_def)
    then show ?thesis using True run m2(2) b1 b2 by auto
  next
    case False
    obtain x where x: "ones_shr (32 - r) = Inr x" using ones_shr_ok False by force
    have r: "r \<le> 32" by (simp add: r_def less_imp_le)
    have bx: "bit x k \<longleftrightarrow> 0 \<le> k \<and> k < r" for k
      using bit_ones_shr [OF x, of k] r by simp
    define m3 where "m3 = m2[so + q + 1 := m2 ! (so + q + 1) OR x]"
    have l: "so + q + 1 < length m2" using parts(7) False m2(2) by simp
    have b3: "mask_bit m3 i \<longleftrightarrow>
        mask_bit m2 i \<or> 32 * (so + q + 1) \<le> i \<and> i < 32 * (so + q + 1) + r" for i
      using mask_or_bits [OF l r bx, of i] by (simp add: m3_def)
    have pos: "off + bl = 32 * (so + 1)" using parts(8) False by (auto simp: r_def)
    have "off \<le> i \<and> i < off + bl \<or> 32 * (so + 1) \<le> i \<and> i < 32 * (so + 1 + q) \<or>
        32 * (so + q + 1) \<le> i \<and> i < 32 * (so + q + 1) + r \<longleftrightarrow> off \<le> i \<and> i < off + len" for i
      using pos parts(9) by auto
    moreover have "maskset m sz off len = Inr m3"
      using False run l x by (simp add: mask_get_def mask_put_def m3_def)
    ultimately show ?thesis using m2(2) b1 b2 b3 by (auto simp: m3_def)
  qed
qed

lemma mask_all_shifted:
  assumes "j < length m" "a + n \<le> 32" "\<And>k. bit x k \<longleftrightarrow> a \<le> k \<and> k < a + n"
  shows "(m ! j AND x) XOR x = 0 \<longleftrightarrow> mask_all m (32 * j + a) (32 * j + a + n)"
  using mask_all_word [OF assms(1,2), of a] assms(3)
  by (simp add: word_and_xor_zero_iff add.assoc)

lemma maskchk_all:
  assumes "0 < len" "off + len \<le> 32 * length m"
  shows "maskchk m sz off len = Inr (mask_all m off (off + len))"
proof -
  define so sb where "so = off div 32" and "sb = off mod 32"
  define bl where "bl = (if len > 32 - sb then 32 - sb else len)"
  define q r where "q = (len - bl) div 32" and "r = (len - bl) mod 32"
  note defs = so_def sb_def bl_def q_def r_def
  note parts = range_parts [OF defs assms]
  obtain w where w: "ones_shr (32 - bl) = Inr w" using ones_shr_ok parts(2) by force
  have so: "so < length m" using parts(4) by simp
  have bw: "bit (push_bit sb w) k \<longleftrightarrow> sb \<le> k \<and> k < sb + bl" for k
    using bit_ones_shr [OF w, of "k - sb"] parts(1,3) by (auto simp: bit_push_bit_iff)
  have first: "(m ! so AND push_bit sb w) XOR push_bit sb w = 0 \<longleftrightarrow> mask_all m off (off + bl)"
    using mask_all_shifted [OF so parts(1) bw] parts(5) by simp
  have words: "maskchk_words m so q = Inr (mask_all m (32 * (so + 1)) (32 * (so + 1 + q)))"
    using parts(4) by (rule maskchk_words_all)
  have last: "(if r = 0 then Inr True
      else bindr (mask_get m (so + q + 1)) (\<lambda>w. bindr (ones_shr (32 - r)) (\<lambda>ones.
             Inr ((w AND ones) XOR ones = 0)))) =
      Inr (mask_all m (32 * (so + q + 1)) (32 * (so + q + 1) + r))"
  proof (cases "r = 0")
    case False
    obtain x where x: "ones_shr (32 - r) = Inr x" using ones_shr_ok False by force
    have r: "0 + r \<le> 32" by (simp add: r_def less_imp_le)
    have bx: "bit x k \<longleftrightarrow> 0 \<le> k \<and> k < 0 + r" for k
      using bit_ones_shr [OF x, of k] r by simp
    have l: "so + q + 1 < length m" using parts(7) False by simp
    show ?thesis
      using mask_all_shifted [OF l r bx] False x l by (simp add: mask_get_def)
  qed (simp add: mask_all_def)
  have run: "maskchk m sz off len =
      Inr (mask_all m off (off + bl) \<and> mask_all m (32 * (so + 1)) (32 * (so + 1 + q)) \<and>
           mask_all m (32 * (so + q + 1)) (32 * (so + q + 1) + r))"
    unfolding maskchk_def Let_def defs(1,2) [symmetric] bl_def [symmetric] q_def [symmetric] parts(6)
    using so w words last by (simp add: mask_get_def first)
  have "mask_all m off (off + len) \<longleftrightarrow>
      mask_all m off (off + bl) \<and> mask_all m (32 * (so + 1)) (32 * (so + 1 + q)) \<and>
      mask_all m (32 * (so + q + 1)) (32 * (so + q + 1) + r)"
  proof (cases "0 < len - bl")
    case True
    have e: "off + bl = 32 * (so + 1)" using parts(8) [OF True] .
    have e2: "off + len = 32 * (so + q + 1) + r" using parts(9) e by simp
    have "mask_all m off (off + len) \<longleftrightarrow> mask_all m off (off + bl) \<and> mask_all m (off + bl) (off + len)"
      using True by (intro mask_all_split) auto
    also have "mask_all m (off + bl) (off + len) \<longleftrightarrow>
        mask_all m (32 * (so + 1)) (32 * (so + 1 + q)) \<and> mask_all m (32 * (so + 1 + q)) (off + len)"
      unfolding e e2 by (rule mask_all_split) auto
    finally show ?thesis unfolding e2 by (simp only: add.assoc add.commute [of 1 q])
  next
    case False
    then have "q = 0" "r = 0" "off + len = off + bl" using parts(9) by (auto simp: q_def r_def)
    then show ?thesis by (simp add: mask_all_def)
  qed
  with run show ?thesis by simp
qed

text \<open>
  Property C22: \<open>maskset\<close> sets exactly the bits of its range and keeps every other bit, for any
  offset and length inside the array (within a word, across words, over many whole words), and
  \<open>maskchk\<close> returns 1 exactly when every bit of its range is set.
\<close>

theorem maskset_maskchk_exact:
  assumes "0 < len" "off + len \<le> 32 * length m"
  shows "\<exists>m'. maskset m sz off len = Inr m' \<and> length m' = length m \<and>
           (\<forall>i. mask_bit m' i \<longleftrightarrow> mask_bit m i \<or> off \<le> i \<and> i < off + len) \<and>
           maskchk m' sz off len = Inr True \<and>
           maskchk m sz off len = Inr (\<forall>i \<in> {off..<off + len}. mask_bit m i)"
proof -
  obtain m' where m': "maskset m sz off len = Inr m'" "length m' = length m"
    "\<And>i. mask_bit m' i \<longleftrightarrow> mask_bit m i \<or> off \<le> i \<and> i < off + len"
    using maskset_bits [OF assms] by blast
  then have "mask_all m' off (off + len)" by (simp add: mask_all_def)
  then have "maskchk m' sz off len = Inr True" using maskchk_all [of len off m'] assms m'(2) by simp
  moreover have "maskchk m sz off len = Inr (\<forall>i \<in> {off..<off + len}. mask_bit m i)"
    using maskchk_all [OF assms] by (simp only: mask_all_def)
  ultimately show ?thesis using m' by blast
qed

theorem maskset_maskchk_exact_witness:
  "\<exists>m'. maskset [0, 0, 0, 0] 16 30 70 = Inr m' \<and> length m' = length [0, 0, 0, 0 :: u32] \<and>
        (\<forall>i. mask_bit m' i \<longleftrightarrow> mask_bit [0, 0, 0, 0] i \<or> 30 \<le> i \<and> i < 100) \<and>
        maskchk m' 16 30 70 = Inr True \<and> maskchk [0, 0, 0, 0] 16 30 70 = Inr False"
proof -
  have "\<not> mask_bit [0, 0, 0, 0] 30" by (simp add: mask_bit_def)
  then have e: "(\<forall>i \<in> {30..<30 + 70}. mask_bit [0, 0, 0, 0] i) = False"
    by (metis atLeastLessThan_iff le_refl less_add_same_cancel1 zero_less_numeral)
  show ?thesis
    using maskset_maskchk_exact [of 70 30 "[0, 0, 0, 0]" 16, unfolded e] by simp
qed

text \<open>An empty range is a shift by 32, which C leaves undefined.\<close>

lemma maskset_empty_faults: "off < 32 * length m \<Longrightarrow> maskset m sz off 0 = Inl ShiftTooWide"
  by (simp add: maskset_def mask_get_def ones_shr_def Let_def less_mult_imp_div_less mult.commute)

lemma maskclr_bits: "maskclr m (length m) = Inr (replicate (length m) 0)"
  by (simp add: maskclr_def mem_simps)

lemma maskclr_overrun: "length m < sz \<Longrightarrow> maskclr m sz = Inl OutOfBounds"
  by (simp add: maskclr_def mem_simps)

lemma mask_bit_clear [simp]: "\<not> mask_bit (replicate n 0) i"
  by (simp add: mask_bit_def)

end
