(* ===== verification/Pqueue.thy ===== *)
theory Pqueue
  imports Prelude
begin

text \<open>
  The linked queue of \<open>util.c\<close> (\<open>queue_push\<close>, \<open>queue_pop\<close>), on an explicit heap:
  an address is a \<open>nat\<close>, \<open>None\<close> is the null pointer, and a cell that is not allocated is
  absent from the heap, so that following a dangling pointer faults. The result of \<open>malloc\<close>
  is an argument: \<open>None\<close>, or the address of a block that was free.
\<close>

record 'a queue_entry =
  qe_data :: 'a
  qe_size :: nat
  qe_next :: "nat option"

record queue_head =
  qh_next :: "nat option"
  qh_tail :: "nat option"
  qh_num :: u32

type_synonym 'a qheap = "nat \<rightharpoonup> 'a queue_entry"

definition queue_init :: queue_head where
  "queue_init = \<lparr>qh_next = None, qh_tail = None, qh_num = 0\<rparr>"

text \<open>\<open>queue->tail->next = entry\<close>.\<close>

definition set_next :: "'a qheap \<Rightarrow> nat \<Rightarrow> nat option \<Rightarrow> 'a qheap res" where
  "set_next h t p =
     (case h t of None \<Rightarrow> Inl UseAfterFree | Some c \<Rightarrow> Inr (h(t \<mapsto> c\<lparr>qe_next := p\<rparr>)))"

definition queue_push ::
  "'a qheap \<Rightarrow> queue_head option \<Rightarrow> 'a option \<Rightarrow> nat \<Rightarrow> nat option
     \<Rightarrow> (int \<times> 'a qheap \<times> queue_head option) res" where
  "queue_push h queue data sz malloc =
     (case (queue, data) of
        (Some q, Some d) \<Rightarrow>
          (case malloc of
             None \<Rightarrow> Inr (-1, h, queue)
           | Some entry \<Rightarrow>
               let h = h(entry \<mapsto> \<lparr>qe_data = d, qe_size = sz, qe_next = None\<rparr>)
               in bindr (case qh_tail q of
                           None \<Rightarrow> Inr h
                         | Some t \<Rightarrow> set_next h t (Some entry)) (\<lambda>h.
                    let q = q\<lparr>qh_tail := Some entry\<rparr>;
                        q = (if qh_next q = None then q\<lparr>qh_next := Some entry\<rparr> else q)
                    in Inr (0, h, Some (q\<lparr>qh_num := qh_num q + 1\<rparr>))))
      | _ \<Rightarrow> Inr (-1, h, queue))"

text \<open>The popped data and size are the values stored through the two out parameters.\<close>

definition queue_pop ::
  "'a qheap \<Rightarrow> queue_head option
     \<Rightarrow> (int \<times> ('a \<times> nat) option \<times> 'a qheap \<times> queue_head option) res" where
  "queue_pop h queue =
     (case queue of
        None \<Rightarrow> Inr (-1, None, h, queue)
      | Some q \<Rightarrow>
          (case qh_next q of
             None \<Rightarrow> Inr (-1, None, h, queue)
           | Some entry \<Rightarrow>
               (case h entry of
                  None \<Rightarrow> Inl UseAfterFree
                | Some c \<Rightarrow>
                    let q = q\<lparr>qh_next := qe_next c\<rparr>;
                        q = (if qh_next q = None then q\<lparr>qh_tail := None\<rparr> else q);
                        q = q\<lparr>qh_num := qh_num q - 1\<rparr>
                    in Inr (0, Some (qe_data c, qe_size c), h(entry := None), Some q))))"

section \<open>Abstraction to a list\<close>

text \<open>\<open>q_chain h p as\<close>: following \<open>next\<close> from \<open>p\<close> visits \<open>as\<close> and ends in null.\<close>

fun q_chain :: "'a qheap \<Rightarrow> nat option \<Rightarrow> nat list \<Rightarrow> bool" where
  "q_chain h p [] \<longleftrightarrow> p = None"
| "q_chain h p (a # as) \<longleftrightarrow>
     p = Some a \<and> (case h a of None \<Rightarrow> False | Some c \<Rightarrow> q_chain h (qe_next c) as)"

definition q_cells :: "'a qheap \<Rightarrow> nat list \<Rightarrow> ('a \<times> nat) list" where
  "q_cells h as = map (\<lambda>a. (qe_data (the (h a)), qe_size (the (h a)))) as"

definition queue_wf :: "'a qheap \<Rightarrow> queue_head \<Rightarrow> nat list \<Rightarrow> bool" where
  "queue_wf h q as \<longleftrightarrow>
     q_chain h (qh_next q) as \<and> distinct as \<and>
     qh_tail q = (if as = [] then None else Some (last as)) \<and>
     qh_num q = of_nat (length as)"

definition queue_repr :: "'a qheap \<times> queue_head \<Rightarrow> ('a \<times> nat) list \<Rightarrow> bool" where
  "queue_repr s xs \<longleftrightarrow> (\<exists>as. queue_wf (fst s) (snd s) as \<and> xs = q_cells (fst s) as)"

lemma q_chain_alloc: "q_chain h p as \<Longrightarrow> a \<in> set as \<Longrightarrow> h a \<noteq> None"
  by (induction as arbitrary: p) (auto split: option.splits)

lemma q_chain_upd: "a \<notin> set as \<Longrightarrow> q_chain (h(a := c)) p as = q_chain h p as"
  by (induction as arbitrary: p) (auto split: option.splits)

lemma q_cells_upd: "a \<notin> set as \<Longrightarrow> q_cells (h(a := c)) as = q_cells h as"
  by (auto simp: q_cells_def)

lemma q_chain_snoc:
  assumes "q_chain h p as" "distinct as" "as \<noteq> []" "b \<notin> set as" "h (last as) = Some c"
    and "qe_next d = None"
  shows "q_chain (h(b \<mapsto> d, last as \<mapsto> c\<lparr>qe_next := Some b\<rparr>)) p (as @ [b])"
  using assms
proof (induction as arbitrary: p)
  case (Cons a as)
  show ?case
  proof (cases "as = []")
    case True
    with Cons.prems show ?thesis by auto
  next
    case False
    then have "last as \<noteq> a" using Cons.prems(2) last_in_set by fastforce
    with False Cons show ?thesis by (auto split: option.splits)
  qed
qed simp

lemma q_cells_snoc:
  assumes "distinct as" "as \<noteq> []" "b \<notin> set as" "h (last as) = Some c"
  shows "q_cells (h(b \<mapsto> \<lparr>qe_data = x, qe_size = n, qe_next = None\<rparr>,
            last as \<mapsto> c\<lparr>qe_next := Some b\<rparr>)) (as @ [b]) = q_cells h as @ [(x, n)]"
proof -
  have "last as \<noteq> b" using assms(2,3) by (metis last_in_set)
  then show ?thesis using assms(3,4) by (auto simp: q_cells_def)
qed

lemma queue_push_repr:
  assumes wf: "queue_wf h q as" and fresh: "h b = None"
  shows "\<exists>h' q'. queue_push h (Some q) (Some x) n (Some b) = Inr (0, h', Some q') \<and>
           queue_wf h' q' (as @ [b]) \<and> q_cells h' (as @ [b]) = q_cells h as @ [(x, n)]"
proof -
  have nb: "b \<notin> set as" using wf fresh q_chain_alloc by (fastforce simp: queue_wf_def)
  show ?thesis
  proof (cases "as = []")
    case True
    with wf have "qh_next q = None" "qh_tail q = None" "qh_num q = 0" by (auto simp: queue_wf_def)
    then show ?thesis using True
      by (simp add: queue_push_def queue_wf_def q_cells_def Let_def)
  next
    case False
    with wf obtain c where c: "h (last as) = Some c"
      using q_chain_alloc [of h "qh_next q" as "last as"] by (auto simp: queue_wf_def)
    have ne: "last as \<noteq> b" using False nb by (metis last_in_set)
    from wf False have t: "qh_tail q = Some (last as)" "qh_next q \<noteq> None"
      by (auto simp: queue_wf_def neq_Nil_conv)
    show ?thesis
      using wf False c t ne nb
      by (auto simp: queue_push_def Let_def set_next_def queue_wf_def q_chain_snoc q_cells_snoc
          add.commute)
  qed
qed

lemma queue_pop_repr_Nil:
  "queue_wf h q [] \<Longrightarrow> queue_pop h (Some q) = Inr (-1, None, h, Some q)"
  by (simp add: queue_pop_def queue_wf_def)

lemma queue_pop_repr_Cons:
  assumes wf: "queue_wf h q (a # as)"
  shows "\<exists>h' q'. queue_pop h (Some q) = Inr (0, Some (hd (q_cells h (a # as))), h', Some q') \<and>
           queue_wf h' q' as \<and> q_cells h' as = tl (q_cells h (a # as))"
proof -
  from wf obtain c where c: "h a = Some c" "q_chain h (qe_next c) as"
    by (auto simp: queue_wf_def split: option.splits)
  have "qe_next c = None \<longleftrightarrow> as = []" using c(2) by (cases as) auto
  then show ?thesis
    using wf c
    by (auto simp: queue_pop_def queue_wf_def Let_def q_chain_upd q_cells_upd q_cells_def)
qed

section \<open>The queue interface\<close>

text \<open>
  What a client of the queue may do, and what it sees. A push carries the allocator's choice for
  its cell.
\<close>

datatype ('c, 'x) qop = Push 'c 'x | Pop

datatype 'x qout = Pushed | PushFailed | Popped 'x | Empty

fun qrun ::
  "('c \<Rightarrow> 's \<Rightarrow> 'x \<Rightarrow> (bool \<times> 's) res) \<Rightarrow> ('s \<Rightarrow> ('x option \<times> 's) res) \<Rightarrow>
     ('c, 'x) qop list \<Rightarrow> 's \<Rightarrow> ('x qout list \<times> 's) res" where
  "qrun push pop [] s = Inr ([], s)"
| "qrun push pop (Push c x # ops) s =
     bindr (push c s x) (\<lambda>(ok, s). bindr (qrun push pop ops s) (\<lambda>(outs, s).
       Inr ((if ok then Pushed else PushFailed) # outs, s)))"
| "qrun push pop (Pop # ops) s =
     bindr (pop s) (\<lambda>(r, s). bindr (qrun push pop ops s) (\<lambda>(outs, s).
       Inr ((case r of None \<Rightarrow> Empty | Some x \<Rightarrow> Popped x) # outs, s)))"

text \<open>
  First in, first out: \<open>fifo_trace xs ops outs ys\<close> holds when the outcomes are those of a list
  that starts as \<open>xs\<close> and ends as \<open>ys\<close>.
\<close>

fun fifo_trace :: "'x list \<Rightarrow> ('c, 'x) qop list \<Rightarrow> 'x qout list \<Rightarrow> 'x list \<Rightarrow> bool" where
  "fifo_trace xs [] [] ys \<longleftrightarrow> xs = ys"
| "fifo_trace xs (Push c x # ops) (Pushed # outs) ys \<longleftrightarrow> fifo_trace (xs @ [x]) ops outs ys"
| "fifo_trace xs (Push c x # ops) (PushFailed # outs) ys \<longleftrightarrow> fifo_trace xs ops outs ys"
| "fifo_trace xs (Pop # ops) (Popped x # outs) ys \<longleftrightarrow>
     (case xs of [] \<Rightarrow> False | x' # xs' \<Rightarrow> x = x' \<and> fifo_trace xs' ops outs ys)"
| "fifo_trace xs (Pop # ops) (Empty # outs) ys \<longleftrightarrow> xs = [] \<and> fifo_trace xs ops outs ys"
| "fifo_trace xs ops outs ys \<longleftrightarrow> False"

locale fifo =
  fixes repr :: "'s \<Rightarrow> 'x list \<Rightarrow> bool"
    and push :: "'c \<Rightarrow> 's \<Rightarrow> 'x \<Rightarrow> (bool \<times> 's) res"
    and pop :: "'s \<Rightarrow> ('x option \<times> 's) res"
  assumes push_law:
      "repr s xs \<Longrightarrow> \<exists>ok s'. push c s x = Inr (ok, s') \<and> repr s' (if ok then xs @ [x] else xs)"
    and pop_nil_law: "repr s [] \<Longrightarrow> \<exists>s'. pop s = Inr (None, s') \<and> repr s' []"
    and pop_cons_law: "repr s (x # xs) \<Longrightarrow> \<exists>s'. pop s = Inr (Some x, s') \<and> repr s' xs"
begin

lemma run_is_fifo:
  "repr s xs \<Longrightarrow> \<exists>outs s' ys. qrun push pop ops s = Inr (outs, s') \<and> repr s' ys \<and>
     fifo_trace xs ops outs ys"
proof (induction ops arbitrary: s xs)
  case Nil
  then show ?case by auto
next
  case (Cons op ops)
  show ?case
  proof (cases op)
    case (Push c x)
    obtain ok s1 where s1: "push c s x = Inr (ok, s1)" "repr s1 (if ok then xs @ [x] else xs)"
      using push_law [OF Cons.prems] by blast
    with Cons.IH [OF s1(2)] Push show ?thesis by (cases ok) fastforce+
  next
    case Pop
    show ?thesis
    proof (cases xs)
      case Nil
      then obtain s1 where s1: "pop s = Inr (None, s1)" "repr s1 []"
        using pop_nil_law Cons.prems by blast
      with Cons.IH [OF s1(2)] Pop Nil show ?thesis by fastforce
    next
      case (Cons y ys)
      then obtain s1 where s1: "pop s = Inr (Some y, s1)" "repr s1 ys"
        using pop_cons_law Cons.prems by blast
      with Cons.IH [OF s1(2)] Pop Cons show ?thesis by fastforce
    qed
  qed
qed

end

text \<open>
  A correct \<open>malloc\<close> returns null or a block that is not in use; every such result is
  \<open>malloc_at\<close> for some choice.
\<close>

definition malloc_at :: "'a qheap \<Rightarrow> nat option \<Rightarrow> nat option" where
  "malloc_at h c = (case c of None \<Rightarrow> None | Some a \<Rightarrow> if h a = None then Some a else None)"

definition push_op ::
  "nat option \<Rightarrow> 'a qheap \<times> queue_head \<Rightarrow> 'a \<times> nat \<Rightarrow> (bool \<times> 'a qheap \<times> queue_head) res" where
  "push_op c s x =
     bindr (queue_push (fst s) (Some (snd s)) (Some (fst x)) (snd x) (malloc_at (fst s) c))
       (\<lambda>(ret, h, q). Inr (ret = 0, h, the q))"

definition pop_op :: "'a qheap \<times> queue_head \<Rightarrow> (('a \<times> nat) option \<times> 'a qheap \<times> queue_head) res" where
  "pop_op s =
     bindr (queue_pop (fst s) (Some (snd s))) (\<lambda>(ret, x, h, q). Inr (if ret = 0 then x else None, h, the q))"

interpretation pq: fifo queue_repr push_op pop_op
proof unfold_locales
  fix s :: "'a qheap \<times> queue_head" and xs c x
  assume "queue_repr s xs"
  then obtain as where as: "queue_wf (fst s) (snd s) as" "xs = q_cells (fst s) as"
    by (auto simp: queue_repr_def)
  show "\<exists>ok s'. push_op c s x = Inr (ok, s') \<and> queue_repr s' (if ok then xs @ [x] else xs)"
  proof (cases "malloc_at (fst s) c")
    case None
    then show ?thesis using as
      by (auto simp: push_op_def queue_push_def queue_repr_def)
  next
    case (Some b)
    then have "fst s b = None" by (auto simp: malloc_at_def split: option.splits if_splits)
    then obtain h' q' where
      "queue_push (fst s) (Some (snd s)) (Some (fst x)) (snd x) (Some b) = Inr (0, h', Some q')"
      "queue_wf h' q' (as @ [b])" "q_cells h' (as @ [b]) = xs @ [x]"
      using queue_push_repr [OF as(1), of b "fst x" "snd x"] as(2) by auto
    then show ?thesis using Some by (auto simp: push_op_def queue_repr_def intro!: exI)
  qed
next
  fix s :: "'a qheap \<times> queue_head"
  assume r: "queue_repr s []"
  then have "queue_wf (fst s) (snd s) []" by (auto simp: queue_repr_def q_cells_def)
  then show "\<exists>s'. pop_op s = Inr (None, s') \<and> queue_repr s' []"
    using queue_pop_repr_Nil [of "fst s" "snd s"] r by (cases s) (simp add: pop_op_def)
next
  fix s :: "'a qheap \<times> queue_head" and x xs
  assume "queue_repr s (x # xs)"
  then obtain a as where wf: "queue_wf (fst s) (snd s) (a # as)"
    and cells: "q_cells (fst s) (a # as) = x # xs"
    by (auto simp: queue_repr_def q_cells_def)
  show "\<exists>s'. pop_op s = Inr (Some x, s') \<and> queue_repr s' xs"
    using queue_pop_repr_Cons [OF wf] unfolding cells
    by (auto simp: pop_op_def queue_repr_def)
qed

lemma queue_repr_init: "queue_repr (Map.empty, queue_init) []"
  by (auto simp: queue_repr_def queue_wf_def queue_init_def q_cells_def intro!: exI [of _ "[]"])

text \<open>
  Property C23: from an empty queue, any sequence of pushes (with any behaviour of \<open>malloc\<close>,
  failures included) and pops runs without following a dangling pointer, and what the pops return
  is first in, first out; the final heap again represents the list of what is left.
\<close>

theorem queue_refines_fifo:
  "\<exists>outs s ys. qrun push_op pop_op ops (Map.empty, queue_init) = Inr (outs, s) \<and>
     queue_repr s ys \<and> fifo_trace [] ops outs ys"
  by (rule pq.run_is_fifo) (rule queue_repr_init)

end
