(* ===== verification/Cstring.thy ===== *)
theory Cstring
  imports Prelude
begin

text \<open>
  The part of the C library's string handling that the address parsers and printers use:
  \<open>strtol\<close>, and \<open>snprintf\<close> with \<open>%d\<close> and \<open>%02x\<close> on bytes. A C string is the list of its
  characters before the terminating zero; a pointer into it is the suffix it points to.
\<close>

section \<open>strtol\<close>

definition isspace :: "char \<Rightarrow> bool" where
  "isspace c = (of_char c \<in> {9, 10, 11, 12, 13, 32 :: nat})"

definition digit_val :: "char \<Rightarrow> nat option" where
  "digit_val c =
     (let n = of_char c in
      if 48 \<le> n \<and> n \<le> 57 then Some (n - 48)
      else if 97 \<le> n \<and> n \<le> 122 then Some (n - 87)
      else if 65 \<le> n \<and> n \<le> 90 then Some (n - 55)
      else None)"

definition digit_in :: "nat \<Rightarrow> char \<Rightarrow> nat option" where
  "digit_in base c = (case digit_val c of None \<Rightarrow> None | Some d \<Rightarrow> if d < base then Some d else None)"

fun strtol_digits :: "nat \<Rightarrow> nat \<Rightarrow> string \<Rightarrow> nat \<times> string" where
  "strtol_digits base acc [] = (acc, [])"
| "strtol_digits base acc (c # cs) =
     (case digit_in base c of
        None \<Rightarrow> (acc, c # cs)
      | Some d \<Rightarrow> strtol_digits base (acc * base + d) cs)"

definition starts_digit :: "nat \<Rightarrow> string \<Rightarrow> bool" where
  "starts_digit base cs = (case cs of [] \<Rightarrow> False | c # _ \<Rightarrow> digit_in base c \<noteq> None)"

definition skip_sign :: "string \<Rightarrow> bool \<times> string" where
  "skip_sign cs =
     (case cs of
        c # q \<Rightarrow> if c = CHR ''-'' then (True, q) else if c = CHR ''+'' then (False, q) else (False, cs)
      | [] \<Rightarrow> (False, cs))"

definition skip_0x :: "nat \<Rightarrow> string \<Rightarrow> string" where
  "skip_0x base cs =
     (case cs of
        c # x # q \<Rightarrow>
          if base = 16 \<and> c = CHR ''0'' \<and> (x = CHR ''x'' \<or> x = CHR ''X'') \<and> starts_digit 16 q
          then q else cs
      | _ \<Rightarrow> cs)"

text \<open>
  The value and the end pointer: white space, a sign, for base 16 an optional \<open>0x\<close>, then the
  digits; without a digit the value is 0 and the end pointer the start. \<open>long\<close> saturates.
\<close>

definition strtol :: "nat \<Rightarrow> string \<Rightarrow> int \<times> string" where
  "strtol base p =
     (let (neg, q) = skip_sign (dropWhile isspace p);
          q = skip_0x base q
      in if starts_digit base q
         then let (v, ep) = strtol_digits base 0 q
              in (if neg then max (- (2 ^ 63)) (- int v) else min (2 ^ 63 - 1) (int v), ep)
         else (0, p))"

section \<open>snprintf\<close>

definition digit_char :: "nat \<Rightarrow> char" where
  "digit_char d = ''0123456789abcdef'' ! d"

fun fmt_d :: "nat \<Rightarrow> string" where
  "fmt_d n = (if n < 10 then [digit_char n] else fmt_d (n div 10) @ [digit_char (n mod 10)])"

declare fmt_d.simps [simp del]

definition fmt_02x :: "u8 \<Rightarrow> string" where
  "fmt_02x b = [digit_char (unat b div 16), digit_char (unat b mod 16)]"

text \<open>What \<open>snprintf\<close> leaves in a buffer of \<open>sz\<close> bytes: the text cut to \<open>sz - 1\<close>.\<close>

definition snprintf :: "nat \<Rightarrow> string \<Rightarrow> string" where
  "snprintf sz txt = take (sz - 1) txt"

section \<open>Round trips\<close>

lemma digit_chars:
  "list_all (\<lambda>d. digit_val (digit_char d) = Some d \<and> \<not> isspace (digit_char d) \<and>
     digit_char d \<noteq> CHR ''-'' \<and> digit_char d \<noteq> CHR ''+'' \<and>
     digit_char d \<noteq> CHR ''x'' \<and> digit_char d \<noteq> CHR ''X'') [0..<16]"
  by code_simp

lemma digit_val_char [simp]: "d < 16 \<Longrightarrow> digit_val (digit_char d) = Some d"
  using digit_chars by (simp add: list_all_iff del: upt_conv_Cons_Cons upt_rec_numeral)

lemma digit_in_char [simp]: "d < base \<Longrightarrow> base \<le> 16 \<Longrightarrow> digit_in base (digit_char d) = Some d"
  by (simp add: digit_in_def)

lemma digit_char_plain [simp]:
  "d < 16 \<Longrightarrow> \<not> isspace (digit_char d) \<and> digit_char d \<noteq> CHR ''-'' \<and> digit_char d \<noteq> CHR ''+'' \<and>
     digit_char d \<noteq> CHR ''x'' \<and> digit_char d \<noteq> CHR ''X''"
  using digit_chars by (simp add: list_all_iff del: upt_conv_Cons_Cons upt_rec_numeral)

lemma strtol_digits_stop: "\<not> starts_digit base r \<Longrightarrow> strtol_digits base acc r = (acc, r)"
  by (cases r) (auto simp: starts_digit_def)

lemma fmt_d_digits:
  "strtol_digits 10 0 (fmt_d n @ r) = strtol_digits 10 n r"
proof (induction n arbitrary: r rule: fmt_d.induct)
  case (1 n)
  show ?case
  proof (cases "n < 10")
    case True
    then show ?thesis by (simp add: fmt_d.simps [of n])
  next
    case False
    then show ?thesis using 1 [of "digit_char (n mod 10) # r"] by (simp add: fmt_d.simps [of n] ac_simps)
  qed
qed

lemma fmt_d_first: "\<exists>d cs. fmt_d n = digit_char d # cs \<and> d < 10"
proof (induction n rule: fmt_d.induct)
  case (1 n)
  then show ?case by (subst (1) fmt_d.simps, cases "n < 10") fastforce+
qed

lemma strtol_fmt_d:
  assumes "\<not> starts_digit 10 r" "n < 2 ^ 63"
  shows "strtol 10 (fmt_d n @ r) = (int n, r)"
proof -
  obtain d cs where f: "fmt_d n = digit_char d # cs" "d < 10" using fmt_d_first by blast
  then have c: "digit_in 10 (digit_char d) = Some d" "\<not> isspace (digit_char d)"
    "digit_char d \<noteq> CHR ''-''" "digit_char d \<noteq> CHR ''+''"
    using digit_char_plain [of d] by auto
  have q: "skip_sign (dropWhile isspace (fmt_d n @ r)) = (False, fmt_d n @ r)"
    "skip_0x 10 (fmt_d n @ r) = fmt_d n @ r" "starts_digit 10 (fmt_d n @ r)"
    using c by (auto simp: f skip_sign_def skip_0x_def starts_digit_def split: list.splits)
  have "strtol_digits 10 0 (fmt_d n @ r) = (n, r)"
    by (simp add: fmt_d_digits strtol_digits_stop assms(1))
  then show ?thesis using assms(2) by (simp add: strtol_def q)
qed

lemma strtol_fmt_02x:
  assumes "\<not> starts_digit 16 r"
  shows "strtol 16 (fmt_02x b @ r) = (int (unat b), r)"
proof -
  let ?h = "unat b div 16" and ?l = "unat b mod 16"
  have b: "?h < 16" "?l < 16" using unat_u8_less [of b] by auto
  then have c: "digit_in 16 (digit_char ?h) = Some ?h" "digit_in 16 (digit_char ?l) = Some ?l" by simp_all
  have q: "skip_sign (dropWhile isspace (fmt_02x b @ r)) = (False, fmt_02x b @ r)"
    "skip_0x 16 (fmt_02x b @ r) = fmt_02x b @ r" "starts_digit 16 (fmt_02x b @ r)"
    using digit_char_plain [OF b(1)] digit_char_plain [OF b(2)] c
    by (auto simp: fmt_02x_def skip_sign_def skip_0x_def starts_digit_def)
  have "strtol_digits 16 0 (fmt_02x b @ r) = strtol_digits 16 (unat b) r"
    using c by (simp add: fmt_02x_def)
  also have "\<dots> = (unat b, r)" by (rule strtol_digits_stop [OF assms])
  finally show ?thesis using unat_u8_less [of b] by (simp add: strtol_def q min_def del: of_nat_unat)
qed

lemma digit_val_sep: "digit_val (CHR '':'') = None \<and> digit_val (CHR ''.'') = None"
  by code_simp

lemma starts_digit_sep [simp]:
  "\<not> starts_digit base []" "\<not> starts_digit base (CHR '':'' # r)" "\<not> starts_digit base (CHR ''.'' # r)"
  by (simp_all add: starts_digit_def digit_in_def digit_val_sep)

end
