(* ===== verification/Wire.thy ===== *)
theory Wire
  imports Byteorder
begin

text \<open>
  The interface of the packet headers. The code overlays a C struct on a buffer; a header type of
  the model therefore has an encoder and a decoder that are inverse to each other on a fixed number
  of bytes. The lemmas of the locale are what the senders and receivers use of it.
\<close>

locale wire_format =
  fixes enc :: "'h \<Rightarrow> bytes" and dec :: "bytes \<Rightarrow> 'h" and hsize :: nat and wf :: "'h \<Rightarrow> bool"
  assumes length_enc: "wf h \<Longrightarrow> length (enc h) = hsize"
    and dec_enc: "wf h \<Longrightarrow> dec (enc h) = h"
    and enc_dec: "length bs = hsize \<Longrightarrow> enc (dec bs) = bs"
    and wf_dec: "hsize \<le> length bs \<Longrightarrow> wf (dec bs)"
    and dec_prefix: "hsize \<le> length bs \<Longrightarrow> dec (bs @ rest) = dec bs"
begin

lemma dec_enc_append: "wf h \<Longrightarrow> dec (enc h @ rest) = h"
  by (simp add: dec_prefix dec_enc length_enc)

lemma dec_take: "hsize \<le> length bs \<Longrightarrow> dec (take hsize bs) = dec bs"
  using dec_prefix [of "take hsize bs" "drop hsize bs"] by simp

lemma enc_dec_take: "hsize \<le> length bs \<Longrightarrow> enc (dec bs) = take hsize bs"
  using enc_dec [of "take hsize bs"] dec_take [of bs] by simp

lemma split_header: "hsize \<le> length bs \<Longrightarrow> enc (dec bs) @ drop hsize bs = bs"
  by (simp add: enc_dec_take)

lemma enc_inject: "wf h \<Longrightarrow> wf h' \<Longrightarrow> enc h = enc h' \<longleftrightarrow> h = h'"
  by (metis dec_enc)

end

text \<open>A list of known length taken apart.\<close>

lemma length_Suc_conv_ex: "length xs = Suc n \<Longrightarrow> \<exists>y ys. xs = y # ys \<and> length ys = n"
  by (cases xs) auto

lemma take_drop_nth:
  "i < length xs \<Longrightarrow> take (Suc 0) (drop i xs) = [xs ! i]"
  by (simp add: take_Suc hd_drop_conv_nth)

end
