(* ===== verification/Raw.thy ===== *)
theory Raw
  imports Sys
begin

text \<open>
  The raw devices: \<open>raw.c\<close> (choice of a driver), \<open>raw/soc.c\<close> (packet socket) and
  \<open>raw/tap_linux.c\<close> (tap device). A driver's private structure holds its file descriptor
  only and is modelled by it. The table of function pointers \<open>struct rawdev_ops\<close> is the tag of
  its driver; \<open>raw_open\<close>, \<open>raw_close\<close>, \<open>raw_rx\<close>, \<open>raw_tx\<close> and \<open>raw_addr\<close> are the
  calls through it. Both drivers are compiled in, as the Makefile does on Linux.
\<close>

section \<open>Packet socket\<close>

definition soc_dev_close :: "int \<Rightarrow> 'a sys_scheme \<Rightarrow> 'a sys_scheme" where
  "soc_dev_close fd s = (if fd \<noteq> -1 then sys_close fd s else s)"

text \<open>The result of \<open>malloc\<close> is used unchecked.\<close>

definition soc_dev_open :: "os \<Rightarrow> 'a sys_scheme \<Rightarrow> (int option \<times> 'a sys_scheme) res" where
  "soc_dev_open os s =
     (let (dev, s) = sys_malloc os s in
      if dev = None then Inl NullDeref else
      let (fd, s) = sys_open os s in
      if fd = -1 then Inr (None, soc_dev_close fd s) else
      let (r, s) = sys_call os s in
      if r = -1 then Inr (None, soc_dev_close fd s) else
      let (r, s) = sys_call os s in
      if r = -1 then Inr (None, soc_dev_close fd s) else
      let (r, s) = sys_call os s in
      if r = -1 then Inr (None, soc_dev_close fd s) else
      let (r, s) = sys_call os s in
      if r = -1 then Inr (None, soc_dev_close fd s) else
      Inr (Some fd, s))"

text \<open>
  \<open>poll\<close>, then \<open>read\<close> into 2048 bytes; the callback runs when both have a positive result.
\<close>

definition soc_dev_rx ::
  "os \<Rightarrow> int \<Rightarrow> (bytes \<Rightarrow> 'a sys_scheme \<Rightarrow> 'a sys_scheme res) \<Rightarrow> 'a sys_scheme \<Rightarrow> 'a sys_scheme res" where
  "soc_dev_rx os fd callback s =
     (let (ret, s) = sys_call os s in
      if ret = -1 \<or> ret = 0 then Inr s else
      let (buf, s) = sys_read os 2048 s in
      (case buf of
         None \<Rightarrow> Inr s
       | Some [] \<Rightarrow> Inr s
       | Some b \<Rightarrow> callback b s))"

definition soc_dev_tx :: "os \<Rightarrow> int \<Rightarrow> bytes \<Rightarrow> 'a sys_scheme \<Rightarrow> int \<times> 'a sys_scheme" where
  "soc_dev_tx os fd buf s = sys_write os fd buf s"

definition soc_dev_addr ::
  "os \<Rightarrow> bytes \<Rightarrow> nat \<Rightarrow> 'a sys_scheme \<Rightarrow> (int \<times> bytes \<times> 'a sys_scheme) res" where
  "soc_dev_addr os dst sz s =
     (let (fd, s) = sys_open os s in
      if fd = -1 then Inr (-1, dst, s) else
      let (hw, s) = sys_hwaddr os s in
      (case hw of
         None \<Rightarrow> Inr (-1, dst, sys_close fd s)
       | Some h \<Rightarrow>
           bindr (mem_read h 0 sz) (\<lambda>h.
           bindr (mem_write dst 0 h) (\<lambda>dst. Inr (0, dst, sys_close fd s)))))"

section \<open>Tap device\<close>

definition tap_dev_close :: "int \<Rightarrow> 'a sys_scheme \<Rightarrow> 'a sys_scheme" where
  "tap_dev_close fd s = (if fd \<noteq> -1 then sys_close fd s else s)"

definition tap_dev_open :: "os \<Rightarrow> 'a sys_scheme \<Rightarrow> (int option \<times> 'a sys_scheme) res" where
  "tap_dev_open os s =
     (let (dev, s) = sys_malloc os s in
      if dev = None then Inr (None, s) else
      let (fd, s) = sys_open os s in
      if fd = -1 then Inr (None, tap_dev_close fd s) else
      let (r, s) = sys_call os s in
      if r = -1 then Inr (None, tap_dev_close fd s) else
      Inr (Some fd, s))"

definition tap_dev_rx ::
  "os \<Rightarrow> int \<Rightarrow> (bytes \<Rightarrow> 'a sys_scheme \<Rightarrow> 'a sys_scheme res) \<Rightarrow> 'a sys_scheme \<Rightarrow> 'a sys_scheme res" where
  "tap_dev_rx os fd callback s =
     (let (ret, s) = sys_call os s in
      if ret = -1 \<or> ret = 0 then Inr s else
      let (buf, s) = sys_read os 2048 s in
      (case buf of
         None \<Rightarrow> Inr s
       | Some [] \<Rightarrow> Inr s
       | Some b \<Rightarrow> callback b s))"

definition tap_dev_tx :: "os \<Rightarrow> int \<Rightarrow> bytes \<Rightarrow> 'a sys_scheme \<Rightarrow> int \<times> 'a sys_scheme" where
  "tap_dev_tx os fd buf s = sys_write os fd buf s"

definition tap_dev_addr ::
  "os \<Rightarrow> bytes \<Rightarrow> nat \<Rightarrow> 'a sys_scheme \<Rightarrow> (int \<times> bytes \<times> 'a sys_scheme) res" where
  "tap_dev_addr os dst sz s =
     (let (fd, s) = sys_open os s in
      if fd = -1 then Inr (-1, dst, s) else
      let (hw, s) = sys_hwaddr os s in
      (case hw of
         None \<Rightarrow> Inr (-1, dst, sys_close fd s)
       | Some h \<Rightarrow>
           bindr (mem_read h 0 sz) (\<lambda>h.
           bindr (mem_write dst 0 h) (\<lambda>dst. Inr (0, dst, sys_close fd s)))))"

section \<open>The raw device\<close>

datatype rawdev_ops = soc_dev_ops | tap_dev_ops

record rawdev =
  rd_type :: u8
  rd_name :: string
  rd_ops :: rawdev_ops
  rd_priv :: "int option"

abbreviation (input) RAWDEV_TYPE_AUTO :: u8 where "RAWDEV_TYPE_AUTO \<equiv> 0"
abbreviation (input) RAWDEV_TYPE_TAP :: u8 where "RAWDEV_TYPE_TAP \<equiv> 1"
abbreviation (input) RAWDEV_TYPE_SOCKET :: u8 where "RAWDEV_TYPE_SOCKET \<equiv> 2"

definition rawdev_detect_type :: "string \<Rightarrow> u8" where
  "rawdev_detect_type name = (if take 3 name = ''tap'' then RAWDEV_TYPE_TAP else RAWDEV_TYPE_SOCKET)"

definition rawdev_alloc ::
  "os \<Rightarrow> u8 \<Rightarrow> string \<Rightarrow> 'a sys_scheme \<Rightarrow> rawdev option \<times> 'a sys_scheme" where
  "rawdev_alloc os type name s =
     (let type = (if type = RAWDEV_TYPE_AUTO then rawdev_detect_type name else type);
          ops = (if type = RAWDEV_TYPE_TAP then Some tap_dev_ops
                 else if type = RAWDEV_TYPE_SOCKET then Some soc_dev_ops
                 else None)
      in case ops of
           None \<Rightarrow> (None, s)
         | Some ops \<Rightarrow>
             let (dev, s) = sys_malloc os s
             in (if dev = None then None
                 else Some \<lparr>rd_type = type, rd_name = name, rd_ops = ops, rd_priv = None\<rparr>, s))"

definition raw_open :: "os \<Rightarrow> rawdev \<Rightarrow> 'a sys_scheme \<Rightarrow> (int \<times> rawdev \<times> 'a sys_scheme) res" where
  "raw_open os dev s =
     bindr (case rd_ops dev of soc_dev_ops \<Rightarrow> soc_dev_open os s | tap_dev_ops \<Rightarrow> tap_dev_open os s)
       (\<lambda>(p, s). Inr (if p = None then -1 else 0, dev\<lparr>rd_priv := p\<rparr>, s))"

definition raw_close :: "rawdev \<Rightarrow> 'a sys_scheme \<Rightarrow> 'a sys_scheme res" where
  "raw_close dev s =
     (case rd_priv dev of
        None \<Rightarrow> Inl NullDeref
      | Some fd \<Rightarrow>
          Inr (case rd_ops dev of soc_dev_ops \<Rightarrow> soc_dev_close fd s | tap_dev_ops \<Rightarrow> tap_dev_close fd s))"

definition raw_rx ::
  "os \<Rightarrow> rawdev \<Rightarrow> (bytes \<Rightarrow> 'a sys_scheme \<Rightarrow> 'a sys_scheme res) \<Rightarrow> 'a sys_scheme \<Rightarrow> 'a sys_scheme res" where
  "raw_rx os dev callback s =
     (case rd_priv dev of
        None \<Rightarrow> Inl NullDeref
      | Some fd \<Rightarrow>
          (case rd_ops dev of
             soc_dev_ops \<Rightarrow> soc_dev_rx os fd callback s
           | tap_dev_ops \<Rightarrow> tap_dev_rx os fd callback s))"

definition raw_tx :: "os \<Rightarrow> rawdev \<Rightarrow> bytes \<Rightarrow> 'a sys_scheme \<Rightarrow> (int \<times> 'a sys_scheme) res" where
  "raw_tx os dev buf s =
     (case rd_priv dev of
        None \<Rightarrow> Inl NullDeref
      | Some fd \<Rightarrow>
          Inr (case rd_ops dev of
                 soc_dev_ops \<Rightarrow> soc_dev_tx os fd buf s
               | tap_dev_ops \<Rightarrow> tap_dev_tx os fd buf s))"

definition raw_addr ::
  "os \<Rightarrow> rawdev \<Rightarrow> bytes \<Rightarrow> nat \<Rightarrow> 'a sys_scheme \<Rightarrow> (int \<times> bytes \<times> 'a sys_scheme) res" where
  "raw_addr os dev dst sz s =
     (case rd_ops dev of soc_dev_ops \<Rightarrow> soc_dev_addr os dst sz s | tap_dev_ops \<Rightarrow> tap_dev_addr os dst sz s)"

section \<open>What a driver promises\<close>

text \<open>
  A call of the driver changes nothing of the state but the call counter and the descriptors; a
  failed open leaks none, and the receive call hands the callback between 1 and 2048 bytes.
\<close>

locale raw_driver =
  fixes opn :: "os \<Rightarrow> 'a sys_scheme \<Rightarrow> (int option \<times> 'a sys_scheme) res"
    and cls :: "int \<Rightarrow> 'a sys_scheme \<Rightarrow> 'a sys_scheme"
    and rx :: "os \<Rightarrow> int \<Rightarrow> (bytes \<Rightarrow> 'a sys_scheme \<Rightarrow> 'a sys_scheme res) \<Rightarrow> 'a sys_scheme \<Rightarrow>
                 'a sys_scheme res"
    and adr :: "os \<Rightarrow> bytes \<Rightarrow> nat \<Rightarrow> 'a sys_scheme \<Rightarrow> (int \<times> bytes \<times> 'a sys_scheme) res"
  assumes open_fail: "opn os s = Inr (None, s') \<Longrightarrow> \<exists>t. s' = s\<lparr>sys_tick := t\<rparr>"
    and open_ok: "opn os s = Inr (Some fd, s') \<Longrightarrow>
          fd \<noteq> -1 \<and> (\<exists>t. s' = s\<lparr>sys_fds := fd # sys_fds s, sys_tick := t\<rparr>)"
    and close_fd: "fd \<noteq> -1 \<Longrightarrow> cls fd s = sys_close fd s"
    and rx_law: "\<exists>t. rx os fd cb s = Inr (s\<lparr>sys_tick := t\<rparr>) \<or>
          (\<exists>b. b \<noteq> [] \<and> length b \<le> 2048 \<and> rx os fd cb s = cb b (s\<lparr>sys_tick := t\<rparr>))"
    and adr_law: "adr os dst sz s = Inr (r, dst', s') \<Longrightarrow>
          length dst' = length dst \<and> (r = -1 \<longrightarrow> dst' = dst) \<and> (\<exists>t. s' = s\<lparr>sys_tick := t\<rparr>)"
begin

lemma open_close:
  assumes "opn os s = Inr (Some fd, s1)" "sys_fds s2 = sys_fds s1"
  shows "sys_fds (cls fd s2) = sys_fds s"
  using open_ok [OF assms(1)] assms(2) by (auto simp: close_fd sys_close_def)

end

lemmas driver_defs =
  soc_dev_open_def soc_dev_close_def soc_dev_rx_def soc_dev_addr_def
  tap_dev_open_def tap_dev_close_def tap_dev_rx_def tap_dev_addr_def

lemma read_cases:
  "\<exists>t. (case map_option (take 2048) r of None \<Rightarrow> Inr (s\<lparr>sys_tick := k\<rparr>) | Some [] \<Rightarrow> Inr (s\<lparr>sys_tick := k\<rparr>)
        | Some (x # xs) \<Rightarrow> cb (x # xs) (s\<lparr>sys_tick := k\<rparr>)) = Inr (s\<lparr>sys_tick := t\<rparr>) \<or>
       (\<exists>b. b \<noteq> [] \<and> length b \<le> 2048 \<and>
          (case map_option (take 2048) r of None \<Rightarrow> Inr (s\<lparr>sys_tick := k\<rparr>) | Some [] \<Rightarrow> Inr (s\<lparr>sys_tick := k\<rparr>)
           | Some (x # xs) \<Rightarrow> cb (x # xs) (s\<lparr>sys_tick := k\<rparr>)) = cb b (s\<lparr>sys_tick := t\<rparr>))"
proof (cases r)
  case (Some b)
  have "length (take 2048 b) \<le> 2048" by simp
  with Some show ?thesis by (cases "take 2048 b") (auto intro!: exI [of _ k])
qed auto

interpretation soc: raw_driver soc_dev_open soc_dev_close soc_dev_rx soc_dev_addr
proof unfold_locales
  fix os fd cb and s :: "'a sys_scheme"
  show "\<exists>t. soc_dev_rx os fd cb s = Inr (s\<lparr>sys_tick := t\<rparr>) \<or>
          (\<exists>b. b \<noteq> [] \<and> length b \<le> 2048 \<and> soc_dev_rx os fd cb s = cb b (s\<lparr>sys_tick := t\<rparr>))"
    using read_cases by (auto simp: soc_dev_rx_def sys_defs)
qed (auto simp: driver_defs sys_defs Let_def bindr_Inr_iff mem_simps split: if_splits option.splits)

interpretation tap: raw_driver tap_dev_open tap_dev_close tap_dev_rx tap_dev_addr
proof unfold_locales
  fix os fd cb and s :: "'a sys_scheme"
  show "\<exists>t. tap_dev_rx os fd cb s = Inr (s\<lparr>sys_tick := t\<rparr>) \<or>
          (\<exists>b. b \<noteq> [] \<and> length b \<le> 2048 \<and> tap_dev_rx os fd cb s = cb b (s\<lparr>sys_tick := t\<rparr>))"
    using read_cases by (auto simp: tap_dev_rx_def sys_defs)
qed (auto simp: driver_defs sys_defs Let_def bindr_Inr_iff mem_simps split: if_splits option.splits)

section \<open>Calls through the table\<close>

lemma raw_open_fail: "raw_open os dev s = Inr (-1, dev', s') \<Longrightarrow> \<exists>t. s' = s\<lparr>sys_tick := t\<rparr>"
  using soc.open_fail tap.open_fail
  by (fastforce simp: raw_open_def bindr_Inr_iff split: rawdev_ops.splits if_splits)

lemma raw_open_ok:
  assumes "raw_open os dev s = Inr (r, dev', s')" "r \<noteq> -1"
  shows "r = 0 \<and> (\<exists>fd t. fd \<noteq> -1 \<and> dev' = dev\<lparr>rd_priv := Some fd\<rparr> \<and>
           s' = s\<lparr>sys_fds := fd # sys_fds s, sys_tick := t\<rparr>)"
  using assms soc.open_ok tap.open_ok
  by (fastforce simp: raw_open_def bindr_Inr_iff split: rawdev_ops.splits if_splits)

lemma raw_close_fd:
  assumes "rd_priv dev = Some fd" "fd \<noteq> -1"
  shows "raw_close dev s = Inr (sys_close fd s)"
  using assms by (auto simp: raw_close_def soc.close_fd tap.close_fd split: rawdev_ops.splits)

lemma raw_addr_law:
  assumes "raw_addr os dev dst sz s = Inr (r, dst', s')"
  shows "length dst' = length dst \<and> (r = -1 \<longrightarrow> dst' = dst) \<and> (\<exists>t. s' = s\<lparr>sys_tick := t\<rparr>)"
  using assms soc.adr_law [of os dst sz s r dst' s'] tap.adr_law [of os dst sz s r dst' s']
  by (simp add: raw_addr_def split: rawdev_ops.splits)

lemma raw_tx_eq:
  "rd_priv dev = Some fd \<Longrightarrow> raw_tx os dev buf s = Inr (sys_write os fd buf s)"
  by (simp add: raw_tx_def soc_dev_tx_def tap_dev_tx_def split: rawdev_ops.splits)

lemma raw_rx_law:
  assumes "rd_priv dev = Some fd"
  shows "\<exists>t. raw_rx os dev cb s = Inr (s\<lparr>sys_tick := t\<rparr>) \<or>
           (\<exists>b. b \<noteq> [] \<and> length b \<le> 2048 \<and> raw_rx os dev cb s = cb b (s\<lparr>sys_tick := t\<rparr>))"
  using assms soc.rx_law [of os fd cb s] tap.rx_law [of os fd cb s]
  by (simp add: raw_rx_def split: rawdev_ops.splits)

text \<open>
  Property C28: opening a raw device of either kind never leaks a descriptor. When the open fails,
  on whichever of its system calls, the open descriptors are those from before; when it succeeds
  there is exactly one more, the device's, and closing the device gives it back.
\<close>

theorem raw_open_close_descriptors:
  assumes "raw_open os dev s = Inr (r, dev', s1)"
  shows "r = -1 \<and> sys_fds s1 = sys_fds s \<or>
         r = 0 \<and> (\<exists>fd s2. rd_priv dev' = Some fd \<and> sys_fds s1 = fd # sys_fds s \<and>
           raw_close dev' s1 = Inr s2 \<and> sys_fds s2 = sys_fds s)"
proof (cases "r = -1")
  case True
  with raw_open_fail assms show ?thesis by fastforce
next
  case False
  from raw_open_ok [OF assms this] obtain fd t where
    o: "r = 0" "fd \<noteq> -1" "dev' = dev\<lparr>rd_priv := Some fd\<rparr>" "s1 = s\<lparr>sys_fds := fd # sys_fds s, sys_tick := t\<rparr>"
    by blast
  moreover have "raw_close dev' s1 = Inr (sys_close fd s1)" using o by (intro raw_close_fd) auto
  ultimately show ?thesis by (auto simp: sys_close_def)
qed

theorem raw_open_close_descriptors_witness:
  "\<exists>dev' s1. raw_open (plain_os 0 7)
      \<lparr>rd_type = 1, rd_name = ''tap2'', rd_ops = tap_dev_ops, rd_priv = None\<rparr>
      \<lparr>sys_tick = 0, sys_fds = [], sys_sent = []\<rparr> = Inr (0, dev', s1) \<and>
    rd_priv dev' = Some 7 \<and> sys_fds s1 = [7] \<and>
    (\<exists>s2. raw_close dev' s1 = Inr s2 \<and> sys_fds s2 = [])"
proof -
  let ?d = "\<lparr>rd_type = 1, rd_name = ''tap2'', rd_ops = tap_dev_ops, rd_priv = None\<rparr>"
  have "raw_open (plain_os 0 7) ?d \<lparr>sys_tick = 0, sys_fds = [], sys_sent = []\<rparr> =
      Inr (0, ?d\<lparr>rd_priv := Some 7\<rparr>, \<lparr>sys_tick = 3, sys_fds = [7], sys_sent = []\<rparr>)"
    by (simp add: raw_open_def tap_dev_open_def sys_defs eval_nat_numeral)
  from this raw_open_close_descriptors [OF this] show ?thesis by auto
qed

text \<open>The packet socket driver writes through the result of \<open>malloc\<close> before testing it.\<close>

lemma soc_dev_open_unchecked: "\<not> os_malloc os (sys_tick s) \<Longrightarrow> soc_dev_open os s = Inl NullDeref"
  by (simp add: soc_dev_open_def sys_malloc_def)

lemma tap_dev_open_checked: "tap_dev_open os s \<noteq> Inl f"
  by (auto simp: tap_dev_open_def Let_def split: if_splits prod.splits)

end
