(* ===== verification/Net.thy ===== *)
theory Net
  imports Raw Byteorder
begin

text \<open>
  The device layer, \<open>net.c\<close>: drivers, protocol handlers, devices and the interfaces attached
  to them. A linked list that only grows at its head is a list of its entries, head first.
  Devices and interfaces are shared through pointers, so they live in stores indexed by address;
  following a pointer to a block that is not there faults. The tables of function pointers the
  program defines are named by tags: \<open>ethernet_ops\<close> for the operations of a device,
  \<open>arp_rx_handler\<close> and \<open>ip_rx_handler\<close> for the protocol handlers.
\<close>

section \<open>Data\<close>

abbreviation (input) NETDEV_TYPE_ETHERNET :: u16 where "NETDEV_TYPE_ETHERNET \<equiv> 0x0001"
abbreviation (input) NETDEV_FLAG_BROADCAST :: u16 where "NETDEV_FLAG_BROADCAST \<equiv> 0x0001"
abbreviation (input) NETDEV_FLAG_NOARP :: u16 where "NETDEV_FLAG_NOARP \<equiv> 0x0010"
abbreviation (input) NETIF_FAMILY_IPV4 :: u8 where "NETIF_FAMILY_IPV4 \<equiv> 0x02"
abbreviation (input) NETDEV_PROTO_IP :: u16 where "NETDEV_PROTO_IP \<equiv> 0x0800"
abbreviation (input) NETDEV_PROTO_ARP :: u16 where "NETDEV_PROTO_ARP \<equiv> 0x0806"

datatype netdev_ops = ethernet_ops

datatype netdev_handler = arp_rx_handler | ip_rx_handler

record netdev_def =
  def_type :: u16
  def_mtu :: u16
  def_flags :: u16
  def_hlen :: u16
  def_alen :: u16
  def_ops :: netdev_ops

text \<open>\<open>struct netdev_driver\<close> has the fields of \<open>struct netdev_def\<close> and the link.\<close>

type_synonym netdev_driver = netdev_def

record netdev_proto =
  np_type :: u16
  np_handler :: netdev_handler

record netif =
  if_family :: u8
  if_dev :: "nat option"

record netif_ip = netif +
  unicast :: u32
  netmask :: u32
  network :: u32
  broadcast :: u32
  gateway :: u32

record ethernet_priv =
  ep_raw :: "rawdev option"
  ep_thread :: nat
  ep_terminate :: bool

record netdev =
  nd_ifs :: "nat list"
  nd_name :: string
  nd_type :: u16
  nd_mtu :: u16
  nd_flags :: u16
  nd_hlen :: u16
  nd_alen :: u16
  nd_addr :: bytes
  nd_peer :: bytes
  nd_broadcast :: bytes
  nd_ops :: netdev_ops
  nd_priv :: "ethernet_priv option"

record net = sys +
  drivers :: "netdev_driver list"
  protos :: "netdev_proto list"
  devices :: "nat list"
  net_devs :: "nat \<rightharpoonup> netdev"
  net_ifs :: "nat \<rightharpoonup> netif_ip"

text \<open>The static initialisers: nothing is registered.\<close>

definition net_init :: net where
  "net_init = \<lparr>sys_tick = 0, sys_fds = [], sys_sent = [], drivers = [], protos = [], devices = [],
     net_devs = Map.empty, net_ifs = Map.empty\<rparr>"

text \<open>Following a pointer.\<close>

definition deref :: "(nat \<rightharpoonup> 'b) \<Rightarrow> nat \<Rightarrow> 'b res" where
  "deref m p = (case m p of None \<Rightarrow> Inl UseAfterFree | Some x \<Rightarrow> Inr x)"

lemma deref_Inr_iff [simp]: "deref m p = Inr x \<longleftrightarrow> m p = Some x"
  by (auto simp: deref_def split: option.splits)

lemma deref_Some [simp]: "m p = Some x \<Longrightarrow> deref m p = Inr x"
  by simp

text \<open>The device layer's data is left alone.\<close>

definition same_net :: "'a net_scheme \<Rightarrow> 'a net_scheme \<Rightarrow> bool" where
  "same_net s s' \<longleftrightarrow> net_devs s' = net_devs s \<and> net_ifs s' = net_ifs s \<and> protos s' = protos s \<and>
     drivers s' = drivers s \<and> devices s' = devices s"

lemma same_net_refl [simp]: "same_net s s"
  by (simp add: same_net_def)

lemma same_net_trans [trans]: "same_net s s' \<Longrightarrow> same_net s' s'' \<Longrightarrow> same_net s s''"
  by (simp add: same_net_def)

lemma sends_same_net: "sends s s' \<Longrightarrow> same_net s s'"
  by (auto simp: sends_def same_net_def)

section \<open>Operations\<close>

definition netdev_driver_register :: "os \<Rightarrow> netdev_def \<Rightarrow> 'a net_scheme \<Rightarrow> int \<times> 'a net_scheme" where
  "netdev_driver_register os def s =
     (if list_ex (\<lambda>entry. def_type entry = def_type def) (drivers s) then (-1, s) else
      let (entry, s) = sys_malloc os s in
      if entry = None then (-1, s) else (0, s\<lparr>drivers := def # drivers s\<rparr>))"

definition netdev_proto_register ::
  "os \<Rightarrow> u16 \<Rightarrow> netdev_handler \<Rightarrow> 'a net_scheme \<Rightarrow> int \<times> 'a net_scheme" where
  "netdev_proto_register os type handler s =
     (if list_ex (\<lambda>entry. np_type entry = type) (protos s) then (-1, s) else
      let (entry, s) = sys_malloc os s in
      if entry = None then (-1, s)
      else (0, s\<lparr>protos := \<lparr>np_type = type, np_handler = handler\<rparr> # protos s\<rparr>))"

text \<open>
  The handlers are functions of the layers above: \<open>call h packet dev\<close> runs the one named
  \<open>h\<close>.
\<close>

fun netdev_rx_loop ::
  "endian \<Rightarrow> (netdev_handler \<Rightarrow> bytes \<Rightarrow> nat \<Rightarrow> 's \<Rightarrow> 's res) \<Rightarrow> netdev_proto list \<Rightarrow> nat \<Rightarrow> u16 \<Rightarrow> bytes \<Rightarrow>
     's \<Rightarrow> 's res" where
  "netdev_rx_loop e call [] dev type packet s = Inr s"
| "netdev_rx_loop e call (entry # es) dev type packet s =
     bindr (if hton16 e (np_type entry) = type then call (np_handler entry) packet dev s else Inr s)
       (netdev_rx_loop e call es dev type packet)"

definition netdev_rx_handler ::
  "endian \<Rightarrow> (netdev_handler \<Rightarrow> bytes \<Rightarrow> nat \<Rightarrow> 'a net_scheme \<Rightarrow> 'a net_scheme res) \<Rightarrow> nat \<Rightarrow> u16 \<Rightarrow> bytes \<Rightarrow>
     'a net_scheme \<Rightarrow> 'a net_scheme res" where
  "netdev_rx_handler e call dev type packet s = netdev_rx_loop e call (protos s) dev type packet s"

definition netdev_root :: "'a net_scheme \<Rightarrow> nat option" where
  "netdev_root s = (case devices s of [] \<Rightarrow> None | d # _ \<Rightarrow> Some d)"

text \<open>\<open>blk\<close> is what the block returned by \<open>malloc\<close> happens to contain.\<close>

definition netdev_alloc :: "os \<Rightarrow> u16 \<Rightarrow> netdev \<Rightarrow> 'a net_scheme \<Rightarrow> nat option \<times> 'a net_scheme" where
  "netdev_alloc os type blk s =
     (case find (\<lambda>driver. def_type driver = type) (drivers s) of
        None \<Rightarrow> (None, s)
      | Some driver \<Rightarrow>
          let (dev, s) = sys_malloc os s in
          (case dev of
             None \<Rightarrow> (None, s)
           | Some d \<Rightarrow>
               (Some d,
                s\<lparr>net_devs := (net_devs s)(d \<mapsto>
                    blk\<lparr>nd_ifs := [], nd_type := def_type driver, nd_mtu := def_mtu driver,
                        nd_flags := def_flags driver, nd_hlen := def_hlen driver,
                        nd_alen := def_alen driver, nd_ops := def_ops driver\<rparr>),
                  devices := d # devices s\<rparr>)))"

fun netif_find :: "(nat \<rightharpoonup> netif_ip) \<Rightarrow> nat list \<Rightarrow> int \<Rightarrow> nat option res" where
  "netif_find m [] family = Inr None"
| "netif_find m (i # is) family =
     bindr (deref m i) (\<lambda>entry.
       if uint (if_family entry) = family then Inr (Some i) else netif_find m is family)"

definition netdev_add_netif :: "nat \<Rightarrow> nat \<Rightarrow> 'a net_scheme \<Rightarrow> (int \<times> 'a net_scheme) res" where
  "netdev_add_netif d i s =
     bindr (deref (net_devs s) d) (\<lambda>dev.
     bindr (deref (net_ifs s) i) (\<lambda>netif.
     bindr (netif_find (net_ifs s) (nd_ifs dev) (uint (if_family netif))) (\<lambda>entry.
       if entry \<noteq> None then Inr (-1, s)
       else Inr (0, s\<lparr>net_ifs := (net_ifs s)(i \<mapsto> netif\<lparr>if_dev := Some d\<rparr>),
                      net_devs := (net_devs s)(d \<mapsto> dev\<lparr>nd_ifs := i # nd_ifs dev\<rparr>)\<rparr>))))"

definition netdev_get_netif :: "nat \<Rightarrow> int \<Rightarrow> 'a net_scheme \<Rightarrow> nat option res" where
  "netdev_get_netif d family s =
     bindr (deref (net_devs s) d) (\<lambda>dev. netif_find (net_ifs s) (nd_ifs dev) family)"

section \<open>Registries\<close>

text \<open>
  Drivers, protocol handlers, the interfaces of a device and the transport protocols of \<open>ip.c\<close>
  are kept the same way: an entry is added under a key unless the key is taken. The contract:
  \<open>find_reg\<close> is a finite map, a registration under a taken key fails and changes nothing, any
  other one adds the entry or fails and keeps the map.
\<close>

locale registry =
  fixes inv :: "'s \<Rightarrow> bool"
    and fits :: "'s \<Rightarrow> 'k \<Rightarrow> 'x \<Rightarrow> bool"
    and find_reg :: "'s \<Rightarrow> 'k \<Rightarrow> 'x option"
    and reg :: "'k \<Rightarrow> 'x \<Rightarrow> 's \<Rightarrow> (int \<times> 's) res"
  assumes reg_dup: "inv s \<Longrightarrow> fits s k x \<Longrightarrow> find_reg s k \<noteq> None \<Longrightarrow> reg k x s = Inr (-1, s)"
    and reg_new: "inv s \<Longrightarrow> fits s k x \<Longrightarrow> find_reg s k = None \<Longrightarrow> reg k x s = Inr (r, s') \<Longrightarrow>
          inv s' \<and> (r = 0 \<and> find_reg s' = (find_reg s)(k \<mapsto> x) \<or> r = -1 \<and> find_reg s' = find_reg s)"
begin

lemma reg_cases:
  assumes "inv s" "fits s k x" "reg k x s = Inr (r, s')"
  obtains "r = 0" "find_reg s k = None" "find_reg s' = (find_reg s)(k \<mapsto> x)"
    | "r = -1" "find_reg s' = find_reg s"
  using assms reg_dup [of s k x] reg_new [of s k x r s'] by (cases "find_reg s k") auto

lemma reg_inv: "inv s \<Longrightarrow> fits s k x \<Longrightarrow> reg k x s = Inr (r, s') \<Longrightarrow> inv s'"
  using reg_dup [of s k x] reg_new [of s k x r s'] by (cases "find_reg s k") auto

lemma reg_keeps:
  assumes "inv s" "fits s k x" "reg k x s = Inr (r, s')" "find_reg s k' = Some y"
  shows "find_reg s' k' = Some y"
  using assms(1-3) by (rule reg_cases) (use assms(4) in auto)

lemma reg_found:
  assumes "inv s" "fits s k x" "reg k x s = Inr (0, s')"
  shows "find_reg s' k = Some x \<and> find_reg s k = None"
  using assms by (rule reg_cases) auto

lemma reg_twice:
  assumes "inv s" "fits s k x" "reg k x s = Inr (0, s')" "fits s' k y"
  shows "reg k y s' = Inr (-1, s')"
  using reg_found [OF assms(1-3)] reg_inv [OF assms(1-3)] reg_dup assms(4) by auto

end

definition find_driver :: "'a net_scheme \<Rightarrow> u16 \<Rightarrow> netdev_def option" where
  "find_driver s type = find (\<lambda>d. def_type d = type) (drivers s)"

definition find_proto :: "'a net_scheme \<Rightarrow> u16 \<Rightarrow> netdev_handler option" where
  "find_proto s type = map_option np_handler (find (\<lambda>p. np_type p = type) (protos s))"

definition protos_distinct :: "'a net_scheme \<Rightarrow> bool" where
  "protos_distinct s \<longleftrightarrow> distinct (map np_type (protos s))"

lemma find_Some_iff_ex: "find P xs \<noteq> None \<longleftrightarrow> list_ex P xs"
  by (induction xs) auto

lemma find_None_list_ex: "find P xs = None \<longleftrightarrow> \<not> list_ex P xs"
  by (induction xs) auto

interpretation drv: registry "\<lambda>_. True" "\<lambda>_ k d. def_type d = k" find_driver
  "\<lambda>k d s. Inr (netdev_driver_register os d s)" for os
  by unfold_locales
    (auto simp: find_driver_def netdev_driver_register_def find_None_list_ex sys_malloc_def fun_eq_iff
      find_Some_iff_ex [unfolded not_None_eq] split: if_splits)

interpretation pro: registry protos_distinct "\<lambda>_ _ _. True" find_proto
  "\<lambda>k h s. Inr (netdev_proto_register os k h s)" for os
  by unfold_locales
    (auto simp: find_proto_def protos_distinct_def netdev_proto_register_def find_None_list_ex sys_malloc_def
      fun_eq_iff find_Some_iff_ex [unfolded not_None_eq] list_ex_iff split: if_splits)

text \<open>The interfaces of a device: all of them are live.\<close>

definition ifs_live :: "nat \<Rightarrow> 'a net_scheme \<Rightarrow> bool" where
  "ifs_live d s \<longleftrightarrow>
     (case net_devs s d of None \<Rightarrow> False | Some dev \<Rightarrow> \<forall>i \<in> set (nd_ifs dev). net_ifs s i \<noteq> None)"

definition has_family :: "'a net_scheme \<Rightarrow> u8 \<Rightarrow> nat \<Rightarrow> bool" where
  "has_family s family i \<longleftrightarrow> (case net_ifs s i of None \<Rightarrow> False | Some n \<Rightarrow> if_family n = family)"

definition find_netif :: "nat \<Rightarrow> 'a net_scheme \<Rightarrow> u8 \<Rightarrow> nat option" where
  "find_netif d s family =
     (case netdev_get_netif d (uint family) s of Inl _ \<Rightarrow> None | Inr r \<Rightarrow> r)"

lemma netif_find_live: "\<forall>i \<in> set is. m i \<noteq> None \<Longrightarrow> \<exists>r. netif_find m is f = Inr r"
  by (induction "is") auto

lemma netif_find_upd:
  "m i = Some n \<Longrightarrow> netif_find (m(i \<mapsto> n\<lparr>if_dev := d\<rparr>)) is f = netif_find m is f"
  by (induction "is") (auto simp: deref_def split: option.splits)

lemma get_netif_live: "ifs_live d s \<Longrightarrow> netdev_get_netif d (uint f) s = Inr (find_netif d s f)"
  using netif_find_live [of _ "net_ifs s" "uint f"]
  by (fastforce simp: ifs_live_def find_netif_def netdev_get_netif_def split: option.splits sum.splits)

lemma add_netif_live:
  assumes "ifs_live d s" "has_family s f i"
  shows "netdev_add_netif d i s =
    Inr (if find_netif d s f \<noteq> None then (-1, s)
         else (0, s\<lparr>net_ifs := (net_ifs s)(i \<mapsto> (the (net_ifs s i))\<lparr>if_dev := Some d\<rparr>),
                    net_devs := (net_devs s)(d \<mapsto> (the (net_devs s d))\<lparr>nd_ifs := i # nd_ifs (the (net_devs s d))\<rparr>)\<rparr>))"
  using assms get_netif_live [OF assms(1), of f]
  by (auto simp: ifs_live_def has_family_def netdev_add_netif_def netdev_get_netif_def split: option.splits)

interpretation ifr: registry "ifs_live d" has_family "find_netif d" "\<lambda>_ i. netdev_add_netif d i" for d
proof unfold_locales
  fix s :: "'a net_scheme" and k i
  assume "ifs_live d s" "has_family s k i" "find_netif d s k \<noteq> None"
  then show "netdev_add_netif d i s = Inr (-1, s)" by (simp add: add_netif_live)
next
  fix s s' :: "'a net_scheme" and k i r
  assume a: "ifs_live d s" "has_family s k i" "find_netif d s k = None"
    and run: "netdev_add_netif d i s = Inr (r, s')"
  obtain dev n where dn: "net_devs s d = Some dev" "net_ifs s i = Some n" "if_family n = k"
    using a by (auto simp: ifs_live_def has_family_def split: option.splits)
  have live: "ifs_live d s'" and r: "r = 0"
    using run a dn by (auto simp: add_netif_live ifs_live_def)
  have "find_netif d s' f = ((find_netif d s)(k \<mapsto> i)) f" for f
    using run a dn
    by (auto simp: add_netif_live find_netif_def netdev_get_netif_def netif_find_upd
        word_uint_eq_iff [symmetric])
  then show "ifs_live d s' \<and> (r = 0 \<and> find_netif d s' = (find_netif d s)(k \<mapsto> i) \<or>
      r = -1 \<and> find_netif d s' = find_netif d s)"
    using live r by auto
qed

section \<open>Dispatch of received packets\<close>

lemma netdev_rx_loop_find:
  assumes "distinct (map np_type ps)"
  shows "netdev_rx_loop e call ps d (hton16 e t) p s =
    (case find (\<lambda>p. np_type p = t) ps of None \<Rightarrow> Inr s | Some q \<Rightarrow> call (np_handler q) p d s)"
  using assms
proof (induction ps arbitrary: s)
  case (Cons q ps)
  have skip: "netdev_rx_loop e call ps d (hton16 e t) p s' = Inr s'" if "np_type q = t" for s'
  proof -
    have "find (\<lambda>p. np_type p = t) ps = None"
      using Cons.prems that unfolding find_None_iff by (metis distinct.simps(2) in_set_conv_nth
          length_map list.simps(9) nth_map)
    then show ?thesis using Cons.IH [of s'] Cons.prems by simp
  qed
  then show ?case using Cons
    by (cases "call (np_handler q) p d s") auto
qed simp

lemma netdev_rx_handler_find:
  assumes "protos_distinct s"
  shows "netdev_rx_handler e call d (hton16 e t) p s =
    (case find_proto s t of None \<Rightarrow> Inr s | Some h \<Rightarrow> call h p d s)"
  using assms
  by (auto simp: netdev_rx_handler_def netdev_rx_loop_find protos_distinct_def find_proto_def
      split: option.splits)

text \<open>
  A handler that was registered successfully receives every packet of its type, once,
  and no other handler sees it; packets of any other type go where they went before, and a second
  registration for the type is refused and changes nothing.
\<close>

theorem netdev_proto_register_dispatch:
  assumes "protos_distinct s" "netdev_proto_register os t h s = (0, s1)"
  shows "protos_distinct s1 \<and>
    netdev_rx_handler e call d (hton16 e t) p s1 = call h p d s1 \<and>
    (\<forall>t'. t' \<noteq> t \<longrightarrow> netdev_rx_handler e call d (hton16 e t') p s1 =
       (case find_proto s t' of None \<Rightarrow> Inr s1 | Some h' \<Rightarrow> call h' p d s1)) \<and>
    netdev_proto_register os t h2 s1 = (-1, s1)"
proof -
  have r: "Inr (netdev_proto_register os t h s) = Inr (0, s1)" using assms(2) by simp
  have d1: "protos_distinct s1" using pro.reg_inv [OF assms(1) TrueI r] .
  have f: "find_proto s1 = (find_proto s)(t \<mapsto> h)"
    using assms(1) TrueI r by (rule pro.reg_cases) auto
  have "netdev_proto_register os t h2 s1 = (-1, s1)"
    using pro.reg_twice [OF assms(1) TrueI r TrueI] by simp
  then show ?thesis by (simp add: netdev_rx_handler_find [OF d1] d1 f)
qed

theorem netdev_proto_register_dispatch_witness:
  "\<exists>s1. netdev_proto_register (plain_os 0 0) NETDEV_PROTO_ARP arp_rx_handler net_init = (0, s1) \<and>
     netdev_rx_handler Little (\<lambda>h p d s. if h = arp_rx_handler then Inr (s\<lparr>devices := [d]\<rparr>) else Inl NullDeref)
       7 (hton16 Little NETDEV_PROTO_ARP) [1, 2] s1 = Inr (s1\<lparr>devices := [7]\<rparr>)"
proof -
  have d: "protos_distinct net_init" by (simp add: protos_distinct_def net_init_def)
  obtain s1 where s1: "netdev_proto_register (plain_os 0 0) NETDEV_PROTO_ARP arp_rx_handler net_init = (0, s1)"
    by (simp add: netdev_proto_register_def net_init_def sys_malloc_def)
  show ?thesis using s1 netdev_proto_register_dispatch [OF d s1] by auto
qed

text \<open>
  An interface attached to a device is the one found for its family from then on; the
  interfaces of other families are found as before, and attaching a second one of the same family
  is refused and changes nothing.
\<close>

theorem netdev_add_netif_get:
  assumes "ifs_live d s" "has_family s f i" "netdev_add_netif d i s = Inr (0, s1)"
  shows "ifs_live d s1 \<and> netdev_get_netif d (uint f) s1 = Inr (Some i) \<and>
    (\<forall>g. g \<noteq> f \<longrightarrow> netdev_get_netif d (uint g) s1 = netdev_get_netif d (uint g) s) \<and>
    (has_family s1 f j \<longrightarrow> netdev_add_netif d j s1 = Inr (-1, s1))"
proof -
  have live: "ifs_live d s1" using ifr.reg_inv [OF assms] .
  have "find_netif d s1 = (find_netif d s)(f \<mapsto> i)"
    using assms by (rule ifr.reg_cases) auto
  with live show ?thesis
    using get_netif_live [OF live] get_netif_live [OF assms(1)] ifr.reg_twice [OF assms, of j] by auto
qed

theorem netdev_add_netif_get_witness:
  "let n = \<lparr>if_family = NETIF_FAMILY_IPV4, if_dev = None, unicast = 1, netmask = 0, network = 0,
            broadcast = 0, gateway = 0\<rparr>;
       dv = \<lparr>nd_ifs = [], nd_name = [], nd_type = 1, nd_mtu = 1500, nd_flags = 1, nd_hlen = 14, nd_alen = 6,
            nd_addr = [], nd_peer = [], nd_broadcast = [], nd_ops = ethernet_ops, nd_priv = None\<rparr>
   in \<exists>s1. netdev_add_netif 0 5 (net_init\<lparr>net_devs := [0 \<mapsto> dv], net_ifs := [5 \<mapsto> n]\<rparr>) = Inr (0, s1) \<and>
        netdev_get_netif 0 2 s1 = Inr (Some 5)"
proof -
  define n where "n = \<lparr>if_family = NETIF_FAMILY_IPV4, if_dev = None, unicast = 1, netmask = 0, network = 0,
            broadcast = 0, gateway = 0 :: u32\<rparr>"
  define dv where "dv = \<lparr>nd_ifs = [], nd_name = [], nd_type = 1, nd_mtu = 1500, nd_flags = 1, nd_hlen = 14, nd_alen = 6,
            nd_addr = [], nd_peer = [], nd_broadcast = [], nd_ops = ethernet_ops, nd_priv = None\<rparr>"
  let ?s = "net_init\<lparr>net_devs := [0 \<mapsto> dv], net_ifs := [5 \<mapsto> n]\<rparr>"
  have l: "ifs_live 0 ?s" "has_family ?s NETIF_FAMILY_IPV4 5"
    by (simp_all add: ifs_live_def has_family_def dv_def n_def)
  obtain s1 where s1: "netdev_add_netif 0 5 ?s = Inr (0, s1)"
    by (simp add: netdev_add_netif_def dv_def)
  show ?thesis
    unfolding Let_def n_def [symmetric] dv_def [symmetric]
    using netdev_add_netif_get [OF l s1] s1 by auto
qed

end
