(* ===== verification/Ethernet.thy ===== *)
theory Ethernet
  imports Net Wire Cstring
begin

text \<open>
  The Ethernet driver, \<open>ethernet.c\<close>: addresses as text, frames, the operations of an Ethernet
  device and the receive path up to the protocol handlers.
\<close>

abbreviation (input) ETHERNET_ADDR_LEN :: nat where "ETHERNET_ADDR_LEN \<equiv> 6"
abbreviation (input) ETHERNET_FRAME_SIZE_MAX :: nat where "ETHERNET_FRAME_SIZE_MAX \<equiv> 1518"
abbreviation (input) ETHERNET_PAYLOAD_SIZE_MIN :: nat where "ETHERNET_PAYLOAD_SIZE_MIN \<equiv> 46"
abbreviation (input) ETHERNET_PAYLOAD_SIZE_MAX :: nat where "ETHERNET_PAYLOAD_SIZE_MAX \<equiv> 1500"

definition ETHERNET_ADDR_ANY :: bytes where
  "ETHERNET_ADDR_ANY = [0, 0, 0, 0, 0, 0]"

definition ETHERNET_ADDR_BROADCAST :: bytes where
  "ETHERNET_ADDR_BROADCAST = [0xff, 0xff, 0xff, 0xff, 0xff, 0xff]"

lemma length_addr_consts [simp]:
  "length ETHERNET_ADDR_ANY = 6" "length ETHERNET_ADDR_BROADCAST = 6"
  by (simp_all add: ETHERNET_ADDR_ANY_def ETHERNET_ADDR_BROADCAST_def)

section \<open>Addresses as text\<close>

text \<open>The character a pointer into a string points to is \<open>c\<close>; at the end it is zero.\<close>

definition points_to :: "char \<Rightarrow> string \<Rightarrow> bool" where
  "points_to c p = (case p of [] \<Rightarrow> False | c' # _ \<Rightarrow> c' = c)"

text \<open>The loop of \<open>ethernet_addr_pton\<close>; it returns its index, \<open>ep\<close> and the address.\<close>

function ethernet_pton_loop :: "nat \<Rightarrow> string \<Rightarrow> string \<Rightarrow> bytes \<Rightarrow> (nat \<times> string \<times> bytes) res" where
  "ethernet_pton_loop index p ep n =
     (if index < ETHERNET_ADDR_LEN then
        let (val, ep) = strtol 16 p in
        if ep = p \<or> val < 0 \<or> val > 0xff \<or> (index < ETHERNET_ADDR_LEN - 1 \<and> \<not> points_to (CHR '':'') ep)
        then Inr (index, ep, n)
        else bindr (mem_write n index [word_of_int val]) (\<lambda>n.
               ethernet_pton_loop (index + 1) (drop 1 ep) ep n)
      else Inr (index, ep, n))"
  by pat_completeness auto
termination
  by (relation "measure (\<lambda>(index, _). 6 - index)") auto

declare ethernet_pton_loop.simps [simp del]

definition ethernet_addr_pton :: "string \<Rightarrow> bytes \<Rightarrow> (int \<times> bytes) res" where
  "ethernet_addr_pton p n =
     bindr (ethernet_pton_loop 0 p [] n) (\<lambda>(index, ep, n).
       Inr (if index \<noteq> ETHERNET_ADDR_LEN \<or> ep \<noteq> [] then -1 else 0, n))"

definition ethernet_addr_ntop :: "bytes \<Rightarrow> nat \<Rightarrow> string" where
  "ethernet_addr_ntop n sz =
     snprintf sz (fmt_02x (n ! 0) @ '':'' @ fmt_02x (n ! 1) @ '':'' @ fmt_02x (n ! 2) @ '':'' @
                  fmt_02x (n ! 3) @ '':'' @ fmt_02x (n ! 4) @ '':'' @ fmt_02x (n ! 5))"

section \<open>Frames\<close>

record ethernet_hdr =
  eth_dst :: bytes
  eth_src :: bytes
  eth_type :: u16

definition enc_ethernet_hdr :: "endian \<Rightarrow> ethernet_hdr \<Rightarrow> bytes" where
  "enc_ethernet_hdr e h = eth_dst h @ eth_src h @ bytes16 e (eth_type h)"

definition dec_ethernet_hdr :: "endian \<Rightarrow> bytes \<Rightarrow> ethernet_hdr" where
  "dec_ethernet_hdr e bs =
     \<lparr>eth_dst = take 6 bs, eth_src = take 6 (drop 6 bs), eth_type = load16 e (bs ! 12) (bs ! 13)\<rparr>"

definition wf_ethernet_hdr :: "ethernet_hdr \<Rightarrow> bool" where
  "wf_ethernet_hdr h \<longleftrightarrow> length (eth_dst h) = 6 \<and> length (eth_src h) = 6"

lemma bytes16_cases: obtains a b where "bytes16 e v = [a, b]" "load16 e a b = v"
  using load16_bytes16 by (cases e) (auto simp: bytes16_def)

lemma bytes32_cases: obtains a b c d where "bytes32 e v = [a, b, c, d]" "load32 e a b c d = v"
  using load32_bytes32 by (cases e) (auto simp: bytes32_def)

interpretation eth: wire_format "enc_ethernet_hdr e" "dec_ethernet_hdr e" 14 wf_ethernet_hdr for e
proof unfold_locales
  fix h assume w: "wf_ethernet_hdr h"
  then show "length (enc_ethernet_hdr e h) = 14"
    by (simp add: enc_ethernet_hdr_def wf_ethernet_hdr_def)
  obtain a b where "bytes16 e (eth_type h) = [a, b]" "load16 e a b = eth_type h"
    by (rule bytes16_cases)
  then show "dec_ethernet_hdr e (enc_ethernet_hdr e h) = h"
    using w by (simp add: enc_ethernet_hdr_def dec_ethernet_hdr_def wf_ethernet_hdr_def nth_append)
next
  fix bs :: bytes assume l: "length bs = 14"
  then show "enc_ethernet_hdr e (dec_ethernet_hdr e bs) = bs"
    by (auto simp: numeral_eq_Suc length_Suc_conv enc_ethernet_hdr_def dec_ethernet_hdr_def bytes16_load16)
next
  fix bs :: bytes assume l: "14 \<le> length bs"
  show "wf_ethernet_hdr (dec_ethernet_hdr e bs)"
    using l by (simp add: wf_ethernet_hdr_def dec_ethernet_hdr_def)
  show "dec_ethernet_hdr e (bs @ rest) = dec_ethernet_hdr e bs" for rest
    using l by (simp add: dec_ethernet_hdr_def nth_append)
qed

section \<open>Device operations\<close>

text \<open>\<open>self\<close> is the calling thread, as \<open>pthread_self\<close> returns it.\<close>

definition ethernet_open ::
  "os \<Rightarrow> nat \<Rightarrow> nat \<Rightarrow> int \<Rightarrow> 'a net_scheme \<Rightarrow> (int \<times> 'a net_scheme) res" where
  "ethernet_open os self d opt s =
     (let (priv, s) = sys_malloc os s in
      if priv = None then Inr (-1, s) else
      bindr (deref (net_devs s) d) (\<lambda>dev.
      let (raw, s) = rawdev_alloc os (word_of_int opt) (nd_name dev) s in
      case raw of
        None \<Rightarrow> Inr (-1, s)
      | Some raw \<Rightarrow>
          bindr (raw_open os raw s) (\<lambda>(r, raw, s).
          if r = -1 then Inr (-1, s) else
          let priv = \<lparr>ep_raw = Some raw, ep_thread = self, ep_terminate = False\<rparr> in
          bindr (if take ETHERNET_ADDR_LEN (nd_addr dev) = ETHERNET_ADDR_ANY
                 then raw_addr os raw (nd_addr dev) ETHERNET_ADDR_LEN s
                 else Inr (0, nd_addr dev, s)) (\<lambda>(_, addr, s).
          bindr (mem_write (nd_broadcast dev) 0 ETHERNET_ADDR_BROADCAST) (\<lambda>bcast.
          Inr (0, s\<lparr>net_devs := (net_devs s)(d \<mapsto>
                     dev\<lparr>nd_priv := Some priv, nd_addr := addr, nd_broadcast := bcast\<rparr>)\<rparr>))))))"

text \<open>
  \<open>ethernet_close\<close> and \<open>ethernet_stop\<close> wait for the receive thread; \<open>join\<close> is what that thread still
  does until it has seen the flag.
\<close>

definition set_priv :: "nat \<Rightarrow> netdev \<Rightarrow> ethernet_priv option \<Rightarrow> 'a net_scheme \<Rightarrow> 'a net_scheme" where
  "set_priv d dev priv s = s\<lparr>net_devs := (net_devs s)(d \<mapsto> dev\<lparr>nd_priv := priv\<rparr>)\<rparr>"

definition ethernet_join ::
  "('a net_scheme \<Rightarrow> 'a net_scheme) \<Rightarrow> nat \<Rightarrow> 'a net_scheme \<Rightarrow> (netdev \<times> ethernet_priv \<times> 'a net_scheme) res" where
  "ethernet_join join d s =
     bindr (deref (net_devs s) d) (\<lambda>dev.
       case nd_priv dev of
         None \<Rightarrow> Inl NullDeref
       | Some priv \<Rightarrow>
           let s = join (set_priv d dev (Some (priv\<lparr>ep_terminate := True\<rparr>)) s) in
           bindr (deref (net_devs s) d) (\<lambda>dev.
             case nd_priv dev of None \<Rightarrow> Inl UseAfterFree | Some priv \<Rightarrow> Inr (dev, priv, s)))"

definition ethernet_close ::
  "('a net_scheme \<Rightarrow> 'a net_scheme) \<Rightarrow> nat \<Rightarrow> nat option \<Rightarrow> 'a net_scheme \<Rightarrow> (int \<times> 'a net_scheme) res" where
  "ethernet_close join self dev s =
     (case dev of
        None \<Rightarrow> Inr (1, s)
      | Some d \<Rightarrow>
          bindr (deref (net_devs s) d) (\<lambda>dev.
            case nd_priv dev of
              None \<Rightarrow> Inr (1, s)
            | Some priv \<Rightarrow>
                bindr (if ep_thread priv \<noteq> self then ethernet_join join d s else Inr (dev, priv, s))
                  (\<lambda>(dev, priv, s).
                bindr (case ep_raw priv of None \<Rightarrow> Inr s | Some raw \<Rightarrow> raw_close raw s) (\<lambda>s.
                Inr (0, set_priv d dev None s)))))"

definition ethernet_rx ::
  "endian \<Rightarrow> (netdev_handler \<Rightarrow> bytes \<Rightarrow> nat \<Rightarrow> 'a net_scheme \<Rightarrow> 'a net_scheme res) \<Rightarrow> nat \<Rightarrow> bytes \<Rightarrow>
     'a net_scheme \<Rightarrow> 'a net_scheme res" where
  "ethernet_rx e call d frame s =
     bindr (deref (net_devs s) d) (\<lambda>dev.
       if length frame < 14 then Inr s else
       let hdr = dec_ethernet_hdr e frame in
       if take ETHERNET_ADDR_LEN (nd_addr dev) \<noteq> eth_dst hdr \<and> ETHERNET_ADDR_BROADCAST \<noteq> eth_dst hdr
       then Inr s
       else netdev_rx_handler e call d (eth_type hdr) (drop 14 frame) s)"

text \<open>
  One turn of the loop of \<open>ethernet_rx_thread\<close>: \<open>None\<close> when the thread has been told to
  terminate.
\<close>

definition ethernet_rx_thread ::
  "os \<Rightarrow> (netdev_handler \<Rightarrow> bytes \<Rightarrow> nat \<Rightarrow> 'a net_scheme \<Rightarrow> 'a net_scheme res) \<Rightarrow> nat \<Rightarrow> 'a net_scheme \<Rightarrow>
     'a net_scheme option res" where
  "ethernet_rx_thread os call d s =
     bindr (deref (net_devs s) d) (\<lambda>dev.
       case nd_priv dev of
         None \<Rightarrow> Inl NullDeref
       | Some priv \<Rightarrow>
           if ep_terminate priv then Inr None else
           (case ep_raw priv of
              None \<Rightarrow> Inl NullDeref
            | Some raw \<Rightarrow>
                bindr (raw_rx os raw (ethernet_rx (os_endian os) call d) s) (\<lambda>s. Inr (Some s))))"

text \<open>\<open>pthread_create\<close> fills in the thread and starts it.\<close>

definition ethernet_run :: "os \<Rightarrow> nat \<Rightarrow> nat \<Rightarrow> 'a net_scheme \<Rightarrow> (int \<times> 'a net_scheme) res" where
  "ethernet_run os thread d s =
     bindr (deref (net_devs s) d) (\<lambda>dev.
       case nd_priv dev of
         None \<Rightarrow> Inl NullDeref
       | Some priv \<Rightarrow>
           let (err, s) = sys_call os s in
           if err \<noteq> 0 then Inr (-1, s)
           else Inr (0, set_priv d dev (Some (priv\<lparr>ep_thread := thread\<rparr>)) s))"

definition ethernet_stop ::
  "('a net_scheme \<Rightarrow> 'a net_scheme) \<Rightarrow> nat \<Rightarrow> nat \<Rightarrow> 'a net_scheme \<Rightarrow> (int \<times> 'a net_scheme) res" where
  "ethernet_stop join self d s =
     bindr (ethernet_join join d s) (\<lambda>(dev, priv, s).
       Inr (0, set_priv d dev (Some (priv\<lparr>ep_thread := self, ep_terminate := False\<rparr>)) s))"

text \<open>\<open>payload\<close> and \<open>dst\<close> are pointers: \<open>None\<close> is null.\<close>

definition ethernet_tx ::
  "os \<Rightarrow> nat \<Rightarrow> u16 \<Rightarrow> bytes option \<Rightarrow> bytes option \<Rightarrow> 'a net_scheme \<Rightarrow> (int \<times> 'a net_scheme) res" where
  "ethernet_tx os d type payload dst s =
     bindr (deref (net_devs s) d) (\<lambda>dev.
       case (payload, dst) of
         (Some payload, Some dst) \<Rightarrow>
           let plen = length payload in
           if plen > ETHERNET_PAYLOAD_SIZE_MAX then Inr (-1, s) else
           bindr (mem_read dst 0 ETHERNET_ADDR_LEN) (\<lambda>dst.
           bindr (mem_read (nd_addr dev) 0 ETHERNET_ADDR_LEN) (\<lambda>src.
           let hdr = \<lparr>eth_dst = dst, eth_src = src, eth_type = hton16 (os_endian os) type\<rparr> in
           bindr (mem_write (replicate ETHERNET_FRAME_SIZE_MAX 0) 0 (enc_ethernet_hdr (os_endian os) hdr))
             (\<lambda>frame.
           bindr (mem_write frame 14 payload) (\<lambda>frame.
           let flen = 14 + (if plen < ETHERNET_PAYLOAD_SIZE_MIN then ETHERNET_PAYLOAD_SIZE_MIN else plen) in
           case nd_priv dev of
             None \<Rightarrow> Inl NullDeref
           | Some priv \<Rightarrow>
               (case ep_raw priv of
                  None \<Rightarrow> Inl NullDeref
                | Some raw \<Rightarrow>
                    bindr (raw_tx os raw (take flen frame) s) (\<lambda>(r, s).
                    Inr (if r = int flen then int plen else -1, s)))))))
       | _ \<Rightarrow> Inr (-1, s))"

text \<open>A call of the transmit operation through the device's table.\<close>

definition netdev_tx ::
  "os \<Rightarrow> nat \<Rightarrow> u16 \<Rightarrow> bytes option \<Rightarrow> bytes option \<Rightarrow> 'a net_scheme \<Rightarrow> (int \<times> 'a net_scheme) res" where
  "netdev_tx os d type payload dst s =
     bindr (deref (net_devs s) d) (\<lambda>dev.
       case nd_ops dev of ethernet_ops \<Rightarrow> ethernet_tx os d type payload dst s)"

definition ethernet_def :: netdev_def where
  "ethernet_def = \<lparr>def_type = NETDEV_TYPE_ETHERNET, def_mtu = 1500, def_flags = NETDEV_FLAG_BROADCAST,
     def_hlen = 14, def_alen = 6, def_ops = ethernet_ops\<rparr>"

definition ethernet_init :: "os \<Rightarrow> 'a net_scheme \<Rightarrow> int \<times> 'a net_scheme" where
  "ethernet_init os s =
     (let (r, s) = netdev_driver_register os ethernet_def s in (if r = -1 then -1 else 0, s))"

section \<open>Printing and parsing an address\<close>

lemma length_fmt_02x [simp]: "length (fmt_02x b) = 2"
  by (simp add: fmt_02x_def)

lemma ethernet_pton_step:
  assumes "index < 6" "\<not> starts_digit 16 r" "index < 5 \<Longrightarrow> points_to (CHR '':'') r"
  shows "ethernet_pton_loop index (fmt_02x b @ r) ep n =
    bindr (mem_write n index [b]) (\<lambda>n. ethernet_pton_loop (index + 1) (drop 1 r) r n)"
proof -
  have "strtol 16 (fmt_02x b @ r) = (int (unat b), r)" by (rule strtol_fmt_02x [OF assms(2)])
  moreover have "r \<noteq> fmt_02x b @ r" by (simp add: fmt_02x_def)
  moreover have "int (unat b) \<le> 255" using unat_u8_less [of b] by linarith
  ultimately show ?thesis
    using assms by (subst ethernet_pton_loop.simps) (auto simp: Let_def)
qed

lemma ethernet_pton_done: "6 \<le> index \<Longrightarrow> ethernet_pton_loop index p ep n = Inr (index, ep, n)"
  by (subst ethernet_pton_loop.simps) simp

text \<open>
  Printing an Ethernet address into a buffer of \<open>ETHERNET_ADDR_STR_LEN\<close> bytes and
  parsing the text gives the address back, the parser writes its six bytes and nothing else, and
  the text fits the buffer.
\<close>

theorem ethernet_addr_roundtrip:
  assumes "length n = 6" "6 \<le> length buf"
  shows "length (ethernet_addr_ntop n 18) = 17 \<and>
    ethernet_addr_pton (ethernet_addr_ntop n 18) buf = Inr (0, n @ drop 6 buf)"
proof -
  obtain a0 a1 a2 a3 a4 a5 where n: "n = [a0, a1, a2, a3, a4, a5]"
    using assms(1) by (auto simp: numeral_eq_Suc length_Suc_conv)
  obtain b0 b1 b2 b3 b4 b5 r where buf: "buf = [b0, b1, b2, b3, b4, b5] @ r"
    using assms(2) by (auto simp: numeral_eq_Suc Suc_le_length_iff)
  have "ethernet_addr_ntop n 18 =
      fmt_02x a0 @ CHR '':'' # fmt_02x a1 @ CHR '':'' # fmt_02x a2 @ CHR '':'' # fmt_02x a3 @ CHR '':'' #
      fmt_02x a4 @ CHR '':'' # fmt_02x a5 @ []"
    by (simp add: ethernet_addr_ntop_def n snprintf_def)
  then show ?thesis
    by (simp add: ethernet_addr_pton_def ethernet_pton_step ethernet_pton_step [where r = "[]", simplified]
        ethernet_pton_done points_to_def mem_write_def
        n buf numeral_eq_Suc)
qed

theorem ethernet_addr_roundtrip_witness:
  "length [0, 1, 0xfe, 0x5e, 0x10, 0x7f :: u8] = 6 \<and>
   ethernet_addr_pton ''00:01:fe:5e:10:7f'' [9, 9, 9, 9, 9, 9, 9] = Inr (0, [0, 1, 0xfe, 0x5e, 0x10, 0x7f, 9])"
proof -
  have t: "ethernet_addr_ntop [0, 1, 0xfe, 0x5e, 0x10, 0x7f] 18 = ''00:01:fe:5e:10:7f''"
    by code_simp
  show ?thesis
    using ethernet_addr_roundtrip [of "[0, 1, 0xfe, 0x5e, 0x10, 0x7f]" "[9, 9, 9, 9, 9, 9, 9]"]
    unfolding t by simp
qed

section \<open>Frames on the wire\<close>

text \<open>What a frame carries: the addresses, the type in network byte order, the padded payload.\<close>

definition eth_pad :: "bytes \<Rightarrow> bytes" where
  "eth_pad pl = pl @ replicate (46 - length pl) 0"

definition eth_frame :: "bytes \<Rightarrow> bytes \<Rightarrow> u16 \<Rightarrow> bytes \<Rightarrow> bytes" where
  "eth_frame dst src type pl = dst @ src @ bytes16 Big type @ eth_pad pl"

definition dev_fd :: "'a net_scheme \<Rightarrow> nat \<Rightarrow> int option" where
  "dev_fd s d =
     Option.bind (net_devs s d) (\<lambda>dev. Option.bind (nd_priv dev) (\<lambda>p. Option.bind (ep_raw p) rd_priv))"

text \<open>A device that is open and has its address.\<close>

definition dev_open :: "'a net_scheme \<Rightarrow> nat \<Rightarrow> bytes \<Rightarrow> int \<Rightarrow> bool" where
  "dev_open s d addr fd \<longleftrightarrow>
     (case net_devs s d of
        None \<Rightarrow> False
      | Some dev \<Rightarrow> dev_fd s d = Some fd \<and> length (nd_addr dev) = 16 \<and> take 6 (nd_addr dev) = addr)"

lemma length_eth_frame:
  "length dst = 6 \<Longrightarrow> length src = 6 \<Longrightarrow> length (eth_frame dst src ty pl) = 14 + max 46 (length pl)"
  by (simp add: eth_frame_def eth_pad_def)

lemma ethernet_tx_frame:
  assumes "dev_open s d addr fd" "length pl \<le> 1500" "6 \<le> length dst"
  shows "ethernet_tx os d ty (Some pl) (Some dst) s =
    (let (r, s') = sys_write os fd (eth_frame (take 6 dst) addr ty pl) s
     in Inr (if r = int (14 + max 46 (length pl)) then int (length pl) else -1, s'))"
proof -
  from assms(1) obtain dev p raw where dev: "net_devs s d = Some dev" "nd_priv dev = Some p" "ep_raw p = Some raw"
    "rd_priv raw = Some fd" "length (nd_addr dev) = 16" "take 6 (nd_addr dev) = addr"
    by (auto simp: dev_open_def dev_fd_def Option.bind_eq_Some_conv split: option.splits)
  define h where "h = take 6 dst @ addr @ bytes16 Big ty"
  let ?flen = "14 + (if length pl < 46 then 46 else length pl)"
  have h: "length h = 14" using assms(3) dev(5,6) by (auto simp: h_def)
  have w1: "mem_write (replicate 1518 0) 0 h = Inr (h @ replicate 1504 0)"
    using h by (simp add: mem_write_def)
  have w2: "mem_write (h @ replicate 1504 0) 14 pl = Inr (h @ pl @ replicate (1504 - length pl) 0)"
    using h assms(2) by (simp add: mem_write_def)
  have cut: "take ?flen (h @ pl @ replicate (1504 - length pl) 0) = eth_frame (take 6 dst) addr ty pl"
    using h assms(2) by (auto simp: eth_frame_def eth_pad_def min_def h_def)
  have fl: "?flen = 14 + max 46 (length pl)" by simp
  have r1: "mem_read dst 0 6 = Inr (take 6 dst)" "mem_read (nd_addr dev) 0 6 = Inr addr"
    using assms(3) dev(5,6) by (simp_all add: mem_read_def)
  have enc: "enc_ethernet_hdr (os_endian os)
      \<lparr>eth_dst = take 6 dst, eth_src = addr, eth_type = hton16 (os_endian os) ty\<rparr> = h"
    by (simp add: enc_ethernet_hdr_def bytes16_hton16 h_def)
  show ?thesis
    using assms(2) cut
    by (simp add: ethernet_tx_def dev r1 enc w1 w2 raw_tx_eq fl Let_def split: prod.splits)
qed

text \<open>Whatever happens, a transmission only appends to what was sent.\<close>

lemma raw_tx_sends: "raw_tx os raw buf s = Inr (r, s') \<Longrightarrow> sends s s'"
  by (auto simp: raw_tx_def soc_dev_tx_def tap_dev_tx_def dest: arg_cong [of _ _ snd]
      split: option.splits rawdev_ops.splits)
    (metis sends_calls(6) snd_conv)+

lemma ethernet_tx_sends: "postr (ethernet_tx os d ty pl dst s) (\<lambda>(r, s'). sends s s')"
  unfolding ethernet_tx_def
  by (auto simp: Let_def intro!: postr_bindI split: option.splits) (erule raw_tx_sends)+

lemma netdev_tx_sends: "postr (netdev_tx os d ty pl dst s) (\<lambda>(r, s'). sends s s')"
  unfolding netdev_tx_def
  by (rule postr_bindI) (simp add: ethernet_tx_sends split: netdev_ops.split)

lemma netdev_tx_sendsD: "netdev_tx os d ty pl dst s = Inr (r, s') \<Longrightarrow> sends s s'"
  using postrD [OF netdev_tx_sends] by fastforce

lemma netdev_tx_frame:
  assumes "dev_open s d addr fd" "length pl \<le> 1500" "6 \<le> length dst"
  shows "netdev_tx os d ty (Some pl) (Some dst) s =
    (let (r, s') = sys_write os fd (eth_frame (take 6 dst) addr ty pl) s
     in Inr (if r = int (14 + max 46 (length pl)) then int (length pl) else -1, s'))"
proof -
  obtain dev where "net_devs s d = Some dev" using assms(1) by (auto simp: dev_open_def split: option.splits)
  then show ?thesis using ethernet_tx_frame [OF assms] by (simp add: netdev_tx_def split: netdev_ops.splits)
qed

text \<open>An open device, and an interface attached to one: what the layers above need of the net.\<close>

definition dev_ready :: "'a net_scheme \<Rightarrow> nat \<Rightarrow> bool" where
  "dev_ready s d \<longleftrightarrow>
     (case net_devs s d of None \<Rightarrow> False | Some dev \<Rightarrow> dev_fd s d \<noteq> None \<and> length (nd_addr dev) = 16)"

definition netif_ready :: "'a net_scheme \<Rightarrow> nat \<Rightarrow> bool" where
  "netif_ready s i \<longleftrightarrow>
     (case net_ifs s i of
        None \<Rightarrow> False
      | Some n \<Rightarrow> (case if_dev n of None \<Rightarrow> False | Some d \<Rightarrow> dev_ready s d))"

lemma dev_ready_open: "dev_ready s d \<longleftrightarrow> (\<exists>addr fd. dev_open s d addr fd)"
  by (auto simp: dev_ready_def dev_open_def split: option.splits)

lemma dev_open_addr: "dev_open s d addr fd \<Longrightarrow> length addr = 6"
  by (auto simp: dev_open_def split: option.splits)

lemma netif_readyE:
  assumes "netif_ready s i"
  obtains n d where "net_ifs s i = Some n" "if_dev n = Some d" "dev_ready s d"
  using assms by (auto simp: netif_ready_def split: option.splits)

lemma ready_cong:
  assumes "same_net s s'"
  shows "dev_ready s' d = dev_ready s d" "netif_ready s' i = netif_ready s i" "dev_open s' d addr fd = dev_open s d addr fd"
    "ifs_live d s' = ifs_live d s" "netdev_get_netif d f s' = netdev_get_netif d f s"
  using assms by (auto simp: same_net_def dev_ready_def netif_ready_def dev_fd_def dev_open_def ifs_live_def
      netdev_get_netif_def split: option.split)

lemma netdev_tx_ok:
  assumes "dev_ready s d" "6 \<le> length dst"
  shows "okr (netdev_tx os d ty (Some pl) (Some dst) s) (\<lambda>(r, s'). sends s s')"
proof -
  obtain addr fd where o: "dev_open s d addr fd" using assms(1) by (auto simp: dev_ready_open)
  have "\<exists>x. netdev_tx os d ty (Some pl) (Some dst) s = Inr x"
  proof (cases "length pl \<le> 1500")
    case True
    then show ?thesis using netdev_tx_frame [OF o True assms(2)] by (auto split: prod.splits)
  next
    case False
    obtain dev where "net_devs s d = Some dev" using o by (auto simp: dev_open_def split: option.splits)
    with False show ?thesis by (auto simp: netdev_tx_def ethernet_tx_def split: netdev_ops.splits)
  qed
  then show ?thesis using netdev_tx_sends by (metis okr_iff postrD)
qed

lemma ethernet_rx_frame:
  assumes "net_devs s d = Some dev" "length dst = 6" "length src = 6"
  shows "ethernet_rx e call d (eth_frame dst src ty pl) s =
    (if take 6 (nd_addr dev) = dst \<or> dst = ETHERNET_ADDR_BROADCAST
     then netdev_rx_handler e call d (hton16 e ty) (eth_pad pl) s else Inr s)"
proof -
  let ?h = "\<lparr>eth_dst = dst, eth_src = src, eth_type = hton16 e ty\<rparr>"
  have wf: "wf_ethernet_hdr ?h" using assms by (simp add: wf_ethernet_hdr_def)
  have f: "eth_frame dst src ty pl = enc_ethernet_hdr e ?h @ eth_pad pl"
    by (simp add: eth_frame_def enc_ethernet_hdr_def bytes16_hton16)
  have "dec_ethernet_hdr e (eth_frame dst src ty pl) = ?h"
    using eth.dec_enc_append [OF wf] by (simp add: f)
  moreover have "drop 14 (eth_frame dst src ty pl) = eth_pad pl"
    using eth.length_enc [OF wf, of e] by (simp add: f)
  ultimately show ?thesis
    using assms length_eth_frame [OF assms(2,3), of ty pl] by (auto simp: ethernet_rx_def)
qed

text \<open>
  Property C19: what a device sends, a device receives. \<open>ethernet_tx\<close> on an open device writes
  exactly one frame of between 60 and 1514 bytes; a receiver of any byte order that has the
  destination address, or any receiver when the frame is a broadcast, hands the payload, padded to
  46 bytes, to the handler of its type, and every other receiver drops the frame.
\<close>

theorem ethernet_tx_rx:
  assumes "dev_open s d addr fd" "length pl \<le> 1500" "length dst = 6"
    and tx: "ethernet_tx os d ty (Some pl) (Some dst) s = Inr (r, s')"
    and "net_devs t d' = Some dev'" "protos_distinct t"
  shows "\<exists>frame ret. sys_sent s' = sys_sent s @ [(fd, frame, ret)] \<and>
    60 \<le> length frame \<and> length frame \<le> 1514 \<and>
    r = (if ret = int (length frame) then int (length pl) else -1) \<and>
    ethernet_rx e call d' frame t =
      (if take 6 (nd_addr dev') = dst \<or> dst = ETHERNET_ADDR_BROADCAST
       then (case find_proto t ty of None \<Rightarrow> Inr t | Some h \<Rightarrow> call h (eth_pad pl) d' t) else Inr t)"
proof -
  let ?f = "eth_frame dst addr ty pl"
  have a: "length addr = 6" using assms(1) by (auto simp: dev_open_def split: option.splits)
  have "sys_sent s' = sys_sent s @ [(fd, ?f, os_ret os (sys_tick s))] \<and>
    r = (if os_ret os (sys_tick s) = int (length ?f) then int (length pl) else -1)"
    using tx ethernet_tx_frame [OF assms(1,2)] assms(3) length_eth_frame [OF assms(3) a, of ty pl]
    by (auto simp: sys_write_def Let_def)
  moreover have "60 \<le> length ?f \<and> length ?f \<le> 1514"
    using assms(2) by (simp add: length_eth_frame [OF assms(3) a])
  moreover have "ethernet_rx e call d' ?f t =
      (if take 6 (nd_addr dev') = dst \<or> dst = ETHERNET_ADDR_BROADCAST
       then (case find_proto t ty of None \<Rightarrow> Inr t | Some h \<Rightarrow> call h (eth_pad pl) d' t) else Inr t)"
    by (simp add: ethernet_rx_frame [OF assms(5,3) a] netdev_rx_handler_find [OF assms(6)])
  ultimately show ?thesis by blast
qed

text \<open>An open device with an address and a descriptor, for concrete runs.\<close>

definition plain_dev :: "bytes \<Rightarrow> int \<Rightarrow> netdev" where
  "plain_dev addr fd =
     \<lparr>nd_ifs = [], nd_name = ''tap2'', nd_type = NETDEV_TYPE_ETHERNET, nd_mtu = 1500,
      nd_flags = NETDEV_FLAG_BROADCAST, nd_hlen = 14, nd_alen = 6,
      nd_addr = addr @ replicate 10 0, nd_peer = replicate 16 0,
      nd_broadcast = ETHERNET_ADDR_BROADCAST @ replicate 10 0, nd_ops = ethernet_ops,
      nd_priv = Some \<lparr>ep_raw = Some \<lparr>rd_type = 1, rd_name = ''tap2'', rd_ops = tap_dev_ops, rd_priv = Some fd\<rparr>,
                      ep_thread = 0, ep_terminate = False\<rparr>\<rparr>"

lemma dev_open_plain:
  "net_devs s d = Some (plain_dev addr fd\<lparr>nd_ifs := ifs\<rparr>) \<Longrightarrow> length addr = 6 \<Longrightarrow> dev_open s d addr fd"
  by (simp add: dev_open_def dev_fd_def plain_dev_def)

theorem ethernet_tx_rx_witness:
  "let s = net_init\<lparr>net_devs := [0 \<mapsto> plain_dev [2, 0, 0, 0, 0, 1] 7]\<rparr>;
       t = net_init\<lparr>net_devs := [3 \<mapsto> plain_dev [2, 0, 0, 0, 0, 9] 8], protos := [\<lparr>np_type = 0x0806, np_handler = arp_rx_handler\<rparr>]\<rparr>;
       call = (\<lambda>h p d s. Inr (s\<lparr>sys_fds := [int (length p), int d]\<rparr>))
   in \<exists>r s' frame ret. ethernet_tx (plain_os 0 60) 0 0x0806 (Some [1, 2, 3]) (Some [2, 0, 0, 0, 0, 9]) s = Inr (r, s') \<and>
        r = 3 \<and> sys_sent s' = [(7, frame, ret)] \<and>
        ethernet_rx Big call 3 frame t = Inr (t\<lparr>sys_fds := [46, 3]\<rparr>)"
proof -
  let ?d = "[2, 0, 0, 0, 0, 9] :: bytes"
  define s where "s = net_init\<lparr>net_devs := [0 \<mapsto> plain_dev [2, 0, 0, 0, 0, 1] 7]\<rparr>"
  define t where "t = net_init\<lparr>net_devs := [3 \<mapsto> plain_dev ?d 8], protos := [\<lparr>np_type = 0x0806, np_handler = arp_rx_handler\<rparr>]\<rparr>"
  define call where "call = (\<lambda>(h :: netdev_handler) (p :: bytes) d s. (Inr (s\<lparr>sys_fds := [int (length p), int d]\<rparr>) :: net res))"
  have o: "dev_open s 0 [2, 0, 0, 0, 0, 1] 7"
    by (rule dev_open_plain [where ifs = "[]"]) (simp_all add: s_def plain_dev_def)
  have p: "protos_distinct t" "net_devs t 3 = Some (plain_dev ?d 8)"
    by (simp_all add: t_def protos_distinct_def)
  obtain r s' where tx: "ethernet_tx (plain_os 0 60) 0 0x0806 (Some [1, 2, 3]) (Some ?d) s = Inr (r, s')" "r = 3"
    using ethernet_tx_frame [OF o, of "[1, 2, 3]" ?d "plain_os 0 60" "0x0806"] by (auto simp: sys_write_def)
  have f: "find_proto t 0x0806 = Some arp_rx_handler" "take 6 (nd_addr (plain_dev ?d 8)) = ?d"
    by (simp_all add: find_proto_def t_def plain_dev_def)
  have e: "call arp_rx_handler (eth_pad [1, 2, 3]) 3 t = Inr (t\<lparr>sys_fds := [46, 3]\<rparr>)" "sys_sent s = []"
    by (simp_all add: call_def eth_pad_def s_def net_init_def)
  have "\<exists>frame ret. sys_sent s' = [(7, frame, ret)] \<and> ethernet_rx Big call 3 frame t = Inr (t\<lparr>sys_fds := [46, 3]\<rparr>)"
    using ethernet_tx_rx [OF o _ _ tx(1) p(2) p(1), of Big call] f e by auto
  with tx show ?thesis unfolding s_def t_def call_def Let_def by blast
qed

section \<open>Opening and closing\<close>

lemma rawdev_alloc_tick: "rawdev_alloc os ty nm s = (r, s') \<Longrightarrow> \<exists>t. s' = s\<lparr>sys_tick := t\<rparr>"
  by (auto simp: rawdev_alloc_def sys_malloc_def Let_def split: option.splits if_splits)

lemma ethernet_open_cases:
  assumes run: "ethernet_open os self d opt s = Inr (r, s1)"
    and dev: "net_devs s d = Some dev" "length (nd_addr dev) = 16"
  shows "r = -1 \<and> (\<exists>t. s1 = s\<lparr>sys_tick := t\<rparr>) \<or>
         r = 0 \<and> (\<exists>fd t addr bcast raw. fd \<noteq> -1 \<and> rd_priv raw = Some fd \<and> length addr = 16 \<and>
           (take 6 (nd_addr dev) \<noteq> ETHERNET_ADDR_ANY \<longrightarrow> addr = nd_addr dev) \<and>
           s1 = s\<lparr>sys_fds := fd # sys_fds s, sys_tick := t,
                 net_devs := (net_devs s)(d \<mapsto> dev\<lparr>nd_priv := Some \<lparr>ep_raw = Some raw, ep_thread = self, ep_terminate = False\<rparr>,
                   nd_addr := addr, nd_broadcast := bcast\<rparr>)\<rparr>)"
proof -
  let ?k = "s\<lparr>sys_tick := Suc (sys_tick s)\<rparr>"
  obtain raw s2 where ra: "rawdev_alloc os (word_of_int opt) (nd_name dev) ?k = (raw, s2)" by fastforce
  then obtain t2 where t2: "s2 = s\<lparr>sys_tick := t2\<rparr>" using rawdev_alloc_tick by fastforce
  consider (fail) "\<not> os_malloc os (sys_tick s)" | (noraw) "raw = None" "os_malloc os (sys_tick s)"
    | (raw) w where "raw = Some w" "os_malloc os (sys_tick s)" by (cases raw) auto
  then show ?thesis
  proof cases
    case fail
    then show ?thesis using run by (auto simp: ethernet_open_def sys_malloc_def)
  next
    case noraw
    then show ?thesis using run dev ra t2 by (auto simp: ethernet_open_def sys_malloc_def)
  next
    case (raw w)
    then obtain ro w' s3 where ro: "raw_open os w s2 = Inr (ro, w', s3)"
      using run dev ra by (auto simp: ethernet_open_def sys_malloc_def bindr_Inr_iff)
    show ?thesis
    proof (cases "ro = -1")
      case True
      then show ?thesis using run dev ra raw ro raw_open_fail [of os w s2 w' s3] t2
        by (auto simp: ethernet_open_def sys_malloc_def)
    next
      case False
      from raw_open_ok [OF ro this] obtain fd t3 where fd: "fd \<noteq> -1" "w' = w\<lparr>rd_priv := Some fd\<rparr>"
        "s3 = s\<lparr>sys_fds := fd # sys_fds s, sys_tick := t3\<rparr>" using t2 by auto
      then obtain x addr s4 bcast where
        ad: "(if take 6 (nd_addr dev) = ETHERNET_ADDR_ANY then raw_addr os w' (nd_addr dev) 6 s3
              else Inr (0, nd_addr dev, s3)) = Inr (x, addr, s4)"
        and r: "r = 0" "s1 = s4\<lparr>net_devs := (net_devs s4)(d \<mapsto> dev\<lparr>nd_priv := Some \<lparr>ep_raw = Some w',
            ep_thread = self, ep_terminate = False\<rparr>, nd_addr := addr, nd_broadcast := bcast\<rparr>)\<rparr>"
        using run dev ra raw ro False by (auto simp: ethernet_open_def sys_malloc_def bindr_Inr_iff Let_def)
      have "length addr = 16 \<and> (\<exists>t. s4 = s3\<lparr>sys_tick := t\<rparr>) \<and> (take 6 (nd_addr dev) \<noteq> ETHERNET_ADDR_ANY \<longrightarrow> addr = nd_addr dev)"
        using ad raw_addr_law [of os w' "nd_addr dev" 6 s3] dev(2) by (simp split: if_splits)
      then obtain t4 where "length addr = 16" "take 6 (nd_addr dev) \<noteq> ETHERNET_ADDR_ANY \<longrightarrow> addr = nd_addr dev" "s4 = s\<lparr>sys_fds := fd # sys_fds s, sys_tick := t4\<rparr>"
        using fd(3) by auto
      then show ?thesis
        using r fd by (intro disjI2 conjI exI [of _ fd] exI [of _ t4] exI [of _ addr] exI [of _ bcast]
            exI [of _ w']) simp_all
    qed
  qed
qed

text \<open>
  Property C27: an open that fails leaves the device and the open descriptors as they were. One
  that succeeds makes the device ready to send, and closing it from the same thread releases its
  descriptor and its private data and keeps every other device.
\<close>

theorem ethernet_open_close:
  assumes "ethernet_open os self d opt s = Inr (r, s1)"
    and "net_devs s d = Some dev" "length (nd_addr dev) = 16"
  shows "r = -1 \<and> net_devs s1 = net_devs s \<and> sys_fds s1 = sys_fds s \<or>
    r = 0 \<and> (\<exists>addr fd s2 dev2. dev_open s1 d addr fd \<and> sys_fds s1 = fd # sys_fds s \<and>
      ethernet_close join self (Some d) s1 = Inr (0, s2) \<and> sys_fds s2 = sys_fds s \<and>
      net_devs s2 = (net_devs s)(d \<mapsto> dev2) \<and> nd_priv dev2 = None)"
  using ethernet_open_cases [OF assms]
proof
  assume "r = 0 \<and> (\<exists>fd t addr bcast raw. fd \<noteq> -1 \<and> rd_priv raw = Some fd \<and> length addr = 16 \<and>
           (take 6 (nd_addr dev) \<noteq> ETHERNET_ADDR_ANY \<longrightarrow> addr = nd_addr dev) \<and>
           s1 = s\<lparr>sys_fds := fd # sys_fds s, sys_tick := t,
                 net_devs := (net_devs s)(d \<mapsto> dev\<lparr>nd_priv := Some \<lparr>ep_raw = Some raw, ep_thread = self, ep_terminate = False\<rparr>,
                   nd_addr := addr, nd_broadcast := bcast\<rparr>)\<rparr>)"
  then obtain fd t addr bcast raw where r: "r = 0" "fd \<noteq> -1" "rd_priv raw = Some fd" "length addr = 16"
    and s1: "s1 = s\<lparr>sys_fds := fd # sys_fds s, sys_tick := t,
                 net_devs := (net_devs s)(d \<mapsto> dev\<lparr>nd_priv := Some \<lparr>ep_raw = Some raw, ep_thread = self, ep_terminate = False\<rparr>,
                   nd_addr := addr, nd_broadcast := bcast\<rparr>)\<rparr>" by blast
  have "dev_open s1 d (take 6 addr) fd" using r by (simp add: s1 dev_open_def dev_fd_def)
  moreover have "\<exists>s2 dev2. ethernet_close join self (Some d) s1 = Inr (0, s2) \<and> sys_fds s2 = sys_fds s \<and>
      net_devs s2 = (net_devs s)(d \<mapsto> dev2) \<and> nd_priv dev2 = None"
    using r by (simp add: s1 ethernet_close_def raw_close_fd sys_close_def set_priv_def)
      (rule exI [of _ "dev\<lparr>nd_addr := addr, nd_broadcast := bcast, nd_priv := None\<rparr>"], simp)
  ultimately show ?thesis using r(1) by (simp add: s1) blast
qed auto

theorem ethernet_open_close_witness:
  "\<exists>s1 addr. ethernet_open (plain_os 0 7) 0 5 0 (net_init\<lparr>net_devs := [5 \<mapsto> (plain_dev [2, 0, 0, 0, 0, 1] 3)\<lparr>nd_priv := None\<rparr>]\<rparr>)
      = Inr (0, s1) \<and> dev_open s1 5 addr 7 \<and> sys_fds s1 = [7] \<and>
     (\<exists>s2. ethernet_close (\<lambda>s. s) 0 (Some 5) s1 = Inr (0, s2) \<and> sys_fds s2 = [])"
proof -
  define dev where "dev = (plain_dev [2, 0, 0, 0, 0, 1] 3)\<lparr>nd_priv := None\<rparr>"
  let ?s = "net_init\<lparr>net_devs := [5 \<mapsto> dev]\<rparr>"
  have d: "net_devs ?s 5 = Some dev" "length (nd_addr dev) = 16" by (simp_all add: dev_def plain_dev_def)
  obtain s1 where s1: "ethernet_open (plain_os 0 7) 0 5 0 ?s = Inr (0, s1)" "sys_fds s1 = [7]"
    by (simp add: ethernet_open_def sys_defs rawdev_alloc_def rawdev_detect_type_def raw_open_def tap_dev_open_def
        dev_def plain_dev_def mem_write_def net_init_def ETHERNET_ADDR_ANY_def)
  show ?thesis
    using ethernet_open_close [OF s1(1) d, of "\<lambda>s. s"] s1 unfolding dev_def [symmetric]
    by (auto simp: net_init_def)
qed

end
