(* ===== verification/Arp.thy ===== *)
theory Arp
  imports Ethernet
begin

text \<open>
  Address resolution, \<open>arp.c\<close>: the table, the messages, the receive handler and
  \<open>arp_resolve\<close>. Protocol addresses are \<open>ip_addr_t\<close>, a word in network byte order as it lies
  in memory. An entry of the table is its index. A broadcast on a condition variable changes no
  data; what other threads do while \<open>arp_resolve\<close> waits is a parameter.
\<close>

type_synonym ip_addr_t = u32

abbreviation (input) ARP_HRD_ETHERNET :: u16 where "ARP_HRD_ETHERNET \<equiv> 0x0001"
abbreviation (input) ARP_OP_REQUEST :: u16 where "ARP_OP_REQUEST \<equiv> 1"
abbreviation (input) ARP_OP_REPLY :: u16 where "ARP_OP_REPLY \<equiv> 2"
abbreviation (input) ARP_TABLE_SIZE :: nat where "ARP_TABLE_SIZE \<equiv> 4096"
abbreviation (input) ARP_TABLE_TIMEOUT_SEC :: int where "ARP_TABLE_TIMEOUT_SEC \<equiv> 300"
abbreviation (input) ETHERNET_TYPE_IP :: u16 where "ETHERNET_TYPE_IP \<equiv> 0x0800"
abbreviation (input) ETHERNET_TYPE_ARP :: u16 where "ETHERNET_TYPE_ARP \<equiv> 0x0806"
abbreviation (input) IP_ADDR_LEN :: u8 where "IP_ADDR_LEN \<equiv> 4"
abbreviation (input) ARP_RESOLVE_ERROR :: int where "ARP_RESOLVE_ERROR \<equiv> -1"
abbreviation (input) ARP_RESOLVE_QUERY :: int where "ARP_RESOLVE_QUERY \<equiv> 0"
abbreviation (input) ARP_RESOLVE_FOUND :: int where "ARP_RESOLVE_FOUND \<equiv> 1"

section \<open>Messages\<close>

record arp_ethernet =
  arp_hrd :: u16
  arp_pro :: u16
  arp_hln :: u8
  arp_pln :: u8
  arp_op :: u16
  arp_sha :: bytes
  arp_spa :: ip_addr_t
  arp_tha :: bytes
  arp_tpa :: ip_addr_t

definition enc_arp :: "endian \<Rightarrow> arp_ethernet \<Rightarrow> bytes" where
  "enc_arp e m =
     bytes16 e (arp_hrd m) @ bytes16 e (arp_pro m) @ [arp_hln m, arp_pln m] @ bytes16 e (arp_op m) @
     arp_sha m @ bytes32 e (arp_spa m) @ arp_tha m @ bytes32 e (arp_tpa m)"

definition dec_arp :: "endian \<Rightarrow> bytes \<Rightarrow> arp_ethernet" where
  "dec_arp e bs =
     \<lparr>arp_hrd = load16 e (bs ! 0) (bs ! 1), arp_pro = load16 e (bs ! 2) (bs ! 3),
      arp_hln = bs ! 4, arp_pln = bs ! 5, arp_op = load16 e (bs ! 6) (bs ! 7),
      arp_sha = take 6 (drop 8 bs), arp_spa = load32 e (bs ! 14) (bs ! 15) (bs ! 16) (bs ! 17),
      arp_tha = take 6 (drop 18 bs), arp_tpa = load32 e (bs ! 24) (bs ! 25) (bs ! 26) (bs ! 27)\<rparr>"

definition wf_arp :: "arp_ethernet \<Rightarrow> bool" where
  "wf_arp m \<longleftrightarrow> length (arp_sha m) = 6 \<and> length (arp_tha m) = 6"

lemma enc_arp_split:
  assumes "wf_arp m"
  shows "\<exists>h0 h1 p0 p1 o0 o1 x0 x1 x2 x3 x4 x5 s0 s1 s2 s3 y0 y1 y2 y3 y4 y5 t0 t1 t2 t3.
    enc_arp e m = [h0, h1, p0, p1, arp_hln m, arp_pln m, o0, o1, x0, x1, x2, x3, x4, x5, s0, s1, s2, s3,
      y0, y1, y2, y3, y4, y5, t0, t1, t2, t3] \<and>
    load16 e h0 h1 = arp_hrd m \<and> load16 e p0 p1 = arp_pro m \<and> load16 e o0 o1 = arp_op m \<and>
    arp_sha m = [x0, x1, x2, x3, x4, x5] \<and> load32 e s0 s1 s2 s3 = arp_spa m \<and>
    arp_tha m = [y0, y1, y2, y3, y4, y5] \<and> load32 e t0 t1 t2 t3 = arp_tpa m"
proof -
  obtain h0 h1 where h: "bytes16 e (arp_hrd m) = [h0, h1]" "load16 e h0 h1 = arp_hrd m" by (rule bytes16_cases)
  obtain p0 p1 where p: "bytes16 e (arp_pro m) = [p0, p1]" "load16 e p0 p1 = arp_pro m" by (rule bytes16_cases)
  obtain o0 o1 where o: "bytes16 e (arp_op m) = [o0, o1]" "load16 e o0 o1 = arp_op m" by (rule bytes16_cases)
  obtain s0 s1 s2 s3 where s: "bytes32 e (arp_spa m) = [s0, s1, s2, s3]" "load32 e s0 s1 s2 s3 = arp_spa m"
    by (rule bytes32_cases)
  obtain t0 t1 t2 t3 where t: "bytes32 e (arp_tpa m) = [t0, t1, t2, t3]" "load32 e t0 t1 t2 t3 = arp_tpa m"
    by (rule bytes32_cases)
  obtain x0 x1 x2 x3 x4 x5 where x: "arp_sha m = [x0, x1, x2, x3, x4, x5]"
    using assms by (auto simp: wf_arp_def numeral_eq_Suc length_Suc_conv)
  obtain y0 y1 y2 y3 y4 y5 where y: "arp_tha m = [y0, y1, y2, y3, y4, y5]"
    using assms by (auto simp: wf_arp_def numeral_eq_Suc length_Suc_conv)
  show ?thesis
    by (intro exI conjI) (auto simp: enc_arp_def h p o s t x y)
qed

interpretation arpf: wire_format "enc_arp e" "dec_arp e" 28 wf_arp for e
proof unfold_locales
  fix m assume w: "wf_arp m"
  then show "length (enc_arp e m) = 28" by (simp add: enc_arp_def wf_arp_def)
  show "dec_arp e (enc_arp e m) = m"
    using enc_arp_split [OF w, of e] by (elim exE conjE) (simp add: dec_arp_def)
next
  fix bs :: bytes assume l: "length bs = 28"
  then show "enc_arp e (dec_arp e bs) = bs"
    by (auto simp: numeral_eq_Suc length_Suc_conv enc_arp_def dec_arp_def bytes16_load16 bytes32_load32)
next
  fix bs :: bytes assume l: "28 \<le> length bs"
  show "wf_arp (dec_arp e bs)" using l by (simp add: wf_arp_def dec_arp_def)
  show "dec_arp e (bs @ rest) = dec_arp e bs" for rest
    using l by (auto simp: dec_arp_def nth_append)
qed

section \<open>The table\<close>

record arp_entry =
  ae_used :: bool
  ae_pa :: ip_addr_t
  ae_ha :: bytes
  ae_timestamp :: int
  ae_data :: "bytes option"
  ae_len :: nat
  ae_netif :: "nat option"

record arp = net +
  arp_tbl :: "arp_entry list"
  arp_timestamp :: int

definition arp_entry_zero :: arp_entry where
  "arp_entry_zero = \<lparr>ae_used = False, ae_pa = 0, ae_ha = ETHERNET_ADDR_ANY, ae_timestamp = 0,
     ae_data = None, ae_len = 0, ae_netif = None\<rparr>"

definition arp_table_freespace :: "arp_entry list \<Rightarrow> nat option" where
  "arp_table_freespace tbl = first_index (\<lambda>entry. \<not> ae_used entry) tbl"

definition arp_table_select :: "arp_entry list \<Rightarrow> ip_addr_t \<Rightarrow> nat option" where
  "arp_table_select tbl pa = first_index (\<lambda>entry. ae_used entry \<and> ae_pa entry = pa) tbl"

definition set_entry :: "nat \<Rightarrow> arp_entry \<Rightarrow> 'a arp_scheme \<Rightarrow> 'a arp_scheme" where
  "set_entry i entry s = s\<lparr>arp_tbl := (arp_tbl s)[i := entry]\<rparr>"

definition arp_table_insert ::
  "os \<Rightarrow> ip_addr_t \<Rightarrow> bytes \<Rightarrow> 'a arp_scheme \<Rightarrow> int \<times> 'a arp_scheme" where
  "arp_table_insert os pa ha s =
     (case arp_table_freespace (arp_tbl s) of
        None \<Rightarrow> (-1, s)
      | Some i \<Rightarrow>
          let (now, s) = sys_time os s in
          (0, set_entry i ((arp_tbl s ! i)\<lparr>ae_used := True, ae_pa := pa, ae_ha := take 6 ha,
                ae_timestamp := now\<rparr>) s))"

text \<open>The packet saved in an entry, sent with the resolved address.\<close>

definition arp_flush :: "os \<Rightarrow> nat \<Rightarrow> arp_entry \<Rightarrow> bytes \<Rightarrow> 'a arp_scheme \<Rightarrow> 'a arp_scheme res" where
  "arp_flush os dev entry data s =
     (case ae_netif entry of
        None \<Rightarrow> Inl NullDeref
      | Some i \<Rightarrow>
          bindr (deref (net_ifs s) i) (\<lambda>netif.
          case (if if_dev netif \<noteq> Some dev then if_dev netif else Some dev) of
            None \<Rightarrow> Inl NullDeref
          | Some dev \<Rightarrow>
              bindr (mem_read data 0 (ae_len entry)) (\<lambda>data.
              bindr (netdev_tx os dev ETHERNET_TYPE_IP (Some data) (Some (ae_ha entry)) s) (\<lambda>(_, s).
              Inr s))))"

definition arp_table_update ::
  "os \<Rightarrow> nat \<Rightarrow> ip_addr_t \<Rightarrow> bytes \<Rightarrow> 'a arp_scheme \<Rightarrow> (int \<times> 'a arp_scheme) res" where
  "arp_table_update os dev pa ha s =
     (case arp_table_select (arp_tbl s) pa of
        None \<Rightarrow> Inr (-1, s)
      | Some i \<Rightarrow>
          let (now, s) = sys_time os s;
              entry = (arp_tbl s ! i)\<lparr>ae_ha := take 6 ha, ae_timestamp := now\<rparr> in
          (case ae_data entry of
             None \<Rightarrow> Inr (0, set_entry i entry s)
           | Some data \<Rightarrow>
               bindr (arp_flush os dev entry data s) (\<lambda>s.
               Inr (0, set_entry i (entry\<lparr>ae_data := None, ae_len := 0\<rparr>) s))))"

definition arp_entry_clear :: "arp_entry \<Rightarrow> arp_entry" where
  "arp_entry_clear entry =
     (let entry = entry\<lparr>ae_used := False, ae_pa := 0, ae_ha := ETHERNET_ADDR_ANY, ae_timestamp := 0\<rparr>;
          entry = (if ae_data entry \<noteq> None then entry\<lparr>ae_data := None, ae_len := 0\<rparr> else entry)
      in entry\<lparr>ae_netif := None\<rparr>)"

definition arp_table_patrol :: "'a arp_scheme \<Rightarrow> 'a arp_scheme" where
  "arp_table_patrol s =
     s\<lparr>arp_tbl := map (\<lambda>entry.
        if ae_used entry \<and> arp_timestamp s - ae_timestamp entry > ARP_TABLE_TIMEOUT_SEC
        then arp_entry_clear entry else entry) (arp_tbl s)\<rparr>"

section \<open>Sending\<close>

definition arp_send_request ::
  "os \<Rightarrow> nat \<Rightarrow> ip_addr_t option \<Rightarrow> 'a arp_scheme \<Rightarrow> (int \<times> 'a arp_scheme) res" where
  "arp_send_request os netif tpa s =
     (case tpa of
        None \<Rightarrow> Inr (-1, s)
      | Some tpa \<Rightarrow>
          bindr (deref (net_ifs s) netif) (\<lambda>iface.
          case if_dev iface of
            None \<Rightarrow> Inl NullDeref
          | Some d \<Rightarrow>
              bindr (deref (net_devs s) d) (\<lambda>dev.
              bindr (mem_read (nd_addr dev) 0 ETHERNET_ADDR_LEN) (\<lambda>addr.
              let e = os_endian os;
                  request = \<lparr>arp_hrd = hton16 e ARP_HRD_ETHERNET, arp_pro = hton16 e ETHERNET_TYPE_IP,
                    arp_hln = 6, arp_pln = IP_ADDR_LEN, arp_op = hton16 e ARP_OP_REQUEST,
                    arp_sha = addr, arp_spa = unicast iface,
                    arp_tha = replicate 6 0, arp_tpa = tpa\<rparr> in
              bindr (netdev_tx os d ETHERNET_TYPE_ARP (Some (enc_arp e request))
                       (Some ETHERNET_ADDR_BROADCAST) s) (\<lambda>(r, s).
              Inr (if r = -1 then -1 else 0, s))))))"

definition arp_send_reply ::
  "os \<Rightarrow> nat \<Rightarrow> bytes option \<Rightarrow> ip_addr_t option \<Rightarrow> bytes \<Rightarrow> 'a arp_scheme \<Rightarrow> (int \<times> 'a arp_scheme) res" where
  "arp_send_reply os netif tha tpa dst s =
     (case (tha, tpa) of
        (Some tha, Some tpa) \<Rightarrow>
          bindr (deref (net_ifs s) netif) (\<lambda>iface.
          case if_dev iface of
            None \<Rightarrow> Inl NullDeref
          | Some d \<Rightarrow>
              bindr (deref (net_devs s) d) (\<lambda>dev.
              bindr (mem_read (nd_addr dev) 0 ETHERNET_ADDR_LEN) (\<lambda>addr.
              bindr (mem_read tha 0 ETHERNET_ADDR_LEN) (\<lambda>tha.
              let e = os_endian os;
                  reply = \<lparr>arp_hrd = hton16 e ARP_HRD_ETHERNET, arp_pro = hton16 e ETHERNET_TYPE_IP,
                    arp_hln = 6, arp_pln = IP_ADDR_LEN, arp_op = hton16 e ARP_OP_REPLY,
                    arp_sha = addr, arp_spa = unicast iface, arp_tha = tha, arp_tpa = tpa\<rparr> in
              bindr (netdev_tx os d ETHERNET_TYPE_ARP (Some (enc_arp e reply)) (Some dst) s) (\<lambda>(r, s).
              Inr (if r < 0 then -1 else 0, s))))))
      | _ \<Rightarrow> Inr (-1, s))"

section \<open>Receiving\<close>

text \<open>\<open>arp_rx\<close> takes the lock twice. The first critical section: patrol and update.\<close>

definition arp_rx_patrol :: "os \<Rightarrow> 'a arp_scheme \<Rightarrow> 'a arp_scheme" where
  "arp_rx_patrol os s =
     (let (now, s) = sys_time os s
      in if now - arp_timestamp s > 10 then arp_table_patrol (s\<lparr>arp_timestamp := now\<rparr>) else s)"

definition arp_rx_update ::
  "os \<Rightarrow> arp_ethernet \<Rightarrow> nat \<Rightarrow> 'a arp_scheme \<Rightarrow> (bool \<times> 'a arp_scheme) res" where
  "arp_rx_update os message dev s =
     bindr (arp_table_update os dev (arp_spa message) (arp_sha message) (arp_rx_patrol os s)) (\<lambda>(r, s).
     Inr (r = 0, s))"

text \<open>What follows it: the second critical section and the reply.\<close>

definition arp_rx_target ::
  "os \<Rightarrow> arp_ethernet \<Rightarrow> nat \<Rightarrow> bool \<Rightarrow> 'a arp_scheme \<Rightarrow> 'a arp_scheme res" where
  "arp_rx_target os message dev marge s =
     bindr (netdev_get_netif dev (uint NETIF_FAMILY_IPV4) s) (\<lambda>netif.
       case netif of
         None \<Rightarrow> Inr s
       | Some i \<Rightarrow>
           bindr (deref (net_ifs s) i) (\<lambda>iface.
           if unicast iface = arp_tpa message then
             let s = (if \<not> marge then snd (arp_table_insert os (arp_spa message) (arp_sha message) s) else s) in
             if ntoh16 (os_endian os) (arp_op message) = ARP_OP_REQUEST
             then bindr (arp_send_reply os i (Some (arp_sha message)) (Some (arp_spa message)) (arp_sha message) s)
                    (\<lambda>(_, s). Inr s)
             else Inr s
           else Inr s))"

definition arp_valid :: "endian \<Rightarrow> bytes \<Rightarrow> bool" where
  "arp_valid e packet \<longleftrightarrow>
     \<not> length packet < 28 \<and>
     (let message = dec_arp e packet in
      ntoh16 e (arp_hrd message) = ARP_HRD_ETHERNET \<and> ntoh16 e (arp_pro message) = ETHERNET_TYPE_IP \<and>
      arp_hln message = 6 \<and> arp_pln message = IP_ADDR_LEN)"

definition arp_rx :: "os \<Rightarrow> bytes \<Rightarrow> nat \<Rightarrow> 'a arp_scheme \<Rightarrow> 'a arp_scheme res" where
  "arp_rx os packet dev s =
     (if \<not> arp_valid (os_endian os) packet then Inr s else
      let message = dec_arp (os_endian os) packet in
      bindr (arp_rx_update os message dev s) (\<lambda>(marge, s).
      arp_rx_target os message dev marge s))"

section \<open>Resolving\<close>

datatype wait_ret = Woken | ETIMEDOUT | EINTR

text \<open>
  The wait loop. \<open>wait\<close> lists the returns of \<open>pthread_cond_timedwait\<close>, each with what other
  threads did to the state meanwhile; a list that ends in the loop is a wait that goes on.
\<close>

fun arp_wait :: "(wait_ret \<times> ('s \<Rightarrow> 's)) list \<Rightarrow> 's \<Rightarrow> (wait_ret \<times> 's) res" where
  "arp_wait [] s = Inl Blocked"
| "arp_wait ((ret, others) # ws) s = (if ret = EINTR then arp_wait ws (others s) else Inr (ret, others s))"

text \<open>The second component of the result is what is stored through \<open>ha\<close>.\<close>

definition arp_resolve ::
  "os \<Rightarrow> (nat \<Rightarrow> (wait_ret \<times> ('a arp_scheme \<Rightarrow> 'a arp_scheme)) list) \<Rightarrow> nat \<Rightarrow> ip_addr_t \<Rightarrow> bytes option \<Rightarrow>
     'a arp_scheme \<Rightarrow> (int \<times> bytes option \<times> 'a arp_scheme) res" where
  "arp_resolve os wait netif pa data s =
     (let (_, s) = sys_timeofday os s in
      case arp_table_select (arp_tbl s) pa of
        Some i \<Rightarrow>
          if ae_ha (arp_tbl s ! i) = ETHERNET_ADDR_ANY then
            bindr (arp_send_request os netif (Some pa) s) (\<lambda>(_, s).
            bindr (arp_wait (wait (sys_tick s)) s) (\<lambda>(ret, s).
            let entry = arp_tbl s ! i in
            if \<not> ae_used entry \<or> ret = ETIMEDOUT
            then Inr (ARP_RESOLVE_ERROR, None,
                      if ae_used entry then set_entry i (arp_entry_clear entry) s else s)
            else Inr (ARP_RESOLVE_FOUND, Some (ae_ha entry), s)))
          else Inr (ARP_RESOLVE_FOUND, Some (ae_ha (arp_tbl s ! i)), s)
      | None \<Rightarrow>
          (case arp_table_freespace (arp_tbl s) of
             None \<Rightarrow> Inr (ARP_RESOLVE_ERROR, None, s)
           | Some i \<Rightarrow>
               let (blk, s) = (if data \<noteq> None then sys_malloc os s else (None, s)) in
               if data \<noteq> None \<and> blk = None then Inr (ARP_RESOLVE_ERROR, None, s) else
               let entry = arp_tbl s ! i;
                   entry = (case data of None \<Rightarrow> entry | Some d \<Rightarrow> entry\<lparr>ae_data := Some d, ae_len := length d\<rparr>);
                   (now, s) = sys_time os s;
                   s = set_entry i (entry\<lparr>ae_used := True, ae_pa := pa, ae_timestamp := now, ae_netif := Some netif\<rparr>) s
               in bindr (arp_send_request os netif (Some pa) s) (\<lambda>(_, s).
                  Inr (ARP_RESOLVE_QUERY, None, s))))"

text \<open>The table is static storage, zero before the first call.\<close>

definition arp_init :: "os \<Rightarrow> 'a arp_scheme \<Rightarrow> int \<times> 'a arp_scheme" where
  "arp_init os s =
     (let (now, s) = sys_time os s;
          (_, s) = netdev_proto_register os NETDEV_PROTO_ARP arp_rx_handler (s\<lparr>arp_timestamp := now\<rparr>)
      in (0, s))"

section \<open>The invariant of the table\<close>

text \<open>
  An entry that is not used holds no address, packet or interface; a saved packet has its length
  beside it and an interface to leave through. No two used entries are for the same address.
\<close>

definition entry_ok :: "arp_entry \<Rightarrow> bool" where
  "entry_ok en \<longleftrightarrow>
     length (ae_ha en) = 6 \<and>
     (case ae_data en of
        None \<Rightarrow> ae_len en = 0
      | Some d \<Rightarrow> ae_used en \<and> ae_len en = length d \<and> ae_netif en \<noteq> None) \<and>
     (ae_used en \<or> ae_ha en = ETHERNET_ADDR_ANY \<and> ae_netif en = None)"

definition same_pa :: "arp_entry \<Rightarrow> arp_entry \<Rightarrow> bool" where
  "same_pa a b \<longleftrightarrow> ae_used a \<and> ae_used b \<and> ae_pa a = ae_pa b"

definition tbl_ok :: "arp_entry list \<Rightarrow> bool" where
  "tbl_ok tbl \<longleftrightarrow>
     length tbl = ARP_TABLE_SIZE \<and> (\<forall>i < length tbl. entry_ok (tbl ! i)) \<and>
     (\<forall>i < length tbl. \<forall>j < length tbl. same_pa (tbl ! i) (tbl ! j) \<longrightarrow> i = j)"

definition arp_inv :: "'a arp_scheme \<Rightarrow> bool" where
  "arp_inv s \<longleftrightarrow> tbl_ok (arp_tbl s)"

lemma tbl_ok_update:
  assumes "tbl_ok tbl" "entry_ok en" "\<And>j. j < length tbl \<Longrightarrow> j \<noteq> i \<Longrightarrow> \<not> same_pa en (tbl ! j)"
  shows "tbl_ok (tbl[i := en])"
proof -
  have "\<not> same_pa (tbl ! j) en" if "j < length tbl" "j \<noteq> i" for j
    using assms(3) [OF that] by (auto simp: same_pa_def)
  then show ?thesis using assms
    by (cases "i < length tbl") (auto simp: tbl_ok_def nth_list_update split: if_splits)
qed

lemma tbl_ok_map:
  assumes "tbl_ok tbl" "\<And>en. entry_ok en \<Longrightarrow> entry_ok (f en)" "\<And>en. ae_used (f en) \<Longrightarrow> f en = en"
  shows "tbl_ok (map f tbl)"
  using assms unfolding tbl_ok_def same_pa_def by (metis length_map nth_map)

lemma select_SomeD:
  "arp_table_select tbl pa = Some i \<Longrightarrow> i < length tbl \<and> ae_used (tbl ! i) \<and> ae_pa (tbl ! i) = pa"
  using first_index_SomeD unfolding arp_table_select_def by fastforce

lemma select_iff:
  assumes "tbl_ok tbl"
  shows "arp_table_select tbl pa = Some i \<longleftrightarrow> i < length tbl \<and> ae_used (tbl ! i) \<and> ae_pa (tbl ! i) = pa"
proof
  assume r: "i < length tbl \<and> ae_used (tbl ! i) \<and> ae_pa (tbl ! i) = pa"
  show "arp_table_select tbl pa = Some i"
    unfolding arp_table_select_def
    using r assms by (intro first_index_unique) (auto simp: tbl_ok_def same_pa_def)
qed (rule select_SomeD)

lemma select_None_iff:
  "arp_table_select tbl pa = None \<longleftrightarrow> (\<forall>en \<in> set tbl. ae_used en \<longrightarrow> ae_pa en \<noteq> pa)"
  by (simp add: arp_table_select_def first_index_None_iff)

lemma freespace_SomeD: "arp_table_freespace tbl = Some i \<Longrightarrow> i < length tbl \<and> \<not> ae_used (tbl ! i)"
  using first_index_SomeD unfolding arp_table_freespace_def by fastforce

lemma clear_simps [simp]:
  "ae_used (arp_entry_clear en) = False" "ae_pa (arp_entry_clear en) = 0"
  "ae_ha (arp_entry_clear en) = ETHERNET_ADDR_ANY" "ae_data (arp_entry_clear en) = None"
  "ae_netif (arp_entry_clear en) = None" "ae_timestamp (arp_entry_clear en) = 0"
  by (simp_all add: arp_entry_clear_def Let_def)

lemma clear_ok: "entry_ok en \<Longrightarrow> entry_ok (arp_entry_clear en)"
  by (auto simp: entry_ok_def arp_entry_clear_def Let_def split: option.splits)

lemma set_entry_simps [simp]:
  "arp_tbl (set_entry i en s) = (arp_tbl s)[i := en]" "net_ifs (set_entry i en s) = net_ifs s"
  "net_devs (set_entry i en s) = net_devs s" "sys_tick (set_entry i en s) = sys_tick s"
  "sys_sent (set_entry i en s) = sys_sent s" "protos (set_entry i en s) = protos s"
  by (simp_all add: set_entry_def)

lemma sends_arp [simp]:
  assumes "sends s s'"
  shows "arp_tbl s' = arp_tbl s" "arp_timestamp s' = arp_timestamp s"
  using assms by (auto simp: sends_def)

lemma arp_inv_patrol: "arp_inv s \<Longrightarrow> arp_inv (arp_table_patrol s)"
  unfolding arp_inv_def arp_table_patrol_def
  by (auto intro!: tbl_ok_map clear_ok split: if_splits)

lemma arp_inv_insert:
  assumes "arp_inv s" "arp_table_select (arp_tbl s) pa = None" "6 \<le> length ha"
  shows "arp_inv (snd (arp_table_insert os pa ha s))"
proof (cases "arp_table_freespace (arp_tbl s)")
  case (Some i)
  let ?en = "(arp_tbl s ! i)\<lparr>ae_used := True, ae_pa := pa, ae_ha := take 6 ha, ae_timestamp := os_time os (sys_tick s)\<rparr>"
  have "entry_ok (arp_tbl s ! i)" "\<not> ae_used (arp_tbl s ! i)"
    using freespace_SomeD [OF Some] assms(1) by (auto simp: arp_inv_def tbl_ok_def)
  then have "entry_ok ?en" using assms(3) by (auto simp: entry_ok_def split: option.splits)
  moreover have "\<not> same_pa ?en (arp_tbl s ! j)" if "j < length (arp_tbl s)" for j
    using assms(2) that by (auto simp: select_None_iff same_pa_def)
  ultimately have "tbl_ok ((arp_tbl s)[i := ?en])"
    using assms(1) by (intro tbl_ok_update) (auto simp: arp_inv_def)
  then show ?thesis using Some by (simp add: arp_table_insert_def sys_time_def arp_inv_def)
qed (use assms in \<open>simp add: arp_table_insert_def\<close>)

section \<open>The handler never faults and keeps the invariant\<close>

text \<open>The interfaces in the table are attached to open devices.\<close>

definition arp_live :: "'a arp_scheme \<Rightarrow> bool" where
  "arp_live s \<longleftrightarrow>
     (\<forall>en \<in> set (arp_tbl s). case ae_netif en of None \<Rightarrow> True | Some i \<Rightarrow> netif_ready s i)"

lemma arp_live_cong: "same_net s s' \<Longrightarrow> arp_tbl s' = arp_tbl s \<Longrightarrow> arp_live s' = arp_live s"
  by (auto simp: arp_live_def ready_cong split: option.splits)

lemma arp_live_from:
  assumes "arp_live s" "same_net s s'"
    "\<And>en. en \<in> set (arp_tbl s') \<Longrightarrow> ae_netif en = None \<or> (\<exists>en' \<in> set (arp_tbl s). ae_netif en = ae_netif en')"
  shows "arp_live s'"
  unfolding arp_live_def
proof
  fix en assume "en \<in> set (arp_tbl s')"
  from assms(3) [OF this] show "case ae_netif en of None \<Rightarrow> True | Some i \<Rightarrow> netif_ready s' i"
    using assms(1) by (auto simp: arp_live_def ready_cong [OF assms(2)] split: option.splits)
qed

lemma same_net_set_entry: "same_net s (set_entry i en s)"
  by (simp add: same_net_def set_entry_def)

lemma arp_live_update:
  assumes "arp_live s" "ae_netif en = None \<or> (\<exists>j < length (arp_tbl s). ae_netif en = ae_netif (arp_tbl s ! j))"
  shows "arp_live (set_entry i en s)"
proof -
  have r: "netif_ready (set_entry i en s) k = netif_ready s k" for k
    by (rule ready_cong) (rule same_net_set_entry)
  have "(case ae_netif en of None \<Rightarrow> True | Some k \<Rightarrow> netif_ready s k)"
    using assms nth_mem [of _ "arp_tbl s"] unfolding arp_live_def by (fastforce split: option.splits)
  then show ?thesis using assms(1) set_update_subset_insert [of "arp_tbl s" i en]
    by (auto simp: arp_live_def r split: option.splits)
qed

lemma arp_flush_ok:
  assumes "entry_ok en" "ae_data en = Some data" "arp_live s" "en' \<in> set (arp_tbl s)" "ae_netif en = ae_netif en'"
  shows "okr (arp_flush os d en data s) (sends s)"
proof -
  obtain i where i: "ae_netif en = Some i" "ae_len en = length data" "length (ae_ha en) = 6"
    using assms(1,2) by (auto simp: entry_ok_def)
  have "netif_ready s i" using assms(3-5) i(1) by (fastforce simp: arp_live_def split: option.splits)
  then obtain n d' where n: "net_ifs s i = Some n" "if_dev n = Some d'" "dev_ready s d'" by (rule netif_readyE)
  have "okr (netdev_tx os d' 0x0800 (Some data) (Some (ae_ha en)) s) (\<lambda>(r, s'). sends s s')"
    using n(3) i(3) by (intro netdev_tx_ok) auto
  then show ?thesis
    using n i by (auto simp: arp_flush_def mem_read_def okr_iff)
qed

text \<open>What the operations keep.\<close>

definition arp_good :: "'a arp_scheme \<Rightarrow> bool" where
  "arp_good s \<longleftrightarrow> arp_inv s \<and> arp_live s"

lemma arp_good_cong: "same_net s s' \<Longrightarrow> arp_tbl s' = arp_tbl s \<Longrightarrow> arp_good s' = arp_good s"
  using arp_live_cong [of s s'] by (simp add: arp_good_def arp_inv_def)

lemma arp_good_sends: "sends s s' \<Longrightarrow> arp_good s' = arp_good s"
  using arp_good_cong [OF sends_same_net sends_arp(1)] .

lemma arp_good_tick [simp]: "arp_good (s\<lparr>sys_tick := t\<rparr>) = arp_good s"
  by (rule arp_good_sends) simp

lemma arp_good_entry:
  assumes "arp_good s" "i < length (arp_tbl s)"
  shows "entry_ok (arp_tbl s ! i)" "arp_tbl s ! i \<in> set (arp_tbl s)"
  using assms by (simp_all add: arp_good_def arp_inv_def tbl_ok_def)

lemma arp_good_set:
  assumes "arp_good s" "i < length (arp_tbl s)" "entry_ok en" "ae_used en \<Longrightarrow> ae_used (arp_tbl s ! i) \<and> ae_pa en = ae_pa (arp_tbl s ! i)"
    "ae_netif en = None \<or> ae_netif en = ae_netif (arp_tbl s ! i)"
  shows "arp_good (set_entry i en s)"
proof -
  have "\<not> same_pa en (arp_tbl s ! j)" if j: "j < length (arp_tbl s)" "j \<noteq> i" for j
  proof
    assume "same_pa en (arp_tbl s ! j)"
    then have "same_pa (arp_tbl s ! i) (arp_tbl s ! j)" using assms(4) by (auto simp: same_pa_def)
    then show False using assms(1,2) j unfolding arp_good_def arp_inv_def tbl_ok_def by metis
  qed
  then have "tbl_ok ((arp_tbl s)[i := en])"
    using assms(1,3) by (intro tbl_ok_update) (auto simp: arp_good_def arp_inv_def)
  moreover have "arp_live (set_entry i en s)"
    using assms(1,2,5) by (intro arp_live_update) (auto simp: arp_good_def)
  ultimately show ?thesis by (simp add: arp_good_def arp_inv_def)
qed

lemma arp_table_update_ok:
  assumes good: "arp_good s" and ha: "length ha = 6"
  shows "okr (arp_table_update os d pa ha s) (\<lambda>(r, s'). arp_good s' \<and> same_net s s' \<and>
    (r = -1 \<and> s' = s \<and> arp_table_select (arp_tbl s) pa = None \<or>
     r = 0 \<and> arp_table_select (arp_tbl s) pa \<noteq> None))"
proof (cases "arp_table_select (arp_tbl s) pa")
  case None
  then show ?thesis using good by (simp add: arp_table_update_def)
next
  case (Some i)
  let ?s = "s\<lparr>sys_tick := Suc (sys_tick s)\<rparr>"
  let ?en = "(arp_tbl s ! i)\<lparr>ae_ha := take 6 ha, ae_timestamp := os_time os (sys_tick s)\<rparr>"
  have i: "i < length (arp_tbl s)" "ae_used (arp_tbl s ! i)" using select_SomeD [OF Some] by auto
  have en: "entry_ok (arp_tbl s ! i)" using arp_good_entry [OF good i(1)] by simp
  have ok: "entry_ok ?en" "entry_ok (?en\<lparr>ae_data := None, ae_len := 0\<rparr>)"
    using en i(2) ha by (auto simp: entry_ok_def split: option.splits)
  have good1: "arp_good ?s" using good by simp
  show ?thesis
  proof (cases "ae_data (arp_tbl s ! i)")
    case None
    have "arp_good (set_entry i ?en ?s)" using good1 i ok(1) by (intro arp_good_set) auto
    moreover have "same_net s (set_entry i ?en ?s)" by (simp add: same_net_def set_entry_def)
    ultimately show ?thesis
      using Some None by (simp add: arp_table_update_def sys_time_def Let_def)
  next
    case (Some data)
    have "okr (arp_flush os d ?en data ?s) (sends ?s)"
      using arp_good_entry(2) [OF good1, of i] i good1 ok(1) Some
      by (intro arp_flush_ok) (auto simp: arp_good_def)
    moreover have "arp_good (set_entry i (?en\<lparr>ae_data := None, ae_len := 0\<rparr>) s2) \<and>
        same_net s (set_entry i (?en\<lparr>ae_data := None, ae_len := 0\<rparr>) s2)" if "sends ?s s2" for s2
    proof -
      have "arp_good s2" using arp_good_sends [OF that] good1 by simp
      moreover have "arp_tbl s2 = arp_tbl s" using sends_arp [OF that] by simp
      moreover have "same_net s s2" using sends_same_net [OF that] by (simp add: same_net_def)
      ultimately show ?thesis
        using i ok(2) same_net_trans [OF _ same_net_set_entry] by (auto intro!: arp_good_set)
    qed
    ultimately show ?thesis
      using \<open>arp_table_select (arp_tbl s) pa = Some i\<close> Some
      by (auto simp: arp_table_update_def sys_time_def Let_def intro!: okr_bind)
  qed
qed

lemma arp_good_patrol: "arp_good s \<Longrightarrow> arp_good (arp_table_patrol s)"
proof -
  assume g: "arp_good s"
  have n: "same_net s (arp_table_patrol s)" by (simp add: same_net_def arp_table_patrol_def)
  have "arp_live (arp_table_patrol s)"
    using g by (intro arp_live_from [OF _ n]) (auto simp: arp_good_def arp_table_patrol_def)
  then show ?thesis using g arp_inv_patrol by (auto simp: arp_good_def)
qed

lemma arp_rx_patrol_ok:
  assumes "arp_good s"
  shows "arp_good (arp_rx_patrol os s)" "same_net s (arp_rx_patrol os s)"
    "sys_sent (arp_rx_patrol os s) = sys_sent s" "length (arp_tbl (arp_rx_patrol os s)) = length (arp_tbl s)"
proof -
  let ?s = "s\<lparr>sys_tick := Suc (sys_tick s)\<rparr>" and ?now = "os_time os (sys_tick s)"
  have "arp_good (?s\<lparr>arp_timestamp := ?now\<rparr>)"
    using assms(1) arp_good_cong [of s "?s\<lparr>arp_timestamp := ?now\<rparr>"] by (simp add: same_net_def)
  then show "arp_good (arp_rx_patrol os s)"
    using assms(1) arp_good_patrol [of "?s\<lparr>arp_timestamp := ?now\<rparr>"] by (simp add: arp_rx_patrol_def sys_time_def)
qed (simp_all add: same_net_def arp_table_patrol_def arp_rx_patrol_def sys_time_def)

lemma arp_rx_update_ok:
  assumes "arp_good s" "length (arp_sha msg) = 6"
  shows "okr (arp_rx_update os msg d s) (\<lambda>(marge, s'). arp_good s' \<and> same_net s s' \<and>
    (\<not> marge \<longrightarrow> arp_table_select (arp_tbl s') (arp_spa msg) = None))"
  unfolding arp_rx_update_def
  by (auto intro!: okr_bind [OF arp_table_update_ok [OF arp_rx_patrol_ok(1) [OF assms(1)] assms(2)]]
      simp: arp_rx_patrol_ok(2) [OF assms(1)] intro: same_net_trans [OF arp_rx_patrol_ok(2) [OF assms(1)]])

lemma arp_send_ok:
  assumes "netif_ready s i" "length tha = 6" "length dst = 6"
  shows "okr (arp_send_request os i tpa s) (\<lambda>(r, s'). sends s s')"
    "okr (arp_send_reply os i (Some tha) tpa dst s) (\<lambda>(r, s'). sends s s')"
proof -
  obtain n d where n: "net_ifs s i = Some n" "if_dev n = Some d" "dev_ready s d"
    using assms(1) by (rule netif_readyE)
  then obtain dev where d: "net_devs s d = Some dev" "length (nd_addr dev) = 16"
    by (auto simp: dev_ready_def split: option.splits)
  have tx: "okr (netdev_tx os d ty (Some pl) (Some dst) s) (\<lambda>(r, s'). sends s s')"
    if "length dst = 6" for ty pl dst using that n(3) by (intro netdev_tx_ok) auto
  show "okr (arp_send_request os i tpa s) (\<lambda>(r, s'). sends s s')"
    using n d by (auto simp: arp_send_request_def mem_read_def Let_def split: option.splits
        intro!: okr_bind [OF tx])
  show "okr (arp_send_reply os i (Some tha) tpa dst s) (\<lambda>(r, s'). sends s s')"
    using n d assms(2,3) by (auto simp: arp_send_reply_def mem_read_def Let_def split: option.splits
        intro!: okr_bind [OF tx])
qed

lemma arp_insert_good:
  assumes "arp_good s" "arp_table_select (arp_tbl s) pa = None" "6 \<le> length ha"
  shows "arp_good (snd (arp_table_insert os pa ha s)) \<and> same_net s (snd (arp_table_insert os pa ha s))"
proof -
  let ?s = "snd (arp_table_insert os pa ha s)"
  have n: "same_net s ?s"
    by (simp add: arp_table_insert_def sys_time_def set_entry_def same_net_def split: option.splits)
  have "arp_live ?s"
  proof (rule arp_live_from [OF _ n])
    fix en assume en: "en \<in> set (arp_tbl ?s)"
    show "ae_netif en = None \<or> (\<exists>en' \<in> set (arp_tbl s). ae_netif en = ae_netif en')"
    proof (cases "arp_table_freespace (arp_tbl s)")
      case (Some i)
      then have "arp_tbl s ! i \<in> set (arp_tbl s)" using freespace_SomeD [OF Some] by simp
      then show ?thesis
        using en Some
        by (auto simp: arp_table_insert_def sys_time_def intro: bexI [of _ "arp_tbl s ! i"]
            dest!: set_update_subset_insert [THEN subsetD])
    qed (use en in \<open>auto simp: arp_table_insert_def\<close>)
  qed (use assms in \<open>simp add: arp_good_def\<close>)
  then show ?thesis using assms n arp_inv_insert [of s pa ha os] by (simp add: arp_good_def)
qed

text \<open>A device whose interfaces are live and attached to open devices.\<close>

definition dev_ok :: "'a net_scheme \<Rightarrow> nat \<Rightarrow> bool" where
  "dev_ok s d \<longleftrightarrow>
     (case net_devs s d of None \<Rightarrow> False | Some dev \<Rightarrow> \<forall>i \<in> set (nd_ifs dev). netif_ready s i)"

lemma dev_ok_cong:
  assumes "same_net s s'"
  shows "dev_ok s' d = dev_ok s d"
  using assms ready_cong(2) [OF assms] by (auto simp: dev_ok_def same_net_def split: option.split)

lemma netif_find_in: "netif_find m ifs f = Inr (Some i) \<Longrightarrow> i \<in> set ifs"
  by (induction ifs) (auto simp: bindr_Inr_iff split: if_splits)

lemma get_netif_ok:
  assumes "dev_ok s d"
  shows "\<exists>r. netdev_get_netif d f s = Inr r \<and> (case r of None \<Rightarrow> True | Some i \<Rightarrow> netif_ready s i)"
proof -
  obtain dev where dev: "net_devs s d = Some dev" "\<forall>i \<in> set (nd_ifs dev). netif_ready s i"
    using assms by (auto simp: dev_ok_def split: option.splits)
  then have "\<forall>i \<in> set (nd_ifs dev). net_ifs s i \<noteq> None"
    by (auto simp: netif_ready_def split: option.splits)
  then obtain r where "netif_find (net_ifs s) (nd_ifs dev) f = Inr r" using netif_find_live by blast
  then show ?thesis
    using dev netif_find_in [of "net_ifs s" "nd_ifs dev" f]
    by (auto simp: netdev_get_netif_def split: option.splits)
qed

lemma arp_rx_target_ok:
  assumes "arp_good s" "dev_ok s d" "length (arp_sha msg) = 6"
    and "\<not> marge \<longrightarrow> arp_table_select (arp_tbl s) (arp_spa msg) = None"
  shows "okr (arp_rx_target os msg d marge s) (\<lambda>s'. arp_good s' \<and> same_net s s')"
proof -
  obtain r where r: "netdev_get_netif d 2 s = Inr r" "case r of None \<Rightarrow> True | Some i \<Rightarrow> netif_ready s i"
    using get_netif_ok [OF assms(2)] by blast
  show ?thesis
  proof (cases r)
    case None
    then show ?thesis using r assms(1) by (simp add: arp_rx_target_def)
  next
    case (Some i)
    then have i: "netif_ready s i" using r by simp
    then obtain n where n: "net_ifs s i = Some n" by (rule netif_readyE)
    define s1 where "s1 = (if \<not> marge then snd (arp_table_insert os (arp_spa msg) (arp_sha msg) s) else s)"
    have g: "arp_good s1 \<and> same_net s s1"
      using arp_insert_good [of s "arp_spa msg" "arp_sha msg" os] assms by (simp add: s1_def)
    then have "netif_ready s1 i" using i ready_cong(2) by blast
    then have reply: "okr (arp_send_reply os i (Some (arp_sha msg)) (Some (arp_spa msg)) (arp_sha msg) s1)
        (\<lambda>(r, s'). sends s1 s')"
      using assms(3) by (intro arp_send_ok(2)) auto
    have "arp_good s' \<and> same_net s s'" if "sends s1 s'" for s'
      using g that arp_good_sends [OF that] same_net_trans [OF _ sends_same_net [OF that]] by blast
    then show ?thesis
      using r(1) Some n g assms(1) unfolding arp_rx_target_def
      by (auto simp: Let_def s1_def [symmetric] intro!: okr_bind [OF reply])
  qed
qed

lemma dec_arp_sha: "28 \<le> length bs \<Longrightarrow> length (arp_sha (dec_arp e bs)) = 6"
  using arpf.wf_dec [of bs e] by (simp add: wf_arp_def)

lemma arp_rx_ok:
  assumes "arp_good s" "dev_ok s d"
  shows "okr (arp_rx os packet d s) (\<lambda>s'. arp_good s' \<and> same_net s s')"
proof (cases "arp_valid (os_endian os) packet")
  case True
  let ?m = "dec_arp (os_endian os) packet"
  have m: "length (arp_sha ?m) = 6" using True by (intro dec_arp_sha) (simp add: arp_valid_def)
  have "okr (arp_rx_target os ?m d marge s1) (\<lambda>s'. arp_good s' \<and> same_net s s')"
    if "arp_good s1" "same_net s s1" "\<not> marge \<longrightarrow> arp_table_select (arp_tbl s1) (arp_spa ?m) = None" for marge s1
    using arp_rx_target_ok [OF that(1) _ m that(3), of d os] dev_ok_cong [OF that(2)] assms(2) same_net_trans [OF that(2)]
    by (auto intro: okr_mono)
  then show ?thesis
    using True unfolding arp_rx_def by (auto simp: Let_def intro!: okr_bind [OF arp_rx_update_ok [OF assms(1) m]])
qed (use assms in \<open>simp add: arp_rx_def\<close>)

text \<open>
  Property C17: whatever bytes arrive as an ARP packet on a device whose interfaces are attached to
  open devices, the handler returns: no access outside the packet, no null or dangling pointer. It
  keeps the table's invariant (no two used entries for one address, a saved packet always has its
  length and an interface, a free entry holds nothing) and leaves the device layer alone.
\<close>

theorem arp_rx_safe:
  assumes "arp_good s" "dev_ok s d"
  shows "\<exists>s'. arp_rx os packet d s = Inr s' \<and> arp_good s' \<and> same_net s s'"
  using arp_rx_ok [OF assms, of os packet] by (simp add: okr_iff)

definition arp_start :: "nat \<Rightarrow> netdev \<Rightarrow> nat \<Rightarrow> netif_ip \<Rightarrow> arp" where
  "arp_start d dev i n =
     \<lparr>sys_tick = 0, sys_fds = [], sys_sent = [], drivers = [], protos = [], devices = [d],
      net_devs = [d \<mapsto> dev\<lparr>nd_ifs := [i]\<rparr>], net_ifs = [i \<mapsto> n\<lparr>if_dev := Some d\<rparr>],
      arp_tbl = replicate ARP_TABLE_SIZE arp_entry_zero, arp_timestamp = 0\<rparr>"

definition plain_netif :: "u32 \<Rightarrow> netif_ip" where
  "plain_netif addr = \<lparr>if_family = NETIF_FAMILY_IPV4, if_dev = None, unicast = addr, netmask = 0xffffffff,
     network = 0, broadcast = 0xffffffff, gateway = 0\<rparr>"

lemma zero_entry_ok: "entry_ok arp_entry_zero"
  by (simp add: entry_ok_def arp_entry_zero_def)

lemma arp_start_good: "arp_good (arp_start d dev i n)"
  by (auto simp: arp_good_def arp_inv_def tbl_ok_def arp_start_def zero_entry_ok same_pa_def arp_live_def)
    (simp_all add: arp_entry_zero_def)

lemma arp_start_ready:
  "length addr = 6 \<Longrightarrow> netif_ready (arp_start d (plain_dev addr fd) i n) i"
  "length addr = 6 \<Longrightarrow> dev_ok (arp_start d (plain_dev addr fd) i n) d"
  "length addr = 6 \<Longrightarrow> dev_open (arp_start d (plain_dev addr fd) i n) d addr fd"
  by (simp_all add: dev_ok_def netif_ready_def dev_ready_def dev_fd_def dev_open_def arp_start_def plain_dev_def)

theorem arp_rx_safe_witness:
  "\<exists>s'. arp_rx (plain_os 0 60) (replicate 40 1) 3 (arp_start 3 (plain_dev [2, 0, 0, 0, 0, 1] 7) 4 (plain_netif 5)) = Inr s' \<and>
     arp_good s'"
proof -
  let ?s = "arp_start 3 (plain_dev [2, 0, 0, 0, 0, 1] 7) 4 (plain_netif 5)"
  have "arp_good ?s" "dev_ok ?s 3" by (rule arp_start_good, rule arp_start_ready) simp
  from arp_rx_safe [OF this, of "plain_os 0 60" "replicate 40 1"] show ?thesis by auto
qed

section \<open>What is learned\<close>

text \<open>The table as a map: the address an entry has been resolved to.\<close>

definition arp_lookup :: "arp_entry list \<Rightarrow> ip_addr_t \<Rightarrow> bytes option" where
  "arp_lookup tbl pa =
     (case arp_table_select tbl pa of
        None \<Rightarrow> None
      | Some i \<Rightarrow> if ae_ha (tbl ! i) = ETHERNET_ADDR_ANY then None else Some (ae_ha (tbl ! i)))"

lemma select_set_same:
  assumes "tbl_ok tbl" "tbl_ok (tbl[i := en])" "i < length tbl" "ae_used en" "ae_pa en = pa"
  shows "arp_table_select (tbl[i := en]) pa = Some i"
  using assms by (simp add: select_iff)

lemma arp_lookup_set:
  assumes "tbl_ok (tbl[i := en])" "i < length tbl" "ae_used en" "ae_pa en = pa" "ae_ha en \<noteq> ETHERNET_ADDR_ANY"
  shows "arp_lookup (tbl[i := en]) pa = Some (ae_ha en)"
  using assms select_iff [OF assms(1), of pa i] by (simp add: arp_lookup_def)

lemma arp_resolve_known:
  assumes "arp_lookup (arp_tbl s) pa = Some ha"
  shows "arp_resolve os wait netif pa data s = Inr (1, Some ha, s\<lparr>sys_tick := Suc (sys_tick s)\<rparr>)"
  using assms by (auto simp: arp_lookup_def arp_resolve_def sys_timeofday_def split: option.splits if_splits)

lemma arp_flush_sends: "postr (arp_flush os d en data s) (sends s)"
  unfolding arp_flush_def
  by (auto intro!: postr_bindI split: option.splits) (erule netdev_tx_sendsD)+

lemma arp_update_learns:
  assumes good: "arp_good s" and ha: "length ha = 6" "ha \<noteq> ETHERNET_ADDR_ANY"
    and run: "arp_table_update os d pa ha s = Inr (0, s')"
  shows "arp_lookup (arp_tbl s') pa = Some ha"
proof -
  obtain i where i: "arp_table_select (arp_tbl s) pa = Some i"
    using run by (auto simp: arp_table_update_def split: option.splits)
  have ok: "tbl_ok (arp_tbl s')"
    using arp_table_update_ok [OF good ha(1), of os d pa] run by (simp add: arp_good_def arp_inv_def)
  obtain en where en: "arp_tbl s' = (arp_tbl s)[i := en]" "ae_ha en = ha" "ae_used en" "ae_pa en = pa"
  proof (cases "ae_data (arp_tbl s ! i)")
    case None
    then show ?thesis using run i ha select_SomeD [OF i] that
      by (auto simp: arp_table_update_def sys_time_def Let_def)
  next
    case (Some data)
    let ?s = "s\<lparr>sys_tick := Suc (sys_tick s)\<rparr>"
    let ?en = "(arp_tbl s ! i)\<lparr>ae_ha := take 6 ha, ae_timestamp := os_time os (sys_tick s)\<rparr>"
    obtain s2 where f: "arp_flush os d ?en data ?s = Inr s2"
      and s': "s' = set_entry i (?en\<lparr>ae_data := None, ae_len := 0\<rparr>) s2"
      using run i Some by (auto simp: arp_table_update_def sys_time_def Let_def bindr_Inr_iff)
    from postrD [OF arp_flush_sends f] have "arp_tbl s2 = arp_tbl s" by simp
    with s' ha select_SomeD [OF i] that show ?thesis by auto
  qed
  have "arp_lookup ((arp_tbl s)[i := en]) pa = Some (ae_ha en)"
    using ok select_SomeD [OF i] en ha by (intro arp_lookup_set) auto
  then show ?thesis using en by simp
qed

lemma arp_insert_learns:
  assumes "arp_good s" "arp_table_select (arp_tbl s) pa = None" "length ha = 6" "ha \<noteq> ETHERNET_ADDR_ANY"
    and "arp_table_freespace (arp_tbl s) \<noteq> None"
  shows "arp_lookup (arp_tbl (snd (arp_table_insert os pa ha s))) pa = Some ha"
proof -
  obtain i where i: "arp_table_freespace (arp_tbl s) = Some i" using assms(5) by auto
  let ?en = "(arp_tbl s ! i)\<lparr>ae_used := True, ae_pa := pa, ae_ha := take 6 ha, ae_timestamp := os_time os (sys_tick s)\<rparr>"
  have t: "arp_tbl (snd (arp_table_insert os pa ha s)) = (arp_tbl s)[i := ?en]"
    using i by (simp add: arp_table_insert_def sys_time_def)
  have "tbl_ok ((arp_tbl s)[i := ?en])"
    using arp_insert_good [OF assms(1,2), of ha os] assms(3) t by (simp add: arp_good_def arp_inv_def)
  then have "arp_lookup ((arp_tbl s)[i := ?en]) pa = Some (ae_ha ?en)"
    using freespace_SomeD [OF i] assms by (intro arp_lookup_set) auto
  then show ?thesis using t assms(3) by simp
qed

text \<open>The message a device with address \<open>addr\<close> and the protocol address \<open>self\<close> sends.\<close>

definition arp_message :: "endian \<Rightarrow> u16 \<Rightarrow> bytes \<Rightarrow> ip_addr_t \<Rightarrow> bytes \<Rightarrow> ip_addr_t \<Rightarrow> bytes" where
  "arp_message e opc addr self tha tpa =
     enc_arp e \<lparr>arp_hrd = hton16 e 1, arp_pro = hton16 e 0x0800, arp_hln = 6, arp_pln = 4,
       arp_op = hton16 e opc, arp_sha = addr, arp_spa = self, arp_tha = tha, arp_tpa = tpa\<rparr>"

lemma length_arp_message:
  "length addr = 6 \<Longrightarrow> length tha = 6 \<Longrightarrow> length (arp_message e opc addr self tha tpa) = 28"
  unfolding arp_message_def by (rule arpf.length_enc) (simp add: wf_arp_def)

lemma arp_send_reply_frame:
  assumes "net_ifs s i = Some n" "if_dev n = Some d" "dev_open s d addr fd" "length tha = 6" "length dst = 6"
  shows "\<exists>r s' ret. arp_send_reply os i (Some tha) (Some tpa) dst s = Inr (r, s') \<and> sends s s' \<and>
    sys_sent s' = sys_sent s @
      [(fd, eth_frame dst addr 0x0806 (arp_message (os_endian os) 2 addr (unicast n) tha tpa), ret)]"
proof -
  obtain dev where dev: "net_devs s d = Some dev" "length (nd_addr dev) = 16" "take 6 (nd_addr dev) = addr"
    using assms(3) by (auto simp: dev_open_def split: option.splits)
  have a: "length addr = 6" using dev by auto
  let ?m = "arp_message (os_endian os) 2 addr (unicast n) tha tpa"
  have l: "length ?m \<le> 1500" using length_arp_message [OF a assms(4)] by simp
  have "netdev_tx os d 0x0806 (Some ?m) (Some dst) s =
    (let (r, s') = sys_write os fd (eth_frame (take 6 dst) addr 0x0806 ?m) s
     in Inr (if r = int (14 + max 46 (length ?m)) then int (length ?m) else -1, s'))"
    by (rule netdev_tx_frame [OF assms(3) l]) (simp add: assms(5))
  moreover have "sends s (s\<lparr>sys_tick := k, sys_sent := sys_sent s @ x\<rparr>)" for k x
    by (auto simp: sends_def)
  ultimately show ?thesis
    using assms dev unfolding arp_message_def
    by (simp add: arp_send_reply_def mem_read_def sys_write_def Let_def)
qed

lemma arp_send_request_frame:
  assumes "net_ifs s i = Some n" "if_dev n = Some d" "dev_open s d addr fd"
  shows "\<exists>r s' ret. arp_send_request os i (Some tpa) s = Inr (r, s') \<and> sends s s' \<and>
    sys_sent s' = sys_sent s @
      [(fd, eth_frame ETHERNET_ADDR_BROADCAST addr 0x0806
         (arp_message (os_endian os) 1 addr (unicast n) (replicate 6 0) tpa), ret)]"
proof -
  obtain dev where dev: "net_devs s d = Some dev" "length (nd_addr dev) = 16" "take 6 (nd_addr dev) = addr"
    using assms(3) by (auto simp: dev_open_def split: option.splits)
  have a: "length addr = 6" using dev by auto
  let ?m = "arp_message (os_endian os) 1 addr (unicast n) (replicate 6 0) tpa"
  have l: "length ?m \<le> 1500" using length_arp_message [OF a, of "replicate 6 0"] by simp
  have "netdev_tx os d 0x0806 (Some ?m) (Some ETHERNET_ADDR_BROADCAST) s =
    (let (r, s') = sys_write os fd (eth_frame (take 6 ETHERNET_ADDR_BROADCAST) addr 0x0806 ?m) s
     in Inr (if r = int (14 + max 46 (length ?m)) then int (length ?m) else -1, s'))"
    by (rule netdev_tx_frame [OF assms(3) l]) simp
  moreover have "sends s (s\<lparr>sys_tick := k, sys_sent := sys_sent s @ x\<rparr>)" for k x
    by (auto simp: sends_def)
  moreover have "take 6 ETHERNET_ADDR_BROADCAST = ETHERNET_ADDR_BROADCAST" by simp
  ultimately show ?thesis
    using assms dev unfolding arp_message_def
    by (simp add: arp_send_request_def mem_read_def sys_write_def Let_def)
qed

lemma freespace_iff: "arp_table_freespace tbl \<noteq> None \<longleftrightarrow> (\<exists>en \<in> set tbl. \<not> ae_used en)"
  by (auto simp: arp_table_freespace_def first_index_None_iff simp del: not_None_eq)

lemma freespace_patrol:
  "arp_table_freespace (arp_tbl s) \<noteq> None \<Longrightarrow> arp_table_freespace (arp_tbl (arp_table_patrol s)) \<noteq> None"
  unfolding freespace_iff arp_table_patrol_def by fastforce

lemma freespace_rx_patrol:
  "arp_table_freespace (arp_tbl s) \<noteq> None \<Longrightarrow> arp_table_freespace (arp_tbl (arp_rx_patrol os s)) \<noteq> None"
  using freespace_patrol [of "s\<lparr>sys_tick := Suc (sys_tick s), arp_timestamp := os_time os (sys_tick s)\<rparr>"]
  by (simp add: arp_rx_patrol_def sys_time_def)

lemma arp_rx_update_learns:
  assumes good: "arp_good s" and sha: "length (arp_sha m) = 6" "arp_sha m \<noteq> ETHERNET_ADDR_ANY"
    and run: "arp_rx_update os m d s = Inr (marge, s1)"
  shows "if marge then arp_lookup (arp_tbl s1) (arp_spa m) = Some (arp_sha m)
    else arp_table_freespace (arp_tbl s) \<noteq> None \<longrightarrow> arp_table_freespace (arp_tbl s1) \<noteq> None"
proof -
  let ?p = "arp_rx_patrol os s"
  note p = arp_rx_patrol_ok(1) [OF good, of os]
  obtain r where u: "arp_table_update os d (arp_spa m) (arp_sha m) ?p = Inr (r, s1)" "marge = (r = 0)"
    using run unfolding arp_rx_update_def by (auto simp: bindr_Inr_iff)
  show ?thesis
    using u arp_update_learns [OF p sha, of os d "arp_spa m" s1] freespace_rx_patrol [of s os]
      arp_table_update_ok [OF p sha(1), of os d "arp_spa m"]
    by (cases marge) auto
qed

text \<open>
  Property C21: a valid message for the address of the receiving interface is learned, whether or not
  the sender was known, provided the table is not full: from then on \<open>arp_resolve\<close> answers at
  once with the sender's hardware address, sending nothing. When the message is a request, the last
  frame sent is the reply, to the sender, carrying the interface's own addresses.
\<close>

theorem arp_rx_learns_and_replies:
  assumes "arp_good s" "dev_ok s d" "arp_valid (os_endian os) packet"
    and m: "m = dec_arp (os_endian os) packet" "arp_sha m \<noteq> ETHERNET_ADDR_ANY" "arp_tpa m = unicast n"
    and n: "netdev_get_netif d (uint (2 :: u8)) s = Inr (Some i)" "net_ifs s i = Some n" "if_dev n = Some d'"
    and o: "dev_open s d' addr fd"
    and space: "arp_table_freespace (arp_tbl s) \<noteq> None"
    and run: "arp_rx os packet d s = Inr s'"
  shows "arp_resolve os wait i (arp_spa m) data s' =
      Inr (1, Some (arp_sha m), s'\<lparr>sys_tick := Suc (sys_tick s')\<rparr>) \<and>
    (ntoh16 (os_endian os) (arp_op m) = 1 \<longrightarrow>
      (\<exists>before ret. sys_sent s' = before @ [(fd, eth_frame (arp_sha m) addr 0x0806
         (arp_message (os_endian os) 2 addr (unicast n) (arp_sha m) (arp_spa m)), ret)]))"
proof -
  have sha: "length (arp_sha m) = 6" using assms(3) m(1) by (simp add: dec_arp_sha arp_valid_def)
  obtain marge s1 where u: "arp_rx_update os m d s = Inr (marge, s1)" and t: "arp_rx_target os m d marge s1 = Inr s'"
    using run assms(3) m(1) by (auto simp: arp_rx_def bindr_Inr_iff Let_def)
  have g1: "arp_good s1" "same_net s s1" "\<not> marge \<longrightarrow> arp_table_select (arp_tbl s1) (arp_spa m) = None"
    using arp_rx_update_ok [OF assms(1) sha, of os d] u by auto
  define s2 where "s2 = (if \<not> marge then snd (arp_table_insert os (arp_spa m) (arp_sha m) s1) else s1)"
  have l2: "arp_lookup (arp_tbl s2) (arp_spa m) = Some (arp_sha m)"
    using arp_rx_update_learns [OF assms(1) sha m(2) u] space g1(3)
      arp_insert_learns [OF g1(1) _ sha m(2), of "arp_spa m" os]
    by (cases marge) (simp_all add: s2_def)
  have "same_net s1 s2"
    using arp_insert_good [OF g1(1), of "arp_spa m" "arp_sha m" os] g1(3) sha by (simp add: s2_def)
  then have n2: "same_net s s2" using g1(2) same_net_trans by blast
  have i: "netdev_get_netif d 2 s1 = Inr (Some i)" "net_ifs s1 i = Some n" "net_ifs s2 i = Some n" "dev_open s2 d' addr fd"
    using n o ready_cong [OF g1(2)] ready_cong [OF n2] g1(2) n2 by (auto simp: same_net_def)
  obtain r s3 ret where reply: "arp_send_reply os i (Some (arp_sha m)) (Some (arp_spa m)) (arp_sha m) s2 = Inr (r, s3)"
    "sends s2 s3" "sys_sent s3 = sys_sent s2 @ [(fd, eth_frame (arp_sha m) addr 0x0806
         (arp_message (os_endian os) 2 addr (unicast n) (arp_sha m) (arp_spa m)), ret)]"
    using arp_send_reply_frame [OF i(3) n(3) i(4) sha sha] by blast
  have s': "s' = (if ntoh16 (os_endian os) (arp_op m) = 1 then s3 else s2)"
    using t i(1,2) m(3) reply(1) unfolding arp_rx_target_def by (simp add: s2_def [symmetric] Let_def split: if_splits)
  then have "arp_lookup (arp_tbl s') (arp_spa m) = Some (arp_sha m)" using reply(2) l2 by simp
  from arp_resolve_known [OF this] show ?thesis using reply(3) s' by simp
qed

lemma dec_arp_message:
  assumes "length addr = 6" "length tha = 6"
  shows "dec_arp e (arp_message e opc addr self tha tpa) =
    \<lparr>arp_hrd = hton16 e 1, arp_pro = hton16 e 0x0800, arp_hln = 6, arp_pln = 4,
     arp_op = hton16 e opc, arp_sha = addr, arp_spa = self, arp_tha = tha, arp_tpa = tpa\<rparr>"
  unfolding arp_message_def by (rule arpf.dec_enc) (simp add: wf_arp_def assms)

lemma arp_message_valid:
  "length addr = 6 \<Longrightarrow> length tha = 6 \<Longrightarrow> arp_valid e (arp_message e opc addr self tha tpa)"
  by (simp add: arp_valid_def length_arp_message dec_arp_message)

theorem arp_rx_learns_and_replies_witness:
  "let s = arp_start 3 (plain_dev [2, 0, 0, 0, 0, 1] 7) 4 (plain_netif 5);
       peer = [2, 0, 0, 0, 0, 9];
       packet = arp_message Little 1 peer 6 (replicate 6 0) 5
   in \<exists>s' before ret. arp_rx (plain_os 0 60) packet 3 s = Inr s' \<and>
        arp_resolve (plain_os 0 60) (\<lambda>_. []) 4 6 None s' = Inr (1, Some peer, s'\<lparr>sys_tick := Suc (sys_tick s')\<rparr>) \<and>
        sys_sent s' = before @ [(7, eth_frame peer [2, 0, 0, 0, 0, 1] 0x0806
          (arp_message Little 2 [2, 0, 0, 0, 0, 1] 5 peer 6), ret)]"
proof -
  define s where "s = arp_start 3 (plain_dev [2, 0, 0, 0, 0, 1] 7) 4 (plain_netif 5)"
  let ?p = "[2, 0, 0, 0, 0, 9] :: bytes" and ?os = "plain_os 0 60"
  let ?m = "arp_message Little 1 ?p 6 (replicate 6 0) 5"
  have g: "arp_good s" "dev_ok s 3" unfolding s_def by (rule arp_start_good, rule arp_start_ready) simp
  have v: "arp_valid (os_endian ?os) ?m" using arp_message_valid [of ?p "replicate 6 0" Little 1 6 5] by simp
  have d: "dec_arp Little ?m = \<lparr>arp_hrd = hton16 Little 1, arp_pro = hton16 Little 0x0800, arp_hln = 6, arp_pln = 4,
     arp_op = hton16 Little 1, arp_sha = ?p, arp_spa = 6, arp_tha = replicate 6 0, arp_tpa = 5\<rparr>"
    by (rule dec_arp_message) simp_all
  have n: "netdev_get_netif 3 (uint (2 :: u8)) s = Inr (Some 4)" "net_ifs s 4 = Some ((plain_netif 5)\<lparr>if_dev := Some 3\<rparr>)"
    by (simp_all add: s_def arp_start_def netdev_get_netif_def plain_netif_def)
  have o: "dev_open s 3 [2, 0, 0, 0, 0, 1] 7" unfolding s_def by (rule arp_start_ready) simp
  have sp: "arp_table_freespace (arp_tbl s) \<noteq> None"
    unfolding freespace_iff by (simp add: s_def arp_start_def arp_entry_zero_def)
  obtain s' where s': "arp_rx ?os ?m 3 s = Inr s'" using arp_rx_ok [OF g, of ?os ?m] by (auto simp: okr_iff)
  have "?p \<noteq> ETHERNET_ADDR_ANY" by (simp add: ETHERNET_ADDR_ANY_def)
  then show ?thesis
    using arp_rx_learns_and_replies [OF g v refl _ _ n(1,2) _ o sp s', of "\<lambda>_. []" None] s'
    unfolding Let_def s_def [symmetric] by (simp add: d plain_netif_def)
qed

section \<open>A packet waiting for its address\<close>

lemma arp_resolve_query:
  assumes good: "arp_good s" and sel: "arp_table_select (arp_tbl s) pa = None" "arp_table_freespace (arp_tbl s) = Some j"
    and n: "net_ifs s i = Some n" "if_dev n = Some d" "dev_open s d addr fd"
    and mem: "os_malloc os (Suc (sys_tick s))"
  shows "\<exists>s1 ret. arp_resolve os wait i pa (Some data) s = Inr (0, None, s1) \<and> same_net s s1 \<and>
    arp_timestamp s1 = arp_timestamp s \<and>
    arp_tbl s1 = (arp_tbl s)[j := (arp_tbl s ! j)\<lparr>ae_data := Some data, ae_len := length data, ae_used := True,
        ae_pa := pa, ae_timestamp := os_time os (Suc (Suc (sys_tick s))), ae_netif := Some i\<rparr>] \<and>
    sys_sent s1 = sys_sent s @ [(fd, eth_frame ETHERNET_ADDR_BROADCAST addr 0x0806
         (arp_message (os_endian os) 1 addr (unicast n) (replicate 6 0) pa), ret)]"
proof -
  let ?en = "(arp_tbl s ! j)\<lparr>ae_data := Some data, ae_len := length data, ae_used := True,
        ae_pa := pa, ae_timestamp := os_time os (Suc (Suc (sys_tick s))), ae_netif := Some i\<rparr>"
  define s0 where "s0 = set_entry j ?en (s\<lparr>sys_tick := Suc (Suc (Suc (sys_tick s)))\<rparr>)"
  have s0: "same_net s s0" "sys_sent s0 = sys_sent s" "arp_tbl s0 = (arp_tbl s)[j := ?en]" "arp_timestamp s0 = arp_timestamp s"
    by (simp_all add: s0_def same_net_def set_entry_def)
  have o: "net_ifs s0 i = Some n" "dev_open s0 d addr fd" using n s0(1) ready_cong [OF s0(1)] by (auto simp: same_net_def)
  obtain r s1 ret where r: "arp_send_request os i (Some pa) s0 = Inr (r, s1)" "sends s0 s1"
    "sys_sent s1 = sys_sent s0 @ [(fd, eth_frame ETHERNET_ADDR_BROADCAST addr 0x0806
         (arp_message (os_endian os) 1 addr (unicast n) (replicate 6 0) pa), ret)]"
    using arp_send_request_frame [OF o(1) n(2) o(2)] by blast
  have "arp_resolve os wait i pa (Some data) s = Inr (0, None, s1)"
    using sel mem r(1)
    by (simp add: arp_resolve_def sys_timeofday_def sys_malloc_def sys_time_def s0_def [symmetric])
  then show ?thesis
    using r s0 sends_same_net [OF r(2)] same_net_trans [OF s0(1)] by auto
qed

lemma arp_update_flushes:
  assumes good: "arp_good s" and ha: "length ha = 6"
    and sel: "arp_table_select (arp_tbl s) pa = Some j" "ae_data (arp_tbl s ! j) = Some data"
    and n: "ae_netif (arp_tbl s ! j) = Some i" "net_ifs s i = Some n" "if_dev n = Some d" "dev_open s d addr fd"
    and len: "length data \<le> 1500"
    and run: "arp_table_update os d0 pa ha s = Inr (r, s')"
  shows "\<exists>ret. sys_sent s' = sys_sent s @ [(fd, eth_frame ha addr 0x0800 data, ret)] \<and>
    ae_data (arp_tbl s' ! j) = None"
proof -
  let ?s = "s\<lparr>sys_tick := Suc (sys_tick s)\<rparr>"
  let ?en = "(arp_tbl s ! j)\<lparr>ae_ha := take 6 ha, ae_timestamp := os_time os (sys_tick s)\<rparr>"
  have j: "j < length (arp_tbl s)" using select_SomeD [OF sel(1)] by simp
  have l: "ae_len (arp_tbl s ! j) = length data"
    using arp_good_entry(1) [OF good j] sel(2) by (simp add: entry_ok_def)
  have o: "dev_open ?s d addr fd" using n(4) ready_cong(3) [of s ?s] by (simp add: same_net_def)
  have "arp_flush os d0 ?en data ?s = Inr (snd (sys_write os fd (eth_frame ha addr 0x0800 data) ?s))"
    using netdev_tx_frame [OF o len, of "take 6 ha" os "0x0800"] n ha l
    by (auto simp: arp_flush_def mem_read_def sys_write_def Let_def)
  then have s': "s' = set_entry j (?en\<lparr>ae_data := None, ae_len := 0\<rparr>) (snd (sys_write os fd (eth_frame ha addr 0x0800 data) ?s))"
    using run sel by (simp add: arp_table_update_def sys_time_def)
  show ?thesis using j by (simp add: s' sys_write_def Let_def)
qed

lemma patrol_keeps:
  assumes "j < length (arp_tbl s)" "ae_used (arp_tbl s ! j)" "arp_timestamp s - ae_timestamp (arp_tbl s ! j) \<le> 300"
  shows "arp_tbl (arp_table_patrol s) ! j = arp_tbl s ! j"
  using assms by (simp add: arp_table_patrol_def)

lemma arp_rx_target_sends:
  assumes "arp_good s" "dev_ok s d" "length (arp_sha m) = 6" "arp_rx_target os m d True s = Inr s'"
  shows "sends s s'"
proof -
  obtain r where r: "netdev_get_netif d 2 s = Inr r" "case r of None \<Rightarrow> True | Some i \<Rightarrow> netif_ready s i"
    using get_netif_ok [OF assms(2)] by blast
  show ?thesis
  proof (cases r)
    case None
    then show ?thesis using r assms(4) by (simp add: arp_rx_target_def)
  next
    case (Some i)
    then have i: "netif_ready s i" using r by simp
    then obtain n where n: "net_ifs s i = Some n" by (rule netif_readyE)
    have "okr (arp_send_reply os i (Some (arp_sha m)) (Some (arp_spa m)) (arp_sha m) s) (\<lambda>(r, s'). sends s s')"
      using i assms(3) by (intro arp_send_ok(2)) auto
    then show ?thesis
      using assms(4) r(1) Some n unfolding arp_rx_target_def okr_iff by (auto split: if_splits)
  qed
qed

lemma arp_rx_flushes:
  assumes good: "arp_good s" and ok: "dev_ok s d0" and v: "arp_valid (os_endian os) packet"
    and m: "m = dec_arp (os_endian os) packet" "arp_sha m \<noteq> ETHERNET_ADDR_ANY"
    and sel: "arp_table_select (arp_tbl s) (arp_spa m) = Some j" "ae_data (arp_tbl s ! j) = Some data"
    and fresh: "os_time os (sys_tick s) - ae_timestamp (arp_tbl s ! j) \<le> 300"
    and n: "ae_netif (arp_tbl s ! j) = Some i" "net_ifs s i = Some n" "if_dev n = Some d" "dev_open s d addr fd"
    and len: "length data \<le> 1500"
    and run: "arp_rx os packet d0 s = Inr s'"
  shows "(\<exists>ret rest. sys_sent s' = sys_sent s @ (fd, eth_frame (arp_sha m) addr 0x0800 data, ret) # rest) \<and>
    ae_data (arp_tbl s' ! j) = None \<and> arp_lookup (arp_tbl s') (arp_spa m) = Some (arp_sha m)"
proof -
  have sha: "length (arp_sha m) = 6" using v m(1) by (simp add: dec_arp_sha arp_valid_def)
  define p where "p = arp_rx_patrol os s"
  note p = arp_rx_patrol_ok [OF good, of os, folded p_def]
  have j: "j < length (arp_tbl s)" "ae_used (arp_tbl s ! j)" "ae_pa (arp_tbl s ! j) = arp_spa m"
    using select_SomeD [OF sel(1)] by auto
  have pj: "arp_tbl p ! j = arp_tbl s ! j"
    using patrol_keeps [of j "s\<lparr>sys_tick := Suc (sys_tick s), arp_timestamp := os_time os (sys_tick s)\<rparr>"] j fresh
    by (simp add: p_def arp_rx_patrol_def sys_time_def)
  have selp: "arp_table_select (arp_tbl p) (arp_spa m) = Some j"
    using p(1,4) j pj by (simp add: select_iff arp_good_def arp_inv_def)
  have np: "net_ifs p i = Some n" "dev_open p d addr fd" "dev_ok p d0"
    using n ok p(2) ready_cong [OF p(2)] dev_ok_cong [OF p(2)] by (auto simp: same_net_def)
  obtain r s1 where u: "arp_table_update os d0 (arp_spa m) (arp_sha m) p = Inr (r, s1)"
    and t: "arp_rx_target os m d0 (r = 0) s1 = Inr s'"
    using run v unfolding arp_rx_def arp_rx_update_def p_def [symmetric] m(1)
    by (auto simp: bindr_Inr_iff Let_def)
  have r: "r = 0" "arp_good s1" "same_net p s1" using arp_table_update_ok [OF p(1) sha, of os d0 "arp_spa m"] u selp by auto
  obtain ret where f: "sys_sent s1 = sys_sent p @ [(fd, eth_frame (arp_sha m) addr 0x0800 data, ret)]"
    "ae_data (arp_tbl s1 ! j) = None"
    using arp_update_flushes [OF p(1) sha selp _ _ np(1) n(3) np(2) len u] pj sel(2) n(1) by auto
  have "sends s1 s'"
    using arp_rx_target_sends [OF r(2) _ sha] t r(1) np(3) dev_ok_cong [OF r(3)] by simp
  then show ?thesis
    using f p(3) arp_update_learns [OF p(1) sha m(2)] u r(1) by (auto simp: sends_def)
qed

lemma arp_good_new:
  assumes good: "arp_good s" and unknown: "arp_table_select (arp_tbl s) pa = None" "arp_table_freespace (arp_tbl s) = Some j"
    and s1: "same_net s s1" "arp_tbl s1 = (arp_tbl s)[j := (case data of None \<Rightarrow> arp_tbl s ! j
        | Some x \<Rightarrow> (arp_tbl s ! j)\<lparr>ae_data := Some x, ae_len := length x\<rparr>)\<lparr>ae_used := True,
        ae_pa := pa, ae_timestamp := t, ae_netif := Some i\<rparr>]"
    and i: "netif_ready s i"
  shows "arp_good s1"
proof -
  let ?en = "(case data of None \<Rightarrow> arp_tbl s ! j
        | Some x \<Rightarrow> (arp_tbl s ! j)\<lparr>ae_data := Some x, ae_len := length x\<rparr>)\<lparr>ae_used := True,
        ae_pa := pa, ae_timestamp := t, ae_netif := Some i\<rparr>"
  have j: "j < length (arp_tbl s)" "\<not> ae_used (arp_tbl s ! j)" using freespace_SomeD [OF unknown(2)] by auto
  have "entry_ok ?en"
    using arp_good_entry(1) [OF good j(1)] by (auto simp: entry_ok_def split: option.splits)
  moreover have "\<not> same_pa ?en (arp_tbl s ! k)" if "k < length (arp_tbl s)" for k
    using unknown(1) that by (auto simp: select_None_iff same_pa_def)
  ultimately have "tbl_ok (arp_tbl s1)"
    using good unfolding s1(2) by (intro tbl_ok_update) (auto simp: arp_good_def arp_inv_def)
  moreover have "arp_live s1"
    unfolding arp_live_def s1(2)
  proof
    fix en assume "en \<in> set ((arp_tbl s)[j := ?en])"
    then have "en = ?en \<or> en \<in> set (arp_tbl s)" using set_update_subset_insert [of "arp_tbl s" j ?en] by blast
    then show "case ae_netif en of None \<Rightarrow> True | Some k \<Rightarrow> netif_ready s1 k"
      using good ready_cong(2) [OF s1(1)] i by (auto simp: arp_good_def arp_live_def split: option.splits)
  qed
  ultimately show ?thesis by (simp add: arp_good_def arp_inv_def)
qed

text \<open>What the other threads may do while \<open>arp_resolve\<close> waits: they keep the table in order.\<close>

definition arp_rely :: "(nat \<Rightarrow> (wait_ret \<times> ('a arp_scheme \<Rightarrow> 'a arp_scheme)) list) \<Rightarrow> bool" where
  "arp_rely wait \<longleftrightarrow>
     (\<forall>k. \<forall>(ret, others) \<in> set (wait k). \<forall>s. arp_good s \<longrightarrow> arp_good (others s) \<and> same_net s (others s))"

lemma arp_wait_ok:
  assumes "\<forall>(ret, others) \<in> set ws. \<forall>s. arp_good s \<longrightarrow> arp_good (others s) \<and> same_net s (others s)" "arp_good s"
  shows "arp_wait ws s = Inl Blocked \<or> (\<exists>ret s'. arp_wait ws s = Inr (ret, s') \<and> arp_good s' \<and> same_net s s')"
  using assms
proof (induction ws arbitrary: s)
  case (Cons w ws)
  obtain ret others where w: "w = (ret, others)" by fastforce
  have o: "arp_good (others s)" "same_net s (others s)" using Cons.prems w by auto
  show ?case using Cons.IH [OF _ o(1)] Cons.prems(1) o same_net_trans [OF o(2)] by (auto simp: w)
qed simp

text \<open>What a call of \<open>arp_resolve\<close> may end with.\<close>

definition arp_resolved :: "'a arp_scheme \<Rightarrow> (int \<times> bytes option \<times> 'a arp_scheme) res \<Rightarrow> bool" where
  "arp_resolved s result \<longleftrightarrow> result = Inl Blocked \<or>
    (\<exists>r ha s'. result = Inr (r, ha, s') \<and> arp_good s' \<and> same_net s s' \<and>
      (r = 1 \<and> (\<exists>h. ha = Some h \<and> length h = 6) \<or> (r = 0 \<or> r = -1) \<and> ha = None))"

lemma arp_request_sent:
  assumes "arp_good s" "netif_ready s i"
  obtains r s1 where "arp_send_request os i (Some pa) s = Inr (r, s1)" "arp_good s1" "same_net s s1"
  using arp_send_ok(1) [OF assms(2), of "replicate 6 0" "replicate 6 0" os "Some pa"] assms(1) arp_good_sends sends_same_net
  by (fastforce simp: okr_iff)

lemma arp_resolve_new:
  assumes good: "arp_good s" and i: "netif_ready s i" and sel: "arp_table_select (arp_tbl s) pa = None"
  shows "arp_resolved s (arp_resolve os wait i pa data s)"
proof (cases "arp_table_freespace (arp_tbl s)")
  case None
  have "same_net s (s\<lparr>sys_tick := k\<rparr>)" for k by (simp add: same_net_def)
  then show ?thesis using None good sel by (simp add: arp_resolved_def arp_resolve_def sys_timeofday_def)
next
  case (Some j)
  let ?k = "if data = None then Suc (sys_tick s) else Suc (Suc (sys_tick s))"
  let ?en = "(case data of None \<Rightarrow> arp_tbl s ! j
      | Some x \<Rightarrow> (arp_tbl s ! j)\<lparr>ae_data := Some x, ae_len := length x\<rparr>)\<lparr>ae_used := True,
      ae_pa := pa, ae_timestamp := os_time os ?k, ae_netif := Some i\<rparr>"
  define s0 where "s0 = set_entry j ?en (s\<lparr>sys_tick := Suc ?k\<rparr>)"
  have n0: "same_net s s0" by (simp add: s0_def same_net_def set_entry_def)
  have g0: "arp_good s0"
    by (rule arp_good_new [OF good sel Some n0, where data = data and t = "os_time os ?k" and i = i])
      (simp_all add: s0_def i)
  have "netif_ready s0 i" using i ready_cong(2) [OF n0] by simp
  then obtain r s1 where r: "arp_send_request os i (Some pa) s0 = Inr (r, s1)" "arp_good s1" "same_net s0 s1"
    by (rule arp_request_sent [OF g0])
  have tk: "same_net s (s\<lparr>sys_tick := k\<rparr>)" for k by (simp add: same_net_def)
  show ?thesis
  proof (cases "data = None \<or> os_malloc os (Suc (sys_tick s))")
    case True
    then have "arp_resolve os wait i pa data s = Inr (0, None, s1)"
      using sel Some r(1)
      by (auto simp: arp_resolve_def sys_timeofday_def sys_malloc_def sys_time_def s0_def split: option.splits)
    then show ?thesis using r(2) same_net_trans [OF n0 r(3)] by (simp add: arp_resolved_def)
  next
    case False
    then show ?thesis using sel Some good tk
      by (auto simp: arp_resolved_def arp_resolve_def sys_timeofday_def sys_malloc_def)
  qed
qed

text \<open>The wait for an entry that is there and has no hardware address yet.\<close>

lemma arp_resolve_pending:
  assumes good: "arp_good s" and i: "netif_ready s i" and rely: "arp_rely wait"
    and sel: "arp_table_select (arp_tbl s) pa = Some j" "ae_ha (arp_tbl s ! j) = ETHERNET_ADDR_ANY"
  shows "arp_resolved s (arp_resolve os wait i pa data s)"
proof -
  let ?s = "s\<lparr>sys_tick := Suc (sys_tick s)\<rparr>"
  have n: "same_net s ?s" by (simp add: same_net_def)
  have "arp_good ?s" "netif_ready ?s i" using good i ready_cong(2) [OF n] by simp_all
  then obtain r s1 where r: "arp_send_request os i (Some pa) ?s = Inr (r, s1)" "arp_good s1" "same_net ?s s1"
    by (rule arp_request_sent)
  have n1: "same_net s s1" by (rule same_net_trans [OF n r(3)])
  consider "arp_wait (wait (sys_tick s1)) s1 = Inl Blocked"
    | ret s2 where "arp_wait (wait (sys_tick s1)) s1 = Inr (ret, s2)" "arp_good s2" "same_net s1 s2"
    using arp_wait_ok [OF _ r(2), of "wait (sys_tick s1)"] rely by (auto simp: arp_rely_def)
  then show ?thesis
  proof cases
    case 1
    then show ?thesis using sel r(1) by (simp add: arp_resolved_def arp_resolve_def sys_timeofday_def)
  next
    case (2 ret s2)
    have l2: "length (arp_tbl s2) = length (arp_tbl s)"
      using 2(2) good by (simp add: arp_good_def arp_inv_def tbl_ok_def)
    have j: "j < length (arp_tbl s)" using select_SomeD [OF sel(1)] by auto
    have e2: "entry_ok (arp_tbl s2 ! j)" using arp_good_entry(1) [OF 2(2)] j l2 by simp
    have c: "arp_good (set_entry j (arp_entry_clear (arp_tbl s2 ! j)) s2)"
      using 2(2) j l2 clear_ok [OF e2] by (intro arp_good_set) auto
    have n2: "same_net s s2" "same_net s (set_entry j (arp_entry_clear (arp_tbl s2 ! j)) s2)"
      using same_net_trans [OF n1 2(3)] same_net_trans [OF same_net_trans [OF n1 2(3)] same_net_set_entry] by auto
    show ?thesis
      using sel r(1) 2 c n2 e2
      by (cases "\<not> ae_used (arp_tbl s2 ! j) \<or> ret = ETIMEDOUT")
        (auto simp: arp_resolved_def arp_resolve_def sys_timeofday_def entry_ok_def Let_def)
  qed
qed

lemma arp_resolve_ok:
  assumes good: "arp_good s" and i: "netif_ready s i" and rely: "arp_rely wait"
  shows "arp_resolve os wait i pa data s = Inl Blocked \<or>
    (\<exists>r ha s'. arp_resolve os wait i pa data s = Inr (r, ha, s') \<and> arp_good s' \<and> same_net s s' \<and>
      (r = 1 \<and> (\<exists>h. ha = Some h \<and> length h = 6) \<or> (r = 0 \<or> r = -1) \<and> ha = None))"
proof -
  have found: "arp_resolved s (arp_resolve os wait i pa data s)"
    if "arp_table_select (arp_tbl s) pa = Some j" "ae_ha (arp_tbl s ! j) \<noteq> ETHERNET_ADDR_ANY" for j
  proof -
    have "entry_ok (arp_tbl s ! j)" "same_net s (s\<lparr>sys_tick := Suc (sys_tick s)\<rparr>)"
      using select_SomeD [OF that(1)] arp_good_entry [OF good] by (auto simp: same_net_def)
    then show ?thesis using that good by (simp add: arp_resolved_def arp_resolve_def sys_timeofday_def entry_ok_def)
  qed
  have "arp_resolved s (arp_resolve os wait i pa data s)"
    using arp_resolve_new [OF good i] arp_resolve_pending [OF good i rely] found
    by (cases "arp_table_select (arp_tbl s) pa") blast+
  then show ?thesis unfolding arp_resolved_def .
qed



text \<open>
  Property C18: \<open>arp_resolve\<close> either is still waiting or returns one of its three results: an
  address of six bytes with \<open>ARP_RESOLVE_FOUND\<close>, or none. It keeps the table's invariant whatever
  the other threads do during the wait, as long as they keep it too, and never follows a bad pointer.
\<close>

theorem arp_resolve_safe:
  assumes "arp_good s" "netif_ready s i" "arp_rely wait"
  shows "arp_resolve os wait i pa data s = Inl Blocked \<or>
    (\<exists>r ha s'. arp_resolve os wait i pa data s = Inr (r, ha, s') \<and> arp_good s' \<and> same_net s s' \<and>
      (r = 1 \<and> (\<exists>h. ha = Some h \<and> length h = 6) \<or> (r = 0 \<or> r = -1) \<and> ha = None))"
  using assms by (rule arp_resolve_ok)

theorem arp_resolve_safe_witness:
  "let s = arp_start 3 (plain_dev [2, 0, 0, 0, 0, 1] 7) 4 (plain_netif 5)
   in arp_resolve (plain_os 0 60) (\<lambda>_. []) 4 6 None s = Inl Blocked \<or>
      (\<exists>r ha s'. arp_resolve (plain_os 0 60) (\<lambda>_. []) 4 6 None s = Inr (r, ha, s') \<and> arp_good s')"
proof -
  let ?s = "arp_start 3 (plain_dev [2, 0, 0, 0, 0, 1] 7) 4 (plain_netif 5)"
  have "arp_good ?s" "netif_ready ?s 4" by (rule arp_start_good, rule arp_start_ready) simp
  from arp_resolve_safe [OF this, of "\<lambda>_. []" "plain_os 0 60" 6 None] show ?thesis
    unfolding Let_def by (auto simp: arp_rely_def)
qed

section \<open>The window between the two critical sections\<close>

lemma arp_table_update_unknown:
  assumes "arp_rx_update os m d s = Inr (marge, s1)" "arp_table_select (arp_tbl s) (arp_spa m) = None"
  shows "\<not> marge \<and> s1 = arp_rx_patrol os s"
proof -
  have "arp_table_select (arp_tbl (arp_rx_patrol os s)) (arp_spa m) = None"
    using assms(2) by (auto simp: select_None_iff arp_rx_patrol_def arp_table_patrol_def sys_time_def)
  then show ?thesis using assms(1) by (auto simp: arp_rx_update_def arp_table_update_def)
qed

lemma arp_rx_target_inserts:
  assumes "netdev_get_netif d 2 s = Inr (Some i)" "net_ifs s i = Some n" "unicast n = arp_tpa m"
    and "netif_ready s i" "length (arp_sha m) = 6"
    and "arp_table_freespace (arp_tbl s) = Some j"
  shows "\<exists>s'. arp_rx_target os m d False s = Inr s' \<and> same_net s s' \<and> arp_tbl s' = (arp_tbl s)[j := (arp_tbl s ! j)\<lparr>ae_used := True, ae_pa := arp_spa m,
      ae_ha := arp_sha m, ae_timestamp := os_time os (sys_tick s)\<rparr>]"
proof -
  define s1 where "s1 = snd (arp_table_insert os (arp_spa m) (arp_sha m) s)"
  have s1: "same_net s s1" "arp_tbl s1 = (arp_tbl s)[j := (arp_tbl s ! j)\<lparr>ae_used := True, ae_pa := arp_spa m,
      ae_ha := arp_sha m, ae_timestamp := os_time os (sys_tick s)\<rparr>]"
    using assms(5,6) by (simp_all add: s1_def arp_table_insert_def sys_time_def same_net_def set_entry_def)
  have "okr (arp_send_reply os i (Some (arp_sha m)) (Some (arp_spa m)) (arp_sha m) s1) (\<lambda>(r, s'). sends s1 s')"
    using assms(4,5) ready_cong(2) [OF s1(1)] by (intro arp_send_ok(2)) auto
  then obtain r s2 where r: "arp_send_reply os i (Some (arp_sha m)) (Some (arp_spa m)) (arp_sha m) s1 = Inr (r, s2)" "sends s1 s2"
    by (auto simp: okr_iff)
  have "arp_rx_target os m d False s = Inr (if ntoh16 (os_endian os) (arp_op m) = 1 then s2 else s1)"
    using assms(1-3) r(1) unfolding arp_rx_target_def by (simp add: s1_def [symmetric])
  then show ?thesis
    using s1 r(2) same_net_trans [OF s1(1) sends_same_net [OF r(2)]] by auto
qed

lemma rx_patrol_unused:
  "j < length (arp_tbl s) \<Longrightarrow> \<not> ae_used (arp_tbl s ! j) \<Longrightarrow> \<not> ae_used (arp_tbl (arp_rx_patrol os s) ! j)"
  by (simp add: arp_rx_patrol_def arp_table_patrol_def sys_time_def)

lemma rx_patrol_net: "same_net s (arp_rx_patrol os s)" "length (arp_tbl (arp_rx_patrol os s)) = length (arp_tbl s)"
  "arp_table_select (arp_tbl s) pa = None \<Longrightarrow> arp_table_select (arp_tbl (arp_rx_patrol os s)) pa = None"
  by (auto simp: arp_rx_patrol_def arp_table_patrol_def sys_time_def same_net_def select_None_iff)

lemma freespace_ex: "j < length tbl \<Longrightarrow> \<not> ae_used (tbl ! j) \<Longrightarrow> \<exists>k. arp_table_freespace tbl = Some k"
  unfolding arp_table_freespace_def by (rule first_index_nth_ex)



end
