(* ===== verification/Iphdr.thy ===== *)
theory Iphdr
  imports Wire Cstring Checksum Ethernet
begin

text \<open>
  IP addresses as text and the IP header (\<open>ip.c\<close>, \<open>ip.h\<close>). An \<open>ip_addr_t\<close> is a word whose
  bytes in memory are the address in network order; \<open>ip_addr_pton\<close> and \<open>ip_addr_ntop\<close> work on
  those bytes.
\<close>

section \<open>Addresses as text\<close>

text \<open>The loop of \<open>ip_addr_pton\<close> from index \<open>idx\<close>; the result is the returned value and the bytes.\<close>

function ip_pton_loop :: "nat \<Rightarrow> string \<Rightarrow> bytes \<Rightarrow> int \<times> bytes" where
  "ip_pton_loop idx sp n =
     (if idx < 4 then
        let (ret, ep) = strtol 10 sp in
        if ret < 0 \<or> ret > 255 then (-1, n)
        else if ep = sp then (-1, n)
        else if (idx = 3 \<and> ep \<noteq> []) \<or> (idx \<noteq> 3 \<and> \<not> points_to (CHR ''.'') ep) then (-1, n)
        else ip_pton_loop (idx + 1) (drop 1 ep) (n[idx := word_of_int ret])
      else (0, n))"
  by pat_completeness auto
termination
  by (relation "measure (\<lambda>(idx, _). 4 - idx)") auto

declare ip_pton_loop.simps [simp del]

definition word_of_bytes :: "endian \<Rightarrow> bytes \<Rightarrow> u32" where
  "word_of_bytes e bs = load32 e (bs ! 0) (bs ! 1) (bs ! 2) (bs ! 3)"

text \<open>\<open>n\<close> is what the word holds before the call.\<close>

definition ip_addr_pton :: "endian \<Rightarrow> string \<Rightarrow> u32 \<Rightarrow> int \<times> u32" where
  "ip_addr_pton e p n = (let (ret, bs) = ip_pton_loop 0 p (bytes32 e n) in (ret, word_of_bytes e bs))"

definition ip_addr_ntop :: "endian \<Rightarrow> u32 \<Rightarrow> nat \<Rightarrow> string" where
  "ip_addr_ntop e n sz =
     (let ptr = bytes32 e n
      in snprintf sz (fmt_d (unat (ptr ! 0)) @ ''.'' @ fmt_d (unat (ptr ! 1)) @ ''.'' @
                      fmt_d (unat (ptr ! 2)) @ ''.'' @ fmt_d (unat (ptr ! 3))))"

lemma ip_pton_step:
  assumes "idx < 4" "\<not> starts_digit 10 r" "idx = 3 \<Longrightarrow> r = []" "idx \<noteq> 3 \<Longrightarrow> points_to (CHR ''.'') r"
  shows "ip_pton_loop idx (fmt_d (unat b) @ r) n = ip_pton_loop (idx + 1) (drop 1 r) (n[idx := (b :: u8)])"
proof -
  have b: "unat b < 256" by (rule unat_u8_less)
  have "strtol 10 (fmt_d (unat b) @ r) = (int (unat b), r)"
    using b assms(2) by (intro strtol_fmt_d) auto
  moreover have "fmt_d (unat b) @ r \<noteq> r" using fmt_d_first [of "unat b"] by auto
  moreover have "(word_of_int (int (unat b)) :: u8) = b" by simp
  ultimately show ?thesis
    using assms b by (subst ip_pton_loop.simps) (auto simp: Let_def simp del: of_nat_unat of_int_of_nat_eq)
qed

lemma ip_pton_done: "4 \<le> idx \<Longrightarrow> ip_pton_loop idx p n = (0, n)"
  by (subst ip_pton_loop.simps) simp

lemma length_fmt_d: "n < 1000 \<Longrightarrow> length (fmt_d n) \<le> 3"
  by (simp add: fmt_d.simps [of n] fmt_d.simps [of "n div 10"] fmt_d.simps [of "n div 10 div 10"])

lemma ip_addr_text:
  "length (ip_addr_ntop e n 16) < 16 \<and> ip_addr_pton e (ip_addr_ntop e n 16) m = (0, n)"
proof -
  obtain a b c d where n: "bytes32 e n = [a, b, c, d]" "load32 e a b c d = n" by (rule bytes32_cases)
  obtain a' b' c' d' where m: "bytes32 e m = [a', b', c', d']" by (rule bytes32_cases)
  let ?t = "fmt_d (unat a) @ CHR ''.'' # fmt_d (unat b) @ CHR ''.'' # fmt_d (unat c) @ CHR ''.'' # fmt_d (unat d)"
  have "length (fmt_d (unat x)) \<le> 3" for x :: u8
    using unat_u8_less [of x] by (intro length_fmt_d) simp
  from this [of a] this [of b] this [of c] this [of d]
  have "length ?t \<le> 15" by simp
  then have t: "ip_addr_ntop e n 16 = ?t" by (simp add: ip_addr_ntop_def n snprintf_def)
  have "ip_pton_loop 0 ?t [a', b', c', d'] = (0, [a, b, c, d])"
    using ip_pton_step [of 3 "[]" d]
    by (simp add: ip_pton_step ip_pton_done points_to_def numeral_eq_Suc)
  then show ?thesis using \<open>length ?t \<le> 15\<close> by (simp add: t ip_addr_pton_def m word_of_bytes_def n(2))
qed

text \<open>
  Printing an IP address into a buffer of \<open>IP_ADDR_STR_LEN\<close> bytes and parsing the
  text gives the address back, on hosts of either byte order; the text always fits the buffer.
\<close>

theorem ip_addr_roundtrip:
  "length (ip_addr_ntop e n 16) < 16 \<and> ip_addr_pton e (ip_addr_ntop e n 16) m = (0, n)"
  by (rule ip_addr_text)

section \<open>The header\<close>

record ip_hdr =
  ip_vhl :: u8
  ip_tos :: u8
  ip_len :: u16
  ip_id :: u16
  ip_offset :: u16
  ip_ttl :: u8
  ip_protocol :: u8
  ip_sum :: u16
  ip_src :: u32
  ip_dst :: u32

definition enc_ip_hdr :: "endian \<Rightarrow> ip_hdr \<Rightarrow> bytes" where
  "enc_ip_hdr e h =
     [ip_vhl h, ip_tos h] @ bytes16 e (ip_len h) @ bytes16 e (ip_id h) @ bytes16 e (ip_offset h) @
     [ip_ttl h, ip_protocol h] @ bytes16 e (ip_sum h) @ bytes32 e (ip_src h) @ bytes32 e (ip_dst h)"

definition dec_ip_hdr :: "endian \<Rightarrow> bytes \<Rightarrow> ip_hdr" where
  "dec_ip_hdr e bs =
     \<lparr>ip_vhl = bs ! 0, ip_tos = bs ! 1, ip_len = load16 e (bs ! 2) (bs ! 3),
      ip_id = load16 e (bs ! 4) (bs ! 5), ip_offset = load16 e (bs ! 6) (bs ! 7),
      ip_ttl = bs ! 8, ip_protocol = bs ! 9, ip_sum = load16 e (bs ! 10) (bs ! 11),
      ip_src = load32 e (bs ! 12) (bs ! 13) (bs ! 14) (bs ! 15),
      ip_dst = load32 e (bs ! 16) (bs ! 17) (bs ! 18) (bs ! 19)\<rparr>"

interpretation ipf: wire_format "enc_ip_hdr e" "dec_ip_hdr e" 20 "\<lambda>_. True" for e
proof unfold_locales
  fix h
  show "length (enc_ip_hdr e h) = 20" by (simp add: enc_ip_hdr_def)
  obtain a1 a2 where a: "bytes16 e (ip_len h) = [a1, a2]" "load16 e a1 a2 = ip_len h" by (rule bytes16_cases)
  obtain b1 b2 where b: "bytes16 e (ip_id h) = [b1, b2]" "load16 e b1 b2 = ip_id h" by (rule bytes16_cases)
  obtain c1 c2 where c: "bytes16 e (ip_offset h) = [c1, c2]" "load16 e c1 c2 = ip_offset h" by (rule bytes16_cases)
  obtain d1 d2 where d: "bytes16 e (ip_sum h) = [d1, d2]" "load16 e d1 d2 = ip_sum h" by (rule bytes16_cases)
  obtain s1 s2 s3 s4 where s: "bytes32 e (ip_src h) = [s1, s2, s3, s4]" "load32 e s1 s2 s3 s4 = ip_src h"
    by (rule bytes32_cases)
  obtain t1 t2 t3 t4 where t: "bytes32 e (ip_dst h) = [t1, t2, t3, t4]" "load32 e t1 t2 t3 t4 = ip_dst h"
    by (rule bytes32_cases)
  show "dec_ip_hdr e (enc_ip_hdr e h) = h"
    by (simp add: dec_ip_hdr_def enc_ip_hdr_def a b c d s t)
next
  fix bs :: bytes assume "length bs = 20"
  then show "enc_ip_hdr e (dec_ip_hdr e bs) = bs"
    by (auto simp: numeral_eq_Suc length_Suc_conv enc_ip_hdr_def dec_ip_hdr_def bytes16_load16 bytes32_load32)
next
  fix bs rest :: bytes assume l: "20 \<le> length bs"
  then show "dec_ip_hdr e (bs @ rest) = dec_ip_hdr e bs"
    by (auto simp: dec_ip_hdr_def nth_append)
qed simp

end
