(* ===== verification/Ipfrag.thy ===== *)
theory Ipfrag
  imports Iphdr Arp Bitmask
begin

unbundle bit_operations_syntax

text \<open>
  Reassembly of IP fragments, the first part of \<open>ip.c\<close>. The fragment objects live in a store
  indexed by address; the linked list \<open>fragments\<close> is the list of the addresses it visits. Freeing
  an object removes it from the store, so that a later visit of its address faults.
\<close>

abbreviation (input) IP_FRAGMENT_TIMEOUT_SEC :: int where "IP_FRAGMENT_TIMEOUT_SEC \<equiv> 30"
abbreviation (input) IP_FRAGMENT_NUM_MAX :: "64 word" where "IP_FRAGMENT_NUM_MAX \<equiv> 8"

record ip_fragment =
  fr_src :: u32
  fr_dst :: u32
  fr_id :: u16
  fr_protocol :: u16
  fr_len :: u16
  fr_data :: bytes
  fr_mask :: "u32 list"
  fr_timestamp :: int

record frag = arp +
  fragments :: "nat list"
  frag_heap :: "nat \<rightharpoonup> ip_fragment"
  frag_count :: "64 word"
  frag_timestamp :: int

text \<open>
  The mask array has 2048 words; the size passed to \<open>maskclr\<close> is \<open>sizeof\<close>, the number of its
  bytes. The time stamp of a new object is not set here.
\<close>

definition ip_fragment_alloc :: "os \<Rightarrow> ip_hdr \<Rightarrow> 'a frag_scheme \<Rightarrow> (nat option \<times> 'a frag_scheme) res" where
  "ip_fragment_alloc os hdr s =
     (let (p, s) = sys_malloc os s in
      case p of
        None \<Rightarrow> Inr (None, s)
      | Some p \<Rightarrow>
          bindr (maskclr (replicate 2048 0) 8192) (\<lambda>mask.
          let new_fragment = \<lparr>fr_src = ip_src hdr, fr_dst = ip_dst hdr, fr_id = ip_id hdr,
                fr_protocol = ucast (ip_protocol hdr), fr_len = 0, fr_data = replicate 65535 0,
                fr_mask = mask, fr_timestamp = 0\<rparr>
          in Inr (Some p, s\<lparr>frag_heap := (frag_heap s)(p \<mapsto> new_fragment), fragments := p # fragments s\<rparr>)))"

text \<open>The object is unlinked; every entry before it is followed.\<close>

fun ip_fragment_unlink :: "(nat \<rightharpoonup> ip_fragment) \<Rightarrow> nat \<Rightarrow> nat list \<Rightarrow> nat list option res" where
  "ip_fragment_unlink h p [] = Inr None"
| "ip_fragment_unlink h p (q # qs) =
     (if q = p then Inr (Some qs)
      else bindr (deref h q) (\<lambda>_. bindr (ip_fragment_unlink h p qs) (\<lambda>r. Inr (map_option ((#) q) r))))"

definition ip_fragment_detach :: "nat \<Rightarrow> 'a frag_scheme \<Rightarrow> (nat option \<times> 'a frag_scheme) res" where
  "ip_fragment_detach p s =
     bindr (ip_fragment_unlink (frag_heap s) p (fragments s)) (\<lambda>r.
       case r of
         None \<Rightarrow> Inr (None, s)
       | Some qs \<Rightarrow> Inr (Some p, s\<lparr>fragments := qs\<rparr>))"

fun ip_fragment_find :: "(nat \<rightharpoonup> ip_fragment) \<Rightarrow> ip_hdr \<Rightarrow> nat list \<Rightarrow> nat option res" where
  "ip_fragment_find h hdr [] = Inr None"
| "ip_fragment_find h hdr (p # ps) =
     bindr (deref h p) (\<lambda>entry.
       if fr_src entry = ip_src hdr \<and> fr_dst entry = ip_dst hdr \<and> fr_id entry = ip_id hdr \<and>
          fr_protocol entry = ucast (ip_protocol hdr)
       then Inr (Some p) else ip_fragment_find h hdr ps)"

definition ip_fragment_search :: "ip_hdr \<Rightarrow> 'a frag_scheme \<Rightarrow> nat option res" where
  "ip_fragment_search hdr s = ip_fragment_find (frag_heap s) hdr (fragments s)"

text \<open>
  The loop of \<open>ip_fragment_patrol\<close>. The expired entry is unlinked and \<open>entry\<close> set to its
  successor, which is then freed and examined next.
\<close>

fun ip_fragment_patrol_loop ::
  "int \<Rightarrow> (nat \<rightharpoonup> ip_fragment) \<Rightarrow> nat list \<Rightarrow> (nat list \<times> (nat \<rightharpoonup> ip_fragment) \<times> int) res" where
  "ip_fragment_patrol_loop now h [] = Inr ([], h, 0)"
| "ip_fragment_patrol_loop now h (p # ps) =
     bindr (deref h p) (\<lambda>entry.
       if now - fr_timestamp entry > IP_FRAGMENT_TIMEOUT_SEC
       then bindr (ip_fragment_patrol_loop now (case ps of [] \<Rightarrow> h | q # _ \<Rightarrow> h(q := None)) ps)
              (\<lambda>(ps, h, count). Inr (ps, h, count + 1))
       else bindr (ip_fragment_patrol_loop now h ps) (\<lambda>(ps, h, count). Inr (p # ps, h, count)))"

definition ip_fragment_patrol :: "os \<Rightarrow> 'a frag_scheme \<Rightarrow> (int \<times> 'a frag_scheme) res" where
  "ip_fragment_patrol os s =
     (let (now, s) = sys_time os s
      in bindr (ip_fragment_patrol_loop now (frag_heap s) (fragments s)) (\<lambda>(ps, h, count).
         Inr (count, s\<lparr>fragments := ps, frag_heap := h\<rparr>)))"

text \<open>The data of one packet stored in the object; \<open>offset\<close> is the header field in host order.\<close>

definition ip_fragment_store :: "u16 \<Rightarrow> bytes \<Rightarrow> ip_fragment \<Rightarrow> ip_fragment res" where
  "ip_fragment_store offset payload fragment =
     (let off = push_bit 3 (offset AND 0x1fff) in
      bindr (mem_write (fr_data fragment) (unat off) payload) (\<lambda>data.
      bindr (maskset (fr_mask fragment) 8192 (unat off) (length payload)) (\<lambda>mask.
      let fragment = fragment\<lparr>fr_data := data, fr_mask := mask\<rparr>
      in Inr (if offset AND 0x2000 = 0 then fragment\<lparr>fr_len := of_nat (unat off + length payload)\<rparr>
              else fragment))))"

definition ip_fragment_complete :: "ip_fragment \<Rightarrow> bool res" where
  "ip_fragment_complete fragment =
     (if fr_len fragment = 0 then Inr False
      else maskchk (fr_mask fragment) 8192 0 (unat (fr_len fragment)))"

text \<open>Finding or creating the object for a packet; the static time stamp is never set.\<close>

definition ip_fragment_object :: "os \<Rightarrow> ip_hdr \<Rightarrow> 'a frag_scheme \<Rightarrow> (nat option \<times> 'a frag_scheme) res" where
  "ip_fragment_object os hdr s =
     (let (now, s) = sys_time os s in
      bindr (if now - frag_timestamp s > 10 then ip_fragment_patrol os s else Inr (0, s)) (\<lambda>(_, s).
      bindr (ip_fragment_search hdr s) (\<lambda>fragment.
      case fragment of
        Some p \<Rightarrow> Inr (Some p, s)
      | None \<Rightarrow>
          if frag_count s \<ge> IP_FRAGMENT_NUM_MAX then Inr (None, s) else
          bindr (ip_fragment_alloc os hdr s) (\<lambda>(fragment, s).
          case fragment of
            None \<Rightarrow> Inr (None, s)
          | Some p \<Rightarrow> Inr (Some p, s\<lparr>frag_count := frag_count s + 1\<rparr>)))))"

text \<open>\<open>payload\<close> is the memory behind the pointer, \<open>plen\<close> the length passed beside it.\<close>

definition ip_fragment_process ::
  "os \<Rightarrow> ip_hdr \<Rightarrow> bytes \<Rightarrow> nat \<Rightarrow> 'a frag_scheme \<Rightarrow> (nat option \<times> 'a frag_scheme) res" where
  "ip_fragment_process os hdr payload plen s =
     bindr (ip_fragment_object os hdr s) (\<lambda>(fragment, s).
     case fragment of
       None \<Rightarrow> Inr (None, s)
     | Some p \<Rightarrow>
         bindr (deref (frag_heap s) p) (\<lambda>fr.
         bindr (mem_read payload 0 plen) (\<lambda>payload.
         bindr (ip_fragment_store (ntoh16 (os_endian os) (ip_offset hdr)) payload fr) (\<lambda>fr.
         let (now, s) = sys_time os s;
             fr = fr\<lparr>fr_timestamp := now\<rparr>;
             s = s\<lparr>frag_heap := (frag_heap s)(p \<mapsto> fr)\<rparr>
         in bindr (ip_fragment_complete fr) (\<lambda>done.
            if \<not> done then Inr (None, s) else
            bindr (ip_fragment_detach p s) (\<lambda>(_, s).
            Inr (Some p, s\<lparr>frag_count := frag_count s - 1\<rparr>)))))))"

section \<open>Reassembly is exact\<close>

text \<open>The place of a packet's data, from the header field in host order.\<close>

definition frag_off :: "u16 \<Rightarrow> nat" where
  "frag_off offset = unat (push_bit 3 (offset AND 0x1fff))"

definition frag_last :: "u16 \<Rightarrow> bool" where
  "frag_last offset \<longleftrightarrow> offset AND 0x2000 = 0"

text \<open>A packet that carries a part of the datagram \<open>D\<close>, and the bytes a set of packets covers.\<close>

definition piece_of :: "bytes \<Rightarrow> u16 \<times> bytes \<Rightarrow> bool" where
  "piece_of D p \<longleftrightarrow>
     (case p of (offset, pl) \<Rightarrow>
        pl \<noteq> [] \<and> frag_off offset + length pl \<le> length D \<and>
        pl = take (length pl) (drop (frag_off offset) D) \<and>
        (frag_last offset \<longleftrightarrow> frag_off offset + length pl = length D))"

definition covered :: "(u16 \<times> bytes) set \<Rightarrow> nat \<Rightarrow> bool" where
  "covered P i \<longleftrightarrow> (\<exists>(offset, pl) \<in> P. frag_off offset \<le> i \<and> i < frag_off offset + length pl)"

fun store_all :: "(u16 \<times> bytes) list \<Rightarrow> ip_fragment \<Rightarrow> ip_fragment res" where
  "store_all [] fr = Inr fr"
| "store_all ((offset, pl) # ps) fr = bindr (ip_fragment_store offset pl fr) (store_all ps)"

definition frag_holds :: "bytes \<Rightarrow> (u16 \<times> bytes) set \<Rightarrow> ip_fragment \<Rightarrow> bool" where
  "frag_holds D P fr \<longleftrightarrow>
     length (fr_data fr) = 65535 \<and> length (fr_mask fr) = 2048 \<and>
     (\<forall>i. mask_bit (fr_mask fr) i \<longleftrightarrow> covered P i) \<and>
     (\<forall>i. covered P i \<longrightarrow> i < length D \<and> fr_data fr ! i = D ! i) \<and>
     fr_len fr = (if \<exists>(offset, pl) \<in> P. frag_last offset then of_nat (length D) else 0)"

lemma covered_insert:
  "covered (insert (offset, pl) P) i \<longleftrightarrow>
     frag_off offset \<le> i \<and> i < frag_off offset + length pl \<or> covered P i"
  by (auto simp: covered_def)

lemma store_holds:
  assumes h: "frag_holds D P fr" and p: "piece_of D (offset, pl)" and D: "length D \<le> 65535"
  shows "\<exists>fr'. ip_fragment_store offset pl fr = Inr fr' \<and> frag_holds D (insert (offset, pl) P) fr'"
proof -
  let ?o = "frag_off offset"
  have pl: "0 < length pl" "?o + length pl \<le> length D" "pl = take (length pl) (drop ?o D)"
    "frag_last offset \<longleftrightarrow> ?o + length pl = length D"
    using p by (auto simp: piece_of_def)
  have l: "length (fr_data fr) = 65535" "length (fr_mask fr) = 2048" using h by (auto simp: frag_holds_def)
  have w: "mem_write (fr_data fr) ?o pl = Inr (take ?o (fr_data fr) @ pl @ drop (?o + length pl) (fr_data fr))"
    (is "_ = Inr ?d") using pl(2) l D by (simp add: mem_write_def)
  obtain m where m: "maskset (fr_mask fr) 8192 ?o (length pl) = Inr m" "length m = 2048"
    "\<And>i. mask_bit m i \<longleftrightarrow> mask_bit (fr_mask fr) i \<or> ?o \<le> i \<and> i < ?o + length pl"
    using maskset_bits [of "length pl" ?o "fr_mask fr" 8192] pl l D by auto
  define fr' where "fr' = (if frag_last offset then fr\<lparr>fr_data := ?d, fr_mask := m, fr_len := of_nat (?o + length pl)\<rparr>
    else fr\<lparr>fr_data := ?d, fr_mask := m\<rparr>)"
  have run: "ip_fragment_store offset pl fr = Inr fr'"
    using w m(1) by (simp add: ip_fragment_store_def frag_off_def frag_last_def fr'_def Let_def)
  have data: "?d ! i = D ! i" if "covered (insert (offset, pl) P) i" for i
  proof -
    have i: "i < length (fr_data fr)"
      using that h pl(2) D l by (auto simp: covered_insert frag_holds_def)
    have "?d ! i = (if ?o \<le> i \<and> i < ?o + length pl then pl ! (i - ?o) else fr_data fr ! i)"
      using nth_mem_write [OF w i] .
    moreover have "pl ! (i - ?o) = D ! i" if r: "?o \<le> i" "i < ?o + length pl"
    proof -
      have "pl ! (i - ?o) = take (length pl) (drop ?o D) ! (i - ?o)" using pl(3) by simp
      then show ?thesis using r pl(2) by simp
    qed
    ultimately show ?thesis using that h by (auto simp: covered_insert frag_holds_def)
  qed
  have "frag_holds D (insert (offset, pl) P) fr'"
    using h m data pl(2,4) l D
    by (auto simp: frag_holds_def fr'_def covered_insert)
  with run show ?thesis by blast
qed

lemma store_all_holds:
  assumes "frag_holds D P fr" "\<forall>p \<in> set ps. piece_of D p" "length D \<le> 65535"
  shows "\<exists>fr'. store_all ps fr = Inr fr' \<and> frag_holds D (P \<union> set ps) fr'"
  using assms
proof (induction ps arbitrary: P fr)
  case (Cons p ps)
  obtain offset pl where p: "p = (offset, pl)" by fastforce
  obtain fr1 where fr1: "ip_fragment_store offset pl fr = Inr fr1" "frag_holds D (insert (offset, pl) P) fr1"
    using store_holds [OF Cons.prems(1) _ Cons.prems(3)] Cons.prems(2) p by fastforce
  then show ?case using Cons.IH [OF fr1(2)] Cons.prems p by auto
qed simp

lemma complete_iff:
  assumes h: "frag_holds D P fr" and P: "\<forall>p \<in> P. piece_of D p" and D: "0 < length D" "length D \<le> 65535"
  shows "ip_fragment_complete fr = Inr (\<forall>i < length D. covered P i)"
proof -
  have len: "unat (of_nat (length D) :: u16) = length D"
    using D by (simp add: unsigned_of_nat take_bit_nat_eq_self)
  show ?thesis
  proof (cases "\<exists>(offset, pl) \<in> P. frag_last offset")
    case True
    then have fl: "fr_len fr = of_nat (length D)" using h by (auto simp: frag_holds_def)
    have "fr_len fr \<noteq> 0"
    proof
      assume "fr_len fr = 0"
      then have "unat (of_nat (length D) :: u16) = 0" using fl by simp
      then show False using len D(1) by simp
    qed
    moreover have "maskchk (fr_mask fr) 8192 0 (length D) = Inr (mask_all (fr_mask fr) 0 (0 + length D))"
      using h D by (intro maskchk_all) (auto simp: frag_holds_def)
    moreover have "mask_all (fr_mask fr) 0 (0 + length D) = (\<forall>i < length D. covered P i)"
      using h by (auto simp: mask_all_def frag_holds_def)
    ultimately show ?thesis by (simp add: ip_fragment_complete_def fl len)
  next
    case False
    have "\<not> covered P (length D - 1)"
    proof
      assume "covered P (length D - 1)"
      then obtain offset pl where o: "(offset, pl) \<in> P" "length D - 1 < frag_off offset + length pl"
        by (auto simp: covered_def)
      then have "frag_last offset" using P D(1) by (fastforce simp: piece_of_def)
      with o(1) False show False by auto
    qed
    then have "\<not> (\<forall>i < length D. covered P i)" using D(1) by (meson diff_less zero_less_one)
    moreover have "fr_len fr = 0" using False h unfolding frag_holds_def by auto
    ultimately show ?thesis by (simp add: ip_fragment_complete_def)
  qed
qed

lemma holds_data:
  assumes h: "frag_holds D P fr" and all: "\<forall>i < length D. covered P i" and P: "\<forall>p \<in> P. piece_of D p"
    and D: "0 < length D" "length D \<le> 65535"
  shows "unat (fr_len fr) = length D \<and> take (unat (fr_len fr)) (fr_data fr) = D"
proof -
  have "covered P (length D - 1)" using all D(1) by simp
  then obtain offset pl where o: "(offset, pl) \<in> P" "length D - 1 < frag_off offset + length pl"
    by (auto simp: covered_def)
  then have "frag_last offset" using P D(1) by (fastforce simp: piece_of_def)
  then have "fr_len fr = of_nat (length D)" using h o(1) by (auto simp: frag_holds_def)
  then have len: "unat (fr_len fr) = length D" using D by (simp add: unsigned_of_nat take_bit_nat_eq_self)
  have "take (length D) (fr_data fr) = D"
    using h all D by (intro nth_equalityI) (auto simp: frag_holds_def)
  with len show ?thesis by simp
qed

definition fresh_fragment :: "ip_fragment \<Rightarrow> bool" where
  "fresh_fragment fr \<longleftrightarrow> length (fr_data fr) = 65535 \<and> fr_mask fr = replicate 2048 0 \<and> fr_len fr = 0"

lemma fresh_holds: "fresh_fragment fr \<Longrightarrow> frag_holds D {} fr"
  by (simp add: fresh_fragment_def frag_holds_def covered_def)

text \<open>
  Property C9: reassembly is exact. Let packets that carry parts of a datagram of up to 65535 bytes
  be stored into a cleared fragment object, in any order, with repeats and overlaps. No store faults;
  the object is reported complete exactly when the packets cover every byte of the datagram, the
  last fragment included, and then it holds the datagram's length and its bytes.
\<close>

theorem ip_reassembly_exact:
  assumes "fresh_fragment fr" "\<forall>p \<in> set ps. piece_of D p" "0 < length D" "length D \<le> 65535"
  shows "\<exists>fr'. store_all ps fr = Inr fr' \<and>
    ip_fragment_complete fr' = Inr (\<forall>i < length D. covered (set ps) i) \<and>
    ((\<forall>i < length D. covered (set ps) i) \<longrightarrow>
      unat (fr_len fr') = length D \<and> take (unat (fr_len fr')) (fr_data fr') = D)"
proof -
  obtain fr' where fr': "store_all ps fr = Inr fr'" "frag_holds D (set ps) fr'"
    using store_all_holds [OF fresh_holds [OF assms(1)] assms(2,4)] by auto
  then show ?thesis
    using complete_iff [OF fr'(2) assms(2,3,4)] holds_data [OF fr'(2) _ assms(2,3,4)] by blast
qed

theorem ip_reassembly_exact_witness:
  "\<exists>fr'. store_all [(1, [9, 10]), (0x2000, [1, 2, 3, 4, 5, 6, 7, 8])]
      \<lparr>fr_src = 0, fr_dst = 0, fr_id = 0, fr_protocol = 0, fr_len = 0, fr_data = replicate 65535 0,
       fr_mask = replicate 2048 0, fr_timestamp = 0\<rparr> = Inr fr' \<and>
    ip_fragment_complete fr' = Inr True \<and> take (unat (fr_len fr')) (fr_data fr') = [1, 2, 3, 4, 5, 6, 7, 8, 9, 10]"
proof -
  let ?D = "[1, 2, 3, 4, 5, 6, 7, 8, 9, 10] :: bytes"
  let ?ps = "[(1, [9, 10]), (0x2000, [1, 2, 3, 4, 5, 6, 7, 8])] :: (u16 \<times> bytes) list"
  let ?fr = "\<lparr>fr_src = 0, fr_dst = 0, fr_id = 0, fr_protocol = 0, fr_len = 0, fr_data = replicate 65535 0,
       fr_mask = replicate 2048 0, fr_timestamp = 0\<rparr>"
  have f: "fresh_fragment ?fr" by (simp add: fresh_fragment_def)
  have o: "frag_off 1 = 8" "frag_off 0x2000 = 0" "frag_last 1" "\<not> frag_last 0x2000"
    by (simp_all add: frag_off_def frag_last_def)
  have p: "\<forall>p \<in> set ?ps. piece_of ?D p" by (simp add: piece_of_def o)
  have c: "\<forall>i < length ?D. covered (set ?ps) i" by (auto simp: covered_def o)
  show ?thesis using ip_reassembly_exact [OF f p] c by auto
qed

section \<open>The object list\<close>

text \<open>
  Property C33: the first fragment of any datagram makes the code write outside the new object. When
  no object matches and there is memory and room for one, \<open>ip_fragment_process\<close> does not return:
  \<open>ip_fragment_alloc\<close> has \<open>maskclr\<close> clear as many words as the mask has bytes.
\<close>

theorem ip_first_fragment_overruns:
  assumes "fragments s = []" "frag_count s < 8" "\<forall>k. os_malloc os k"
  shows "ip_fragment_process os hdr payload plen s = Inl OutOfBounds"
proof -
  have "maskclr (replicate 2048 0) 8192 = Inl OutOfBounds" by (rule maskclr_overrun) simp
  then show ?thesis
    using assms
    by (simp add: ip_fragment_process_def ip_fragment_object_def ip_fragment_patrol_def ip_fragment_search_def
        ip_fragment_alloc_def sys_time_def sys_malloc_def not_le [symmetric])
qed

definition frag_start :: "arp \<Rightarrow> frag" where
  "frag_start a = arp.extend a \<lparr>fragments = [], frag_heap = Map.empty, frag_count = 0, frag_timestamp = 0\<rparr>"

theorem ip_first_fragment_overruns_witness:
  "ip_fragment_process (plain_os 0 60)
     \<lparr>ip_vhl = 0x45, ip_tos = 0, ip_len = 28, ip_id = 1, ip_offset = 0x2000, ip_ttl = 64, ip_protocol = 6,
      ip_sum = 0, ip_src = 1, ip_dst = 2\<rparr> [1, 2, 3, 4, 5, 6, 7, 8] 8
     (frag_start (arp_start 3 (plain_dev [2, 0, 0, 0, 0, 1] 7) 4 (plain_netif 5))) = Inl OutOfBounds"
  by (rule ip_first_fragment_overruns) (simp_all add: frag_start_def arp.defs)

lemma patrol_loop_expired:
  assumes "h p = Some fr" "now - fr_timestamp fr > 30"
  shows "ip_fragment_patrol_loop now h (p # q # ps) = Inl UseAfterFree"
  using assms by (simp add: deref_def)

lemma patrol_loop_skip:
  "h p = Some fr \<Longrightarrow> now - fr_timestamp fr \<le> 30 \<Longrightarrow>
     ip_fragment_patrol_loop now h (p # ps) =
       bindr (ip_fragment_patrol_loop now h ps) (\<lambda>(ps, h, count). Inr (p # ps, h, count))"
  by simp



end
