(* ===== verification/Ip.thy ===== *)
theory Ip
  imports Ipfrag
begin

unbundle bit_operations_syntax

text \<open>
  The IP layer, \<open>ip.c\<close> after the fragments: interfaces, the receive handler, sending with
  fragmentation, and the registration of transport protocols. The handlers of the layer above are
  named by tags and run through the parameter \<open>call\<close>; \<open>wait\<close> is what other threads do while
  \<open>arp_resolve\<close> waits.
\<close>

abbreviation (input) IP_VERSION_IPV4 :: u8 where "IP_VERSION_IPV4 \<equiv> 4"
abbreviation (input) IP_PROTOCOL_TCP :: u8 where "IP_PROTOCOL_TCP \<equiv> 6"
abbreviation (input) IP_HDR_SIZE_MIN :: int where "IP_HDR_SIZE_MIN \<equiv> 20"
abbreviation (input) IPADDR_BROADCAST :: u32 where "IPADDR_BROADCAST \<equiv> 0xffffffff"

datatype ip_handler = tcp_rx_handler

record ip_proto =
  ipp_type :: u8
  ipp_handler :: ip_handler

record ip = frag +
  default_netif :: "nat option"
  protocols :: "ip_proto list"
  ip_next_id :: u16

section \<open>Interfaces\<close>

text \<open>\<open>blk\<close> is what the allocated block happens to contain.\<close>

definition ip_netif_register ::
  "os \<Rightarrow> nat \<Rightarrow> string \<Rightarrow> string \<Rightarrow> netif_ip \<Rightarrow> 'a ip_scheme \<Rightarrow> (nat option \<times> 'a ip_scheme) res" where
  "ip_netif_register os d addr nmask blk s =
     (let (p, s) = sys_malloc os s in
      case p of
        None \<Rightarrow> Inr (None, s)
      | Some i \<Rightarrow>
          let iface = blk\<lparr>if_family := NETIF_FAMILY_IPV4, if_dev := None\<rparr>;
              (r, a) = ip_addr_pton (os_endian os) addr (unicast iface) in
          if r = -1 then Inr (None, s) else
          let (r, m) = ip_addr_pton (os_endian os) nmask (netmask iface) in
          if r = -1 then Inr (None, s) else
          let iface = iface\<lparr>unicast := a, netmask := m, network := a AND m, broadcast := (a AND m) OR NOT m\<rparr>;
              s = s\<lparr>net_ifs := (net_ifs s)(i \<mapsto> iface), default_netif := Some i\<rparr> in
          bindr (netdev_add_netif d i s) (\<lambda>(r, s).
          if r = -1 then Inr (None, s\<lparr>net_ifs := (net_ifs s)(i := None)\<rparr>) else Inr (Some i, s)))"

fun ip_ifs_by_addr :: "(nat \<rightharpoonup> netif_ip) \<Rightarrow> nat list \<Rightarrow> u32 \<Rightarrow> nat option res" where
  "ip_ifs_by_addr m [] addr = Inr None"
| "ip_ifs_by_addr m (i # is) addr =
     bindr (deref m i) (\<lambda>entry.
       if if_family entry = NETIF_FAMILY_IPV4 \<and> unicast entry = addr then Inr (Some i)
       else ip_ifs_by_addr m is addr)"

fun ip_devs_by_addr ::
  "(nat \<rightharpoonup> netdev) \<Rightarrow> (nat \<rightharpoonup> netif_ip) \<Rightarrow> nat list \<Rightarrow> u32 \<Rightarrow> nat option res" where
  "ip_devs_by_addr dv m [] addr = Inr None"
| "ip_devs_by_addr dv m (d # ds) addr =
     bindr (deref dv d) (\<lambda>dev.
     bindr (ip_ifs_by_addr m (nd_ifs dev) addr) (\<lambda>r.
       if r \<noteq> None then Inr r else ip_devs_by_addr dv m ds addr))"

definition ip_netif_by_addr :: "u32 \<Rightarrow> 'a ip_scheme \<Rightarrow> nat option res" where
  "ip_netif_by_addr addr s = ip_devs_by_addr (net_devs s) (net_ifs s) (devices s) addr"

definition ip_netif_by_peer :: "u32 \<Rightarrow> 'a ip_scheme \<Rightarrow> nat option" where
  "ip_netif_by_peer peer s = default_netif s"

section \<open>Receiving\<close>

text \<open>The checks of \<open>ip_rx\<close> on the header: version, lengths, checksum, time to live.\<close>

definition ip_hlen :: "ip_hdr \<Rightarrow> u16" where
  "ip_hlen hdr = push_bit 2 (ucast (ip_vhl hdr AND 0x0f))"

definition ip_valid :: "endian \<Rightarrow> bytes \<Rightarrow> bool res" where
  "ip_valid e dgram =
     (if length dgram < 20 then Inr False else
      let hdr = dec_ip_hdr e dgram in
      if drop_bit 4 (ip_vhl hdr) \<noteq> IP_VERSION_IPV4 then Inr False else
      if length dgram < unat (ip_hlen hdr) \<or> length dgram < unat (ntoh16 e (ip_len hdr)) then Inr False else
      bindr (cksum16 e dgram (ip_hlen hdr) 0) (\<lambda>c.
      if c \<noteq> 0 then Inr False else Inr (ip_ttl hdr \<noteq> 0)))"

text \<open>The first protocol of the list with the type gets the payload.\<close>

definition ip_deliver ::
  "(ip_handler \<Rightarrow> bytes \<Rightarrow> nat \<Rightarrow> u32 \<Rightarrow> u32 \<Rightarrow> nat \<Rightarrow> 'a ip_scheme \<Rightarrow> 'a ip_scheme res) \<Rightarrow> ip_hdr \<Rightarrow> bytes \<Rightarrow> nat \<Rightarrow>
     nat \<Rightarrow> 'a ip_scheme \<Rightarrow> 'a ip_scheme res" where
  "ip_deliver call hdr payload plen iface s =
     (case find (\<lambda>p. ipp_type p = ip_protocol hdr) (protocols s) of
        None \<Rightarrow> Inr s
      | Some p \<Rightarrow> call (ipp_handler p) payload plen (ip_src hdr) (ip_dst hdr) iface s)"

definition ip_rx ::
  "os \<Rightarrow> (ip_handler \<Rightarrow> bytes \<Rightarrow> nat \<Rightarrow> u32 \<Rightarrow> u32 \<Rightarrow> nat \<Rightarrow> 'a ip_scheme \<Rightarrow> 'a ip_scheme res) \<Rightarrow> bytes \<Rightarrow> nat \<Rightarrow>
     'a ip_scheme \<Rightarrow> 'a ip_scheme res" where
  "ip_rx os call dgram d s =
     bindr (ip_valid (os_endian os) dgram) (\<lambda>ok.
     if \<not> ok then Inr s else
     let hdr = dec_ip_hdr (os_endian os) dgram in
     bindr (netdev_get_netif d (uint NETIF_FAMILY_IPV4) s) (\<lambda>netif.
     case netif of
       None \<Rightarrow> Inr s
     | Some i \<Rightarrow>
         bindr (deref (net_ifs s) i) (\<lambda>iface.
         if ip_dst hdr \<noteq> unicast iface \<and> ip_dst hdr \<noteq> broadcast iface \<and> ip_dst hdr \<noteq> IPADDR_BROADCAST
         then Inr s else
         let payload = drop (unat (ip_hlen hdr)) dgram;
             plen = size_of_int (uint (ntoh16 (os_endian os) (ip_len hdr)) - uint (ip_hlen hdr));
             offset = ntoh16 (os_endian os) (ip_offset hdr) in
         if offset AND 0x2000 \<noteq> 0 \<or> offset AND 0x1fff \<noteq> 0 then
           bindr (ip_fragment_process os hdr payload plen s) (\<lambda>(fragment, s).
           case fragment of
             None \<Rightarrow> Inr s
           | Some p \<Rightarrow>
               bindr (deref (frag_heap s) p) (\<lambda>fr.
               bindr (ip_deliver call hdr (fr_data fr) (unat (fr_len fr)) i s) (\<lambda>s.
               Inr (s\<lparr>frag_heap := (frag_heap s)(p := None)\<rparr>))))
         else ip_deliver call hdr payload plen i s)))"

section \<open>Sending\<close>

definition netif_dev :: "nat \<Rightarrow> 'a net_scheme \<Rightarrow> (nat \<times> netdev) res" where
  "netif_dev netif s =
     bindr (deref (net_ifs s) netif) (\<lambda>iface.
     case if_dev iface of
       None \<Rightarrow> Inl NullDeref
     | Some d \<Rightarrow> bindr (deref (net_devs s) d) (\<lambda>dev. Inr (d, dev)))"

text \<open>The hardware address for the next hop: the returned value and the buffer of 128 bytes.\<close>

definition ip_next_ha ::
  "os \<Rightarrow> (nat \<Rightarrow> (wait_ret \<times> ('a ip_scheme \<Rightarrow> 'a ip_scheme)) list) \<Rightarrow> nat \<Rightarrow> bytes \<Rightarrow> u32 option \<Rightarrow>
     'a ip_scheme \<Rightarrow> (int \<times> bytes \<times> 'a ip_scheme) res" where
  "ip_next_ha os wait netif packet dst s =
     bindr (netif_dev netif s) (\<lambda>(_, dev).
     let ha = replicate 128 0 in
     if nd_flags dev AND NETDEV_FLAG_NOARP = 0 then
       (case dst of
          Some dst \<Rightarrow>
            bindr (arp_resolve os wait netif dst (Some packet) s) (\<lambda>(ret, r, s).
            bindr (case r of None \<Rightarrow> Inr ha | Some r \<Rightarrow> mem_write ha 0 r) (\<lambda>ha.
            Inr (ret, ha, s)))
        | None \<Rightarrow>
            bindr (mem_read (nd_broadcast dev) 0 (unat (nd_alen dev))) (\<lambda>b.
            bindr (mem_write ha 0 b) (\<lambda>ha.
            Inr (ARP_RESOLVE_FOUND, ha, s))))
     else Inr (ARP_RESOLVE_FOUND, ha, s))"

definition ip_tx_netdev ::
  "os \<Rightarrow> (nat \<Rightarrow> (wait_ret \<times> ('a ip_scheme \<Rightarrow> 'a ip_scheme)) list) \<Rightarrow> nat \<Rightarrow> bytes \<Rightarrow> u32 option \<Rightarrow>
     'a ip_scheme \<Rightarrow> (int \<times> 'a ip_scheme) res" where
  "ip_tx_netdev os wait netif packet dst s =
     bindr (ip_next_ha os wait netif packet dst s) (\<lambda>(ret, ha, s).
     if ret \<noteq> ARP_RESOLVE_FOUND then Inr (ret, s) else
     bindr (netif_dev netif s) (\<lambda>(d, _).
     bindr (netdev_tx os d ETHERNET_TYPE_IP (Some packet) (Some ha) s) (\<lambda>(r, s).
     Inr (if r \<noteq> int (length packet) then -1 else 1, s))))"

text \<open>
  \<open>src\<close> is null or the interface whose address it points to. The buffer has 4096 bytes; only
  what is written to it is sent.
\<close>

definition ip_tx_hdr :: "endian \<Rightarrow> u8 \<Rightarrow> nat \<Rightarrow> u32 \<Rightarrow> u32 \<Rightarrow> u16 \<Rightarrow> u16 \<Rightarrow> ip_hdr" where
  "ip_tx_hdr e protocol len src dst ident offset =
     \<lparr>ip_vhl = push_bit 4 IP_VERSION_IPV4 OR drop_bit 2 20, ip_tos = 0, ip_len = hton16 e (of_nat (20 + len)),
      ip_id = hton16 e ident, ip_offset = hton16 e offset, ip_ttl = 0xff, ip_protocol = protocol, ip_sum = 0,
      ip_src = src, ip_dst = dst\<rparr>"

definition ip_tx_core ::
  "os \<Rightarrow> (nat \<Rightarrow> (wait_ret \<times> ('a ip_scheme \<Rightarrow> 'a ip_scheme)) list) \<Rightarrow> nat \<Rightarrow> u8 \<Rightarrow> bytes \<Rightarrow> nat option \<Rightarrow>
     u32 \<Rightarrow> u32 option \<Rightarrow> u16 \<Rightarrow> u16 \<Rightarrow> 'a ip_scheme \<Rightarrow> (int \<times> 'a ip_scheme) res" where
  "ip_tx_core os wait netif protocol buf src dst nexthop ident offset s =
     bindr (deref (net_ifs s) (case src of None \<Rightarrow> netif | Some i \<Rightarrow> i)) (\<lambda>iface.
     let e = os_endian os;
         hdr = ip_tx_hdr e protocol (length buf) (unicast iface) dst ident offset in
     bindr (cksum16 e (enc_ip_hdr e hdr) 20 0) (\<lambda>sum.
     bindr (mem_write (replicate 4096 0) 0 (enc_ip_hdr e (hdr\<lparr>ip_sum := sum\<rparr>))) (\<lambda>packet.
     bindr (mem_write packet 20 buf) (\<lambda>packet.
     ip_tx_netdev os wait netif (take (20 + length buf) packet) nexthop s))))"

definition ip_generate_id :: "'a ip_scheme \<Rightarrow> u16 \<times> 'a ip_scheme" where
  "ip_generate_id s = (ip_next_id s, s\<lparr>ip_next_id := ip_next_id s + 1\<rparr>)"

definition ip_frag_field :: "nat \<Rightarrow> nat \<Rightarrow> nat \<Rightarrow> u16" where
  "ip_frag_field done slen len =
     (if done + slen < len then 0x2000 else 0x0000) OR (of_nat (done div 8) AND 0x1fff)"

text \<open>
  The loop over the fragments, for at most \<open>fuel\<close> rounds: a loop that is not done by then is
  still running (\<open>NoReturn\<close>).
\<close>

primrec ip_tx_loop ::
  "nat \<Rightarrow> os \<Rightarrow> (nat \<Rightarrow> (wait_ret \<times> ('a ip_scheme \<Rightarrow> 'a ip_scheme)) list) \<Rightarrow> nat option \<Rightarrow> u8 \<Rightarrow> bytes \<Rightarrow>
     nat option \<Rightarrow> u32 \<Rightarrow> u32 option \<Rightarrow> u16 \<Rightarrow> nat \<Rightarrow> 'a ip_scheme \<Rightarrow> (int \<times> 'a ip_scheme) res" where
  "ip_tx_loop 0 os wait netif protocol buf src dst nexthop ident done s =
     (if done < length buf then Inl NoReturn else Inr (int (length buf), s))"
| "ip_tx_loop (Suc fuel) os wait netif protocol buf src dst nexthop ident done s =
     (if \<not> done < length buf then Inr (int (length buf), s) else
      case netif of
        None \<Rightarrow> Inl NullDeref
      | Some i \<Rightarrow>
          bindr (netif_dev i s) (\<lambda>(_, dev).
          let slen = min (length buf - done) (size_of_int (uint (nd_mtu dev) - IP_HDR_SIZE_MIN)) in
          bindr (ip_tx_core os wait i protocol (take slen (drop done buf)) src dst nexthop ident
                   (ip_frag_field done slen (length buf)) s) (\<lambda>(r, s).
          if r = -1 then Inr (-1, s)
          else ip_tx_loop fuel os wait netif protocol buf src dst nexthop ident (done + slen) s)))"

definition ip_tx ::
  "os \<Rightarrow> (nat \<Rightarrow> (wait_ret \<times> ('a ip_scheme \<Rightarrow> 'a ip_scheme)) list) \<Rightarrow> nat option \<Rightarrow> u8 \<Rightarrow> bytes \<Rightarrow> u32 \<Rightarrow>
     'a ip_scheme \<Rightarrow> (int \<times> 'a ip_scheme) res" where
  "ip_tx os wait netif protocol buf dst s =
     (let (src, nexthop) = (if netif \<noteq> None \<and> dst = IPADDR_BROADCAST then (None, None) else (netif, Some dst));
          (ident, s) = ip_generate_id s
      in ip_tx_loop (length buf) os wait netif protocol buf src dst nexthop ident 0 s)"

section \<open>Protocols\<close>

definition ip_add_protocol :: "os \<Rightarrow> u8 \<Rightarrow> ip_handler \<Rightarrow> 'a ip_scheme \<Rightarrow> (int \<times> 'a ip_scheme) res" where
  "ip_add_protocol os protocol handler s =
     (if list_ex (\<lambda>p. ipp_type p = protocol) (protocols s) then Inr (-1, s) else
      let (p, s) = sys_malloc os s in
      if p = None then Inl NullDeref
      else Inr (0, s\<lparr>protocols := \<lparr>ipp_type = protocol, ipp_handler = handler\<rparr> # protocols s\<rparr>))"

definition ip_init :: "os \<Rightarrow> 'a ip_scheme \<Rightarrow> int \<times> 'a ip_scheme" where
  "ip_init os s = netdev_proto_register os NETDEV_PROTO_IP ip_rx_handler s"

section \<open>The packets that are sent\<close>

text \<open>The packet for a piece of data: the header with its checksum, and the data.\<close>

definition ip_hdr_sum :: "endian \<Rightarrow> ip_hdr \<Rightarrow> u16" where
  "ip_hdr_sum e h = (case cksum16 e (enc_ip_hdr e h) 20 0 of Inl _ \<Rightarrow> 0 | Inr c \<Rightarrow> c)"

definition ip_packet :: "endian \<Rightarrow> u8 \<Rightarrow> u32 \<Rightarrow> u32 \<Rightarrow> u16 \<Rightarrow> u16 \<Rightarrow> bytes \<Rightarrow> bytes" where
  "ip_packet e protocol src dst ident offset pl =
     (let h = ip_tx_hdr e protocol (length pl) src dst ident offset
      in enc_ip_hdr e (h\<lparr>ip_sum := ip_hdr_sum e h\<rparr>) @ pl)"

lemma length_enc_ip [simp]: "length (enc_ip_hdr e h) = 20"
  using ipf.length_enc by simp

lemma length_ip_packet [simp]: "length (ip_packet e p src dst ident offset pl) = 20 + length pl"
  by (simp add: ip_packet_def Let_def)

lemma cksum_ip_hdr: "cksum16 e (enc_ip_hdr e h) 20 0 = Inr (ip_hdr_sum e h)"
proof -
  have "sum_fits e (enc_ip_hdr e h) 20 0" by (rule sum_fitsI) simp_all
  from cksum16_spec [OF this] show ?thesis by (auto simp: ip_hdr_sum_def)
qed

lemma enc_ip_split:
  obtains pre rest where "length pre = 10" "length rest = 8"
    "\<And>c. enc_ip_hdr e (h\<lparr>ip_sum := c\<rparr>) = pre @ bytes16 e c @ rest"
proof
  let ?pre = "[ip_vhl h, ip_tos h] @ bytes16 e (ip_len h) @ bytes16 e (ip_id h) @ bytes16 e (ip_offset h) @
     [ip_ttl h, ip_protocol h]"
  show "length ?pre = 10" "length (bytes32 e (ip_src h) @ bytes32 e (ip_dst h)) = 8" by simp_all
  show "enc_ip_hdr e (h\<lparr>ip_sum := c\<rparr>) = ?pre @ bytes16 e c @ bytes32 e (ip_src h) @ bytes32 e (ip_dst h)" for c
    by (simp add: enc_ip_hdr_def)
qed

lemma bytes16_0: "bytes16 e 0 = [0, 0]"
  by (cases e) (simp_all add: bytes16_def)

lemma cksum16_prefix:
  "unat sz \<le> length data \<Longrightarrow> cksum16 e (data @ rest) sz init = cksum16 e data sz init"
  by (simp add: cksum16_def mem_read_def)

lemma ip_hdr_sum_accepted:
  assumes "ip_sum h = 0"
  shows "cksum16 e (enc_ip_hdr e (h\<lparr>ip_sum := ip_hdr_sum e h\<rparr>) @ rest) 20 0 = Inr 0"
proof -
  obtain pre q where l: "length pre = 10" "length q = 8"
    and enc: "\<And>c. enc_ip_hdr e (h\<lparr>ip_sum := c\<rparr>) = pre @ bytes16 e c @ q" by (rule enc_ip_split [of e h]) blast
  have "h\<lparr>ip_sum := 0\<rparr> = h" using assms by simp
  then have "cksum16 e (pre @ [0, 0] @ q @ []) 20 0 = Inr (ip_hdr_sum e h)"
    using cksum_ip_hdr [of e h] enc [of 0] by (simp add: bytes16_0)
  from cksum16_field [OF _ _ _ this] have "cksum16 e (pre @ bytes16 e (ip_hdr_sum e h) @ q @ []) 20 0 = Inr 0"
    using l by simp
  then show ?thesis
    using cksum16_prefix [of 20 "pre @ bytes16 e (ip_hdr_sum e h) @ q" e rest 0] l by (simp add: enc)
qed

lemma ip_tx_core_packet:
  assumes "net_ifs s (case src of None \<Rightarrow> netif | Some i \<Rightarrow> i) = Some iface" "length buf \<le> 4076"
  shows "ip_tx_core os wait netif protocol buf src dst nexthop ident offset s =
    ip_tx_netdev os wait netif (ip_packet (os_endian os) protocol (unicast iface) dst ident offset buf) nexthop s"
proof -
  let ?e = "os_endian os"
  let ?h = "ip_tx_hdr ?e protocol (length buf) (unicast iface) dst ident offset"
  let ?p = "enc_ip_hdr ?e (?h\<lparr>ip_sum := ip_hdr_sum ?e ?h\<rparr>)"
  have w: "mem_write (replicate 4096 0) 0 ?p = Inr (?p @ replicate 4076 0)"
    "mem_write (?p @ replicate 4076 0) 20 buf = Inr (?p @ buf @ replicate (4076 - length buf) 0)"
    using assms(2) by (simp_all add: mem_write_def)
  show ?thesis
    using assms(1) by (simp add: ip_tx_core_def cksum_ip_hdr w Let_def ip_packet_def)
qed

lemma dec_ip_packet:
  "dec_ip_hdr e (ip_packet e p src dst ident offset pl @ rest) =
     (ip_tx_hdr e p (length pl) src dst ident offset)
       \<lparr>ip_sum := ip_hdr_sum e (ip_tx_hdr e p (length pl) src dst ident offset)\<rparr>"
  unfolding ip_packet_def Let_def append_assoc by (rule ipf.dec_enc_append) simp

lemma ip_tx_hdr_fields [simp]:
  "ip_vhl (ip_tx_hdr e p n src dst ident offset) = 0x45" "ip_ttl (ip_tx_hdr e p n src dst ident offset) = 0xff"
  "ip_len (ip_tx_hdr e p n src dst ident offset) = hton16 e (of_nat (20 + n))"
  "ip_offset (ip_tx_hdr e p n src dst ident offset) = hton16 e offset"
  "ip_id (ip_tx_hdr e p n src dst ident offset) = hton16 e ident"
  "ip_protocol (ip_tx_hdr e p n src dst ident offset) = p" "ip_sum (ip_tx_hdr e p n src dst ident offset) = 0"
  "ip_src (ip_tx_hdr e p n src dst ident offset) = src" "ip_dst (ip_tx_hdr e p n src dst ident offset) = dst"
  by (simp_all add: ip_tx_hdr_def)

lemma ip_valid_packet:
  assumes "length pl \<le> 65515"
  shows "ip_valid e (ip_packet e p src dst ident offset pl @ rest) = Inr True"
proof -
  let ?h = "ip_tx_hdr e p (length pl) src dst ident offset"
  have "cksum16 e (ip_packet e p src dst ident offset pl @ rest) 20 0 = Inr 0"
    unfolding ip_packet_def Let_def append_assoc by (rule ip_hdr_sum_accepted) simp
  moreover have "unat (20 + of_nat (length pl) :: u16) = 20 + length pl"
    using assms by (simp add: unat_u16_add)
  ultimately show ?thesis
    by (simp add: ip_valid_def dec_ip_packet ip_hlen_def Let_def)
qed

text \<open>A packet that is not a fragment goes to its protocol with its exact length, whatever follows it.\<close>

lemma ip_rx_whole:
  assumes "netdev_get_netif d 2 s = Inr (Some i)" "net_ifs s i = Some n"
    and "dst = unicast n \<or> dst = broadcast n \<or> dst = 0xffffffff"
    and "offset AND 0x2000 = 0" "offset AND 0x1fff = 0" "length pl \<le> 65515"
  shows "ip_rx os call (ip_packet (os_endian os) p src dst ident offset pl @ rest) d s =
    (case find (\<lambda>q. ipp_type q = p) (protocols s) of
       None \<Rightarrow> Inr s | Some q \<Rightarrow> call (ipp_handler q) (pl @ rest) (length pl) src dst i s)"
proof -
  let ?e = "os_endian os"
  define P where "P = ip_packet ?e p src dst ident offset pl @ rest"
  define h where "h = dec_ip_hdr ?e P"
  have f: "ip_hlen h = 20" "ip_src h = src" "ip_dst h = dst" "ip_protocol h = p"
    "ntoh16 ?e (ip_offset h) = offset" "ntoh16 ?e (ip_len h) = 20 + of_nat (length pl)"
    by (simp_all add: h_def P_def ip_hlen_def dec_ip_packet)
  have "uint (20 + of_nat (length pl) :: u16) = 20 + int (length pl)"
    using unat_u16_add [of 20 "length pl"] assms(6) by (simp add: uint_nat)
  then have k: "size_of_int (uint (20 + of_nat (length pl) :: u16) - 20) = length pl" using assms(6) by simp
  have dr: "drop 20 P = pl @ rest" by (simp add: ip_packet_def Let_def P_def)
  have "ip_valid ?e P = Inr True" unfolding P_def by (rule ip_valid_packet) (rule assms(6))
  then show ?thesis
    using assms unfolding P_def [symmetric]
    by (auto simp: ip_rx_def Let_def h_def [symmetric] f k dr ip_deliver_def split: option.split)
qed

section \<open>Sending to a known neighbour\<close>

text \<open>
  The pieces \<open>ip_tx\<close> cuts the data into from \<open>done\<close> on, with the value of the header field, when
  a packet carries at most \<open>m\<close> bytes.
\<close>

function ip_pieces :: "nat \<Rightarrow> bytes \<Rightarrow> nat \<Rightarrow> (u16 \<times> bytes) list" where
  "ip_pieces m buf done =
     (if done < length buf \<and> 0 < m then
        let slen = min (length buf - done) m
        in (ip_frag_field done slen (length buf), take slen (drop done buf)) # ip_pieces m buf (done + slen)
      else [])"
  by pat_completeness auto
termination
  by (relation "measure (\<lambda>(m, buf, done). length buf - done)") auto

declare ip_pieces.simps [simp del]

text \<open>How the next hop's hardware address is known.\<close>

definition hop_known :: "'a arp_scheme \<Rightarrow> netdev \<Rightarrow> u32 option \<Rightarrow> bytes \<Rightarrow> bool" where
  "hop_known s dev hop ha \<longleftrightarrow>
     length ha = 6 \<and>
     (case hop of
        Some pa \<Rightarrow> nd_flags dev AND 0x0010 = 0 \<and> arp_lookup (arp_tbl s) pa = Some ha
      | None \<Rightarrow> nd_flags dev AND 0x0010 = 0 \<and> nd_alen dev = 6 \<and> length (nd_broadcast dev) = 16 \<and>
          take 6 (nd_broadcast dev) = ha)"

text \<open>What is logged for a list of frames, and the result: all were written, or one was not.\<close>

definition tx_log :: "int \<Rightarrow> bytes list \<Rightarrow> (int \<times> bytes \<times> int) list \<Rightarrow> int \<Rightarrow> int \<Rightarrow> bool" where
  "tx_log fd frames log ok r \<longleftrightarrow>
     (\<exists>k \<le> length frames. map (\<lambda>(a, b, c). (a, b)) log = map (Pair fd) (take k frames) \<and>
        (r = ok \<and> k = length frames \<or> r = -1 \<and> 0 < k))"

lemma netif_dev_known:
  "net_ifs s i = Some n \<Longrightarrow> if_dev n = Some d \<Longrightarrow> net_devs s d = Some dev \<Longrightarrow> netif_dev i s = Inr (d, dev)"
  by (simp add: netif_dev_def)

lemma ip_next_ha_known:
  assumes n: "net_ifs s i = Some n" "if_dev n = Some d" "net_devs s d = Some dev" and h: "hop_known s dev hop ha"
  shows "\<exists>t. ip_next_ha os wait i packet hop s = Inr (1, ha @ replicate 122 0, s\<lparr>sys_tick := t\<rparr>)"
proof (cases hop)
  case None
  with h show ?thesis
    by (auto simp: ip_next_ha_def netif_dev_known [OF n] hop_known_def mem_read_def mem_write_def)
next
  case (Some pa)
  with h have "arp_lookup (arp_tbl s) pa = Some ha" by (simp add: hop_known_def)
  from arp_resolve_known [OF this] show ?thesis
    using h Some by (auto simp: ip_next_ha_def netif_dev_known [OF n] hop_known_def mem_write_def)
qed

lemma ip_tx_netdev_known:
  assumes n: "net_ifs s i = Some n" "if_dev n = Some d" "net_devs s d = Some dev" and h: "hop_known s dev hop ha"
    and o: "dev_open s d addr fd" and len: "length packet \<le> 1500"
  shows "\<exists>r s' ret. ip_tx_netdev os wait i packet hop s = Inr (r, s') \<and> sends s s' \<and> (r = 1 \<or> r = -1) \<and>
    sys_sent s' = sys_sent s @ [(fd, eth_frame ha addr 0x0800 packet, ret)] \<and>
    ((\<forall>k. os_ret os k = int (14 + max 46 (length packet))) \<longrightarrow> r = 1)"
proof -
  obtain t where t: "ip_next_ha os wait i packet hop s = Inr (1, ha @ replicate 122 0, s\<lparr>sys_tick := t\<rparr>)"
    using ip_next_ha_known [OF n h] by blast
  let ?s = "s\<lparr>sys_tick := t\<rparr>"
  have o': "dev_open ?s d addr fd" using o ready_cong(3) [OF sends_same_net [OF sends_tick]] by blast
  define s' where "s' = s\<lparr>sys_tick := Suc t, sys_sent := sys_sent s @ [(fd, eth_frame ha addr 0x0800 packet, os_ret os t)]\<rparr>"
  have "length ha = 6" using h by (simp add: hop_known_def)
  then obtain r where "netdev_tx os d 0x0800 (Some packet) (Some (ha @ replicate 122 0)) ?s = Inr (r, s')"
    "os_ret os t = int (14 + max 46 (length packet)) \<longrightarrow> r = int (length packet)"
    using netdev_tx_frame [OF o' len, of "ha @ replicate 122 0" os "0x0800"] by (simp add: sys_write_def Let_def s'_def)
  moreover have "sends s s'" by (auto simp: s'_def sends_def)
  ultimately show ?thesis using n by (auto simp: ip_tx_netdev_def t netif_dev_def s'_def)
qed

lemma sends_ip [simp]: "sends s s' \<Longrightarrow> protocols s' = protocols s" "sends s s' \<Longrightarrow> ip_next_id s' = ip_next_id s"
  "sends s s' \<Longrightarrow> default_netif s' = default_netif s"
  by (auto simp: sends_def)

lemma sends_hop: "sends s s' \<Longrightarrow> hop_known s' dev hop ha = hop_known s dev hop ha"
  by (auto simp: hop_known_def split: option.split)

lemma tx_log_Nil: "tx_log fd [] [] ok ok"
  by (simp add: tx_log_def)

lemma tx_log_fail: "tx_log fd (f # fs) [(fd, f, ret)] ok (-1)"
  unfolding tx_log_def by (rule exI [of _ 1]) simp

lemma tx_log_Cons: "tx_log fd fs log ok r \<Longrightarrow> tx_log fd (f # fs) ((fd, f, ret) # log) ok r"
  unfolding tx_log_def by (elim exE) (rule_tac x = "Suc k" in exI, auto)

lemma mtu_room: "20 \<le> unat (m :: u16) \<Longrightarrow> size_of_int (uint m - 20) = unat m - 20"
  using unat_u16_less [of m]
  by (simp add: size_of_int_def uint_nat [of m] nat_diff_distrib del: of_nat_unat)

text \<open>The frames for a buffer, one for each piece.\<close>

definition ip_frames ::
  "endian \<Rightarrow> bytes \<Rightarrow> bytes \<Rightarrow> u8 \<Rightarrow> u32 \<Rightarrow> u32 \<Rightarrow> u16 \<Rightarrow> (u16 \<times> bytes) list \<Rightarrow> bytes list" where
  "ip_frames e ha addr protocol src dst ident ps =
     map (\<lambda>(offset, pl). eth_frame ha addr 0x0800 (ip_packet e protocol src dst ident offset pl)) ps"

lemma ip_tx_loop_known:
  assumes "net_ifs s i = Some n" "if_dev n = Some d" "net_devs s d = Some dev" "hop_known s dev hop ha"
    and "dev_open s d addr fd" "20 < unat (nd_mtu dev)" "unat (nd_mtu dev) \<le> 1500"
    and "src = None \<or> src = Some i" "length buf - done \<le> fuel"
  shows "\<exists>r s' log. ip_tx_loop fuel os wait (Some i) p buf src dst hop ident done s = Inr (r, s') \<and> sends s s' \<and>
    sys_sent s' = sys_sent s @ log \<and>
    tx_log fd (ip_frames (os_endian os) ha addr p (unicast n) dst ident (ip_pieces (unat (nd_mtu dev) - 20) buf done))
      log (int (length buf)) r"
  using assms
proof (induction fuel arbitrary: s "done")
  case 0
  then show ?case by (simp add: ip_pieces.simps [of _ buf "done"] ip_frames_def tx_log_Nil)
next
  case (Suc fuel)
  let ?m = "unat (nd_mtu dev) - 20"
  show ?case
  proof (cases "done < length buf")
    case False
    then show ?thesis by (simp add: ip_pieces.simps [of _ buf "done"] ip_frames_def tx_log_Nil)
  next
    case True
    define slen where "slen = min (length buf - done) ?m"
    define pl where "pl = take slen (drop done buf)"
    define off where "off = ip_frag_field done slen (length buf)"
    define pk where "pk = ip_packet (os_endian os) p (unicast n) dst ident off pl"
    have sz: "size_of_int (uint (nd_mtu dev) - 20) = ?m"
      using Suc.prems(6) by (simp add: mtu_room)
    have lpl: "length pl = slen" "slen \<le> 1480" "0 < slen" using True Suc.prems(6,7) by (auto simp: pl_def slen_def)
    have core: "ip_tx_core os wait i p pl src dst hop ident off s = ip_tx_netdev os wait i pk hop s"
      unfolding pk_def using Suc.prems(1,8) lpl by (intro ip_tx_core_packet) auto
    obtain r1 s1 ret where t: "ip_tx_netdev os wait i pk hop s = Inr (r1, s1)" "sends s s1" "r1 = 1 \<or> r1 = -1"
      "sys_sent s1 = sys_sent s @ [(fd, eth_frame ha addr 0x0800 pk, ret)]"
      using ip_tx_netdev_known [OF Suc.prems(1-5), of pk os wait] lpl by (auto simp: pk_def)
    have loop: "ip_tx_loop (Suc fuel) os wait (Some i) p buf src dst hop ident done s =
      (if r1 = -1 then Inr (-1, s1) else ip_tx_loop fuel os wait (Some i) p buf src dst hop ident (done + slen) s1)"
      using True by (simp add: netif_dev_known [OF Suc.prems(1-3)] sz slen_def [symmetric] pl_def [symmetric]
          off_def [symmetric] core t(1))
    have pieces: "ip_pieces ?m buf done = (off, pl) # ip_pieces ?m buf (done + slen)"
      using True Suc.prems(6) by (subst ip_pieces.simps) (simp add: off_def pl_def slen_def Let_def)
    let ?f = "eth_frame ha addr 0x0800 pk"
    show ?thesis
    proof (cases "r1 = -1")
      case True
      then show ?thesis using loop t pieces tx_log_fail [of fd ?f _ ret]
        by (auto simp: ip_frames_def pk_def)
    next
      case False
      have n1: "net_ifs s1 i = Some n" "net_devs s1 d = Some dev"
        using sends_same_net [OF t(2)] Suc.prems(1,3) by (simp_all add: same_net_def)
      have h1: "hop_known s1 dev hop ha" "dev_open s1 d addr fd"
        using Suc.prems(4,5) sends_hop [OF t(2)] ready_cong(3) [OF sends_same_net [OF t(2)]] by blast+
      have "length buf - (done + slen) \<le> fuel" using Suc.prems(9) lpl(3) by linarith
      from Suc.IH [OF n1(1) Suc.prems(2) n1(2) h1 Suc.prems(6-8) this]
      obtain r s' log where ih: "ip_tx_loop fuel os wait (Some i) p buf src dst hop ident (done + slen) s1 = Inr (r, s')"
        "sends s1 s'" "sys_sent s' = sys_sent s1 @ log"
        "tx_log fd (ip_frames (os_endian os) ha addr p (unicast n) dst ident (ip_pieces ?m buf (done + slen)))
          log (int (length buf)) r" by blast
      have "tx_log fd (ip_frames (os_endian os) ha addr p (unicast n) dst ident (ip_pieces ?m buf done))
          ((fd, ?f, ret) # log) (int (length buf)) r"
        using tx_log_Cons [OF ih(4), of ?f ret] by (simp add: pieces ip_frames_def pk_def)
      then show ?thesis
        using loop False ih(1,3) sends_trans [OF t(2) ih(2)] t(4) by auto
    qed
  qed
qed

section \<open>Fragmentation and reassembly\<close>

lemma frag_field_bits:
  "ip_frag_field done slen len AND 0x1fff = of_nat (done div 8) AND 0x1fff"
  "ip_frag_field done slen len AND 0x2000 = (if done + slen < len then 0x2000 else 0)"
  by (simp_all add: ip_frag_field_def bit.conj_disj_distrib2 and.assoc)

lemma frag_field_off:
  assumes "8 dvd done" "done < 65536"
  shows "frag_off (ip_frag_field done slen len) = done"
    "frag_last (ip_frag_field done slen len) \<longleftrightarrow> \<not> done + slen < len"
proof -
  obtain k where k: "done = 8 * k" "k < 8192" using assms by auto
  have "of_nat k AND 0x1fff = (take_bit 13 (of_nat k) :: u16)"
    by (simp add: take_bit_eq_mask mask_eq_exp_minus_1)
  also have "\<dots> = of_nat k" using k(2) by (simp add: take_bit_nat_eq_self flip: of_nat_take_bit)
  finally have "frag_off (ip_frag_field done slen len) = unat (push_bit 3 (of_nat k :: u16))"
    by (simp add: frag_off_def frag_field_bits k(1))
  also have "push_bit 3 (of_nat k :: u16) = of_nat (8 * k)" by (simp add: push_bit_eq_mult)
  also have "unat (of_nat (8 * k) :: u16) = 8 * k" using k(2) by (intro unat_of_nat_u16) simp
  finally show "frag_off (ip_frag_field done slen len) = done" using k(1) by simp
  show "frag_last (ip_frag_field done slen len) \<longleftrightarrow> \<not> done + slen < len"
    by (simp add: frag_last_def frag_field_bits)
qed

lemma ip_pieces_of:
  assumes "8 dvd m" "0 < m" "8 dvd done" "length buf \<le> 65535" "q \<in> set (ip_pieces m buf done)"
  shows "piece_of buf q"
  using assms
proof (induction m buf "done" rule: ip_pieces.induct)
  case (1 m buf "done")
  define slen where "slen = min (length buf - done) m"
  have d: "done < length buf" using 1(6) by (subst (asm) ip_pieces.simps) (auto split: if_splits)
  have cut: "ip_pieces m buf done =
      (ip_frag_field done slen (length buf), take slen (drop done buf)) # ip_pieces m buf (done + slen)"
    using d 1(3) by (subst ip_pieces.simps) (simp add: slen_def Let_def)
  have first: "piece_of buf (ip_frag_field done slen (length buf), take slen (drop done buf))"
    using d 1(3,5) frag_field_off [OF 1(4), of slen "length buf"] by (auto simp: piece_of_def slen_def)
  consider "q = (ip_frag_field done slen (length buf), take slen (drop done buf))"
    | "q \<in> set (ip_pieces m buf (done + slen))" using 1(6) cut by auto
  then show ?case
  proof cases
    case 2
    then have "done + slen < length buf" by (subst (asm) ip_pieces.simps) (auto split: if_splits)
    then have "8 dvd done + slen" using 1(2,4) by (simp add: slen_def min_def split: if_splits)
    then show ?thesis using 1(1) [OF _ slen_def] 2 d 1(2-5) by blast
  qed (simp add: first)
qed

lemma ip_pieces_cover:
  assumes "8 dvd m" "0 < m" "8 dvd done" "length buf \<le> 65535" "done \<le> j" "j < length buf"
  shows "covered (set (ip_pieces m buf done)) j"
  using assms
proof (induction m buf "done" rule: ip_pieces.induct)
  case (1 m buf "done")
  define slen where "slen = min (length buf - done) m"
  have d: "done < length buf" using 1 by simp
  have cut: "ip_pieces m buf done =
      (ip_frag_field done slen (length buf), take slen (drop done buf)) # ip_pieces m buf (done + slen)"
    using d 1(3) by (subst ip_pieces.simps) (simp add: slen_def Let_def)
  have o: "frag_off (ip_frag_field done slen (length buf)) = done"
    using d 1(5) by (intro frag_field_off 1(4)) simp
  have l: "length (take slen (drop done buf)) = slen" by (simp add: slen_def)
  show ?case
  proof (cases "j < done + slen")
    case True
    then show ?thesis using 1(6) o l by (simp add: cut covered_insert)
  next
    case False
    then have "8 dvd done + slen" using 1(2,4,7) by (simp add: slen_def min_def split: if_splits)
    then have "covered (set (ip_pieces m buf (done + slen))) j"
      using 1(1) [OF _ slen_def] False d 1(2,3,5,7) by simp
    then show ?thesis by (simp add: cut covered_insert)
  qed
qed



lemma ip_tx_known:
  assumes "net_ifs s i = Some n" "if_dev n = Some d" "net_devs s d = Some dev" "dev_open s d addr fd"
    and "hop_known s dev (if dst = 0xffffffff then None else Some dst) ha"
    and "20 < unat (nd_mtu dev)" "unat (nd_mtu dev) \<le> 1500"
  shows "\<exists>r s' log. ip_tx os wait (Some i) p buf dst s = Inr (r, s') \<and>
    sends (s\<lparr>ip_next_id := ip_next_id s + 1\<rparr>) s' \<and> sys_sent s' = sys_sent s @ log \<and>
    tx_log fd (ip_frames (os_endian os) ha addr p (unicast n) dst (ip_next_id s) (ip_pieces (unat (nd_mtu dev) - 20) buf 0))
      log (int (length buf)) r"
proof -
  let ?s = "s\<lparr>ip_next_id := ip_next_id s + 1\<rparr>"
  let ?hop = "if dst = 0xffffffff then None else Some dst" and ?src = "if dst = 0xffffffff then None else Some i"
  have o: "dev_open ?s d addr fd" "hop_known ?s dev ?hop ha"
    using assms(4,5) ready_cong(3) [of s ?s] by (simp_all add: same_net_def hop_known_def split: if_splits)
  have a: "net_ifs ?s i = Some n" "net_devs ?s d = Some dev" "?src = None \<or> ?src = Some i" using assms by simp_all
  have run: "ip_tx os wait (Some i) p buf dst s =
      ip_tx_loop (length buf) os wait (Some i) p buf ?src dst ?hop (ip_next_id s) 0 ?s"
    by (simp add: ip_tx_def ip_generate_id_def)
  show ?thesis
    unfolding run
    using ip_tx_loop_known [OF a(1) assms(2) a(2) o(2,1) assms(6,7) a(3), of buf 0 "length buf" os wait p dst "ip_next_id s"]
    by simp
qed


text \<open>A host with one interface, its neighbour's address learned.\<close>

definition ip_start :: "nat \<Rightarrow> netdev \<Rightarrow> nat \<Rightarrow> netif_ip \<Rightarrow> (ip_addr_t \<times> bytes) option \<Rightarrow> ip" where
  "ip_start d dev i n peer =
     \<lparr>sys_tick = 0, sys_fds = [], sys_sent = [], drivers = [],
      protos = [\<lparr>np_type = 0x0800, np_handler = ip_rx_handler\<rparr>], devices = [d],
      net_devs = [d \<mapsto> dev\<lparr>nd_ifs := [i]\<rparr>], net_ifs = [i \<mapsto> n\<lparr>if_dev := Some d\<rparr>],
      arp_tbl = (case peer of
          None \<Rightarrow> replicate 4096 arp_entry_zero
        | Some (pa, ha) \<Rightarrow> arp_entry_zero\<lparr>ae_used := True, ae_pa := pa, ae_ha := ha\<rparr> # replicate 4095 arp_entry_zero),
      arp_timestamp = 0, fragments = [], frag_heap = Map.empty, frag_count = 0, frag_timestamp = 0,
      default_netif = Some i, protocols = [\<lparr>ipp_type = 6, ipp_handler = tcp_rx_handler\<rparr>], ip_next_id = 128\<rparr>"

lemma ip_start_simps [simp]:
  "net_ifs (ip_start d dev i n peer) = [i \<mapsto> n\<lparr>if_dev := Some d\<rparr>]"
  "net_devs (ip_start d dev i n peer) = [d \<mapsto> dev\<lparr>nd_ifs := [i]\<rparr>]"
  "protocols (ip_start d dev i n peer) = [\<lparr>ipp_type = 6, ipp_handler = tcp_rx_handler\<rparr>]"
  "protos (ip_start d dev i n peer) = [\<lparr>np_type = 0x0800, np_handler = ip_rx_handler\<rparr>]"
  "ip_next_id (ip_start d dev i n peer) = 128" "sys_sent (ip_start d dev i n peer) = []"
  "default_netif (ip_start d dev i n peer) = Some i" "sys_tick (ip_start d dev i n peer) = 0"
  by (simp_all add: ip_start_def)

lemma ip_start_open:
  "length addr = 6 \<Longrightarrow> dev_open (ip_start d (plain_dev addr fd) i n peer) d addr fd"
  by (rule dev_open_plain [where ifs = "[i]"]) simp_all

lemma ip_start_hop:
  assumes "length ha = 6" "ha \<noteq> ETHERNET_ADDR_ANY"
  shows "hop_known (ip_start d dev i n (Some (pa, ha))) (plain_dev addr fd\<lparr>nd_ifs := ifs\<rparr>) (Some pa) ha"
proof -
  let ?en = "arp_entry_zero\<lparr>ae_used := True, ae_pa := pa, ae_ha := ha\<rparr>"
  have "arp_tbl (ip_start d dev i n (Some (pa, ha))) = ?en # replicate 4095 arp_entry_zero"
    by (simp add: ip_start_def)
  then show ?thesis
    using assms by (simp add: hop_known_def arp_lookup_def arp_table_select_def plain_dev_def)
qed


section \<open>Receiving is selective\<close>

text \<open>The handlers registered for the packets of a device: this layer's and ARP's.\<close>

definition proto_call ::
  "os \<Rightarrow> (ip_handler \<Rightarrow> bytes \<Rightarrow> nat \<Rightarrow> u32 \<Rightarrow> u32 \<Rightarrow> nat \<Rightarrow> 'a ip_scheme \<Rightarrow> 'a ip_scheme res) \<Rightarrow> netdev_handler \<Rightarrow>
     bytes \<Rightarrow> nat \<Rightarrow> 'a ip_scheme \<Rightarrow> 'a ip_scheme res" where
  "proto_call os call h packet d s =
     (case h of arp_rx_handler \<Rightarrow> arp_rx os packet d s | ip_rx_handler \<Rightarrow> ip_rx os call packet d s)"

lemma eth_pad_append: "eth_pad pl = pl @ replicate (46 - length pl) 0"
  by (simp add: eth_pad_def)

text \<open>
  Property C8: end to end. Let \<open>ip_tx\<close> send a buffer that fits one packet to a known neighbour and
  succeed. The frame it writes, received by a device with the destination's hardware address on a
  host where the destination is the interface's address, runs the handler registered for the
  protocol exactly once, on exactly the buffer's bytes and length, although the frame may carry
  padding, with the sender's and the receiver's addresses.
\<close>

theorem ip_end_to_end:
  assumes "net_ifs s i = Some n" "if_dev n = Some d" "net_devs s d = Some dev" "dev_open s d addr fd"
    and "dst \<noteq> 0xffffffff" "hop_known s dev (Some dst) ha" "unat (nd_mtu dev) \<le> 1500"
    and "0 < length buf" "20 + length buf \<le> unat (nd_mtu dev)"
    and run: "ip_tx os wait (Some i) p buf dst s = Inr (int (length buf), s')"
    and rx: "net_devs t d' = Some dev'" "take 6 (nd_addr dev') = ha" "protos_distinct t"
      "find_proto t 0x0800 = Some ip_rx_handler" "netdev_get_netif d' 2 t = Inr (Some i')"
      "net_ifs t i' = Some n'" "unicast n' = dst" "os_endian os' = os_endian os"
      "find (\<lambda>q. ipp_type q = p) (protocols t) = Some q"
  shows "\<exists>frame ret pad. sys_sent s' = sys_sent s @ [(fd, frame, ret)] \<and>
    ethernet_rx (os_endian os') (proto_call os' call) d' frame t =
      call (ipp_handler q) (buf @ replicate pad 0) (length buf) (unicast n) dst i' t"
proof -
  let ?m = "unat (nd_mtu dev) - 20" and ?pk = "ip_packet (os_endian os) p (unicast n) dst (ip_next_id s) 0 buf"
  have m: "20 < unat (nd_mtu dev)" using assms(8,9) by linarith
  from ip_tx_known [OF assms(1-4) _ m assms(7), of dst ha os wait p buf] assms(5,6) run
  obtain log where log: "sys_sent s' = sys_sent s @ log"
    "tx_log fd (ip_frames (os_endian os) ha addr p (unicast n) dst (ip_next_id s) (ip_pieces ?m buf 0))
      log (int (length buf)) (int (length buf))" by auto
  have "ip_pieces ?m buf 0 = [(0, buf)]"
    using assms(8,9) m by (auto simp: ip_pieces.simps [of _ _ 0] ip_pieces.simps [of _ _ "length buf"]
        ip_frag_field_def min_def)
  then have "map (\<lambda>(a, b, c). (a, b)) log = [(fd, eth_frame ha addr 0x0800 ?pk)]"
    using log(2) by (auto simp: tx_log_def ip_frames_def)
  then obtain ret where l: "log = [(fd, eth_frame ha addr 0x0800 ?pk, ret)]" by auto
  have h: "length ha = 6" "length addr = 6" using assms(6) dev_open_addr [OF assms(4)] by (auto simp: hop_known_def)
  have "ethernet_rx (os_endian os') (proto_call os' call) d' (eth_frame ha addr 0x0800 ?pk) t =
      ip_rx os' call (eth_pad ?pk) d' t"
    using rx by (simp add: ethernet_rx_frame [OF rx(1) h] netdev_rx_handler_find proto_call_def)
  also have "\<dots> = call (ipp_handler q) (buf @ replicate (46 - length ?pk) 0) (length buf) (unicast n) dst i' t"
    unfolding eth_pad_append rx(8) [symmetric]
    using rx assms(7,9) by (subst ip_rx_whole [OF rx(5,6)]) auto
  finally show ?thesis using log(1) l by blast
qed

lemma ip_tx_one_ok:
  assumes n: "net_ifs s i = Some n" "if_dev n = Some d" "net_devs s d = Some dev" "dev_open s d addr fd"
    and "dst \<noteq> 0xffffffff" "hop_known s dev (Some dst) ha" "unat (nd_mtu dev) \<le> 1500"
    and "0 < length buf" "20 + length buf \<le> unat (nd_mtu dev)"
    and "\<forall>k. os_ret os k = int (14 + max 46 (20 + length buf))"
  shows "\<exists>s'. ip_tx os wait (Some i) p buf dst s = Inr (int (length buf), s')"
proof -
  let ?s = "s\<lparr>ip_next_id := ip_next_id s + 1\<rparr>"
  define pk where "pk = ip_packet (os_endian os) p (unicast n) dst (ip_next_id s) 0 buf"
  obtain f where f: "length buf = Suc f" using assms(8) by (cases "length buf") auto
  have sz: "min (length buf) (size_of_int (uint (nd_mtu dev) - 20)) = length buf"
    using assms(9) by (simp add: mtu_room)
  have o: "dev_open ?s d addr fd" "hop_known ?s dev (Some dst) ha"
    using assms(4,6) ready_cong(3) [of s ?s] by (simp_all add: same_net_def hop_known_def)
  have core: "ip_tx_core os wait i p buf (Some i) dst (Some dst) (ip_next_id s) 0 ?s = ip_tx_netdev os wait i pk (Some dst) ?s"
    unfolding pk_def using n assms(7,9) by (intro ip_tx_core_packet) auto
  obtain s' where tx: "ip_tx_netdev os wait i pk (Some dst) ?s = Inr (1, s')"
    using ip_tx_netdev_known [of ?s i n d dev "Some dst" ha addr fd pk os wait] n o assms(7,9,10) by (auto simp: pk_def)
  have "ip_tx_loop (Suc f) os wait (Some i) p buf (Some i) dst (Some dst) (ip_next_id s) 0 ?s = Inr (int (length buf), s')"
    using netif_dev_known [of ?s i n d dev] n sz core tx assms(8)
    by (cases f) (simp_all add: ip_frag_field_def)
  then show ?thesis using assms(5) by (simp add: ip_tx_def ip_generate_id_def f)
qed

theorem ip_end_to_end_witness:
  "let s = ip_start 3 (plain_dev [2, 0, 0, 0, 0, 1] 7) 4 (plain_netif 5) (Some (6, [2, 0, 0, 0, 0, 9]));
       t = ip_start 2 (plain_dev [2, 0, 0, 0, 0, 9] 8) 9 (plain_netif 6) None;
       call = (\<lambda>h pl len src dst i s. Inr (s\<lparr>sys_fds := map (int \<circ> unat) (take len pl)\<rparr>))
   in \<exists>s' frame ret. ip_tx (plain_os 0 60) (\<lambda>_. []) (Some 4) 6 [1, 2, 3] 6 s = Inr (3, s') \<and>
        sys_sent s' = [(7, frame, ret)] \<and>
        ethernet_rx Little (proto_call (plain_os 0 60) call) 2 frame t = Inr (t\<lparr>sys_fds := [1, 2, 3]\<rparr>)"
proof -
  define s where "s = ip_start 3 (plain_dev [2, 0, 0, 0, 0, 1] 7) 4 (plain_netif 5) (Some (6, [2, 0, 0, 0, 0, 9]))"
  define t where "t = ip_start 2 (plain_dev [2, 0, 0, 0, 0, 9] 8) 9 (plain_netif 6) None"
  define call where "call = (\<lambda>(h :: ip_handler) (pl :: bytes) len (src :: u32) (dst :: u32) (i :: nat) s.
    (Inr (s\<lparr>sys_fds := map (int \<circ> unat) (take len pl)\<rparr>) :: ip res))"
  define dev where "dev = plain_dev [2, 0, 0, 0, 0, 1] 7\<lparr>nd_ifs := [4]\<rparr>"
  let ?b = "[1, 2, 3] :: bytes"
  have n: "net_ifs s 4 = Some ((plain_netif 5)\<lparr>if_dev := Some 3\<rparr>)" "net_devs s 3 = Some dev"
    "if_dev ((plain_netif 5)\<lparr>if_dev := Some 3\<rparr>) = Some 3" by (simp_all add: s_def dev_def)
  have o: "dev_open s 3 [2, 0, 0, 0, 0, 1] 7" unfolding s_def by (rule ip_start_open) simp
  have h: "hop_known s dev (Some 6) [2, 0, 0, 0, 0, 9]"
    using ip_start_hop [of "[2, 0, 0, 0, 0, 9]"] by (simp add: s_def dev_def ETHERNET_ADDR_ANY_def)
  have m: "unat (nd_mtu dev) \<le> 1500" "0 < length ?b" "20 + length ?b \<le> unat (nd_mtu dev)"
    "(6 :: u32) \<noteq> 0xffffffff" "\<forall>k. os_ret (plain_os 0 60) k = int (14 + max 46 (20 + length ?b))"
    by (simp_all add: dev_def plain_dev_def)
  obtain s' where s': "ip_tx (plain_os 0 60) (\<lambda>_. []) (Some 4) 6 ?b 6 s = Inr (int (length ?b), s')"
    using ip_tx_one_ok [OF n(1,3,2) o m(4) h m(1-3,5)] by blast
  have r: "net_devs t 2 = Some (plain_dev [2, 0, 0, 0, 0, 9] 8\<lparr>nd_ifs := [9]\<rparr>)"
    "take 6 (nd_addr (plain_dev [2, 0, 0, 0, 0, 9] 8\<lparr>nd_ifs := [9]\<rparr>)) = [2, 0, 0, 0, 0, 9]"
    "protos_distinct t" "find_proto t 0x0800 = Some ip_rx_handler" "netdev_get_netif 2 2 t = Inr (Some 9)"
    "net_ifs t 9 = Some ((plain_netif 6)\<lparr>if_dev := Some 2\<rparr>)" "unicast ((plain_netif 6)\<lparr>if_dev := Some 2\<rparr>) = 6"
    "find (\<lambda>q. ipp_type q = 6) (protocols t) = Some \<lparr>ipp_type = 6, ipp_handler = tcp_rx_handler\<rparr>"
    by (simp_all add: t_def plain_dev_def protos_distinct_def find_proto_def netdev_get_netif_def plain_netif_def)
  show ?thesis
    using ip_end_to_end [OF n(1,3,2) o m(4) h m(1-3) s' r(1-7) refl r(8), of call] s'
    unfolding Let_def s_def [symmetric] t_def [symmetric] by (auto simp: call_def s_def)
qed

lemma ip_rx_invalid: "ip_valid (os_endian os) dgram = Inr False \<Longrightarrow> ip_rx os call dgram d s = Inr s"
  by (simp add: ip_rx_def)

lemma ip_valid_total: "\<exists>b. ip_valid e dgram = Inr b"
proof -
  have "\<exists>c. cksum16 e dgram (ip_hlen (dec_ip_hdr e dgram)) 0 = Inr c"
    if "unat (ip_hlen (dec_ip_hdr e dgram)) \<le> length dgram"
    using cksum16_spec [OF sum_fitsI [OF that, of 0 e]] by auto
  then show ?thesis
    by (cases "ip_valid e dgram") (auto simp: ip_valid_def Let_def bindr_Inl_iff split: if_splits)
qed

lemma dec_vhl: "ip_hlen (dec_ip_hdr e bs) = push_bit 2 (ucast (bs ! 0 AND 0x0f))"
  by (simp add: ip_hlen_def dec_ip_hdr_def)

text \<open>
  Property C26: a header damaged in one half word is dropped. Take any datagram the checks of
  \<open>ip_rx\<close> accept and change one 16-bit half word of its header other than the first, to a value
  that does not merely exchange the two zeros of one's complement. The result is dropped: no
  handler runs and the state is unchanged.
\<close>

theorem ip_rx_drops_corrupted:
  assumes ok: "ip_valid (os_endian os) (pre @ bytes16 (os_endian os) v @ mid @ rest) = Inr True"
    and l: "even (length pre)" "2 \<le> length pre"
      "unat (ip_hlen (dec_ip_hdr (os_endian os) (pre @ bytes16 (os_endian os) v @ mid @ rest))) = length pre + 2 + length mid"
    and ne: "v \<noteq> v'" "{v, v'} \<noteq> {0, 0xffff}"
  shows "ip_rx os call (pre @ bytes16 (os_endian os) v' @ mid @ rest) d s = Inr s"
proof (rule ip_rx_invalid)
  let ?e = "os_endian os"
  let ?a = "pre @ bytes16 ?e v @ mid" and ?b = "pre @ bytes16 ?e v' @ mid"
  define hl where "hl = ip_hlen (dec_ip_hdr ?e (?a @ rest))"
  have sz: "unat hl = length pre + 2 + length mid" using l(3) by (simp add: hl_def)
  have hl': "ip_hlen (dec_ip_hdr ?e (?b @ rest)) = hl"
    using l(2) by (cases pre) (simp_all add: hl_def dec_vhl)
  have "cksum16 ?e (?a @ rest) hl 0 = Inr 0"
    using ok by (auto simp: ip_valid_def hl_def Let_def bindr_Inr_iff split: if_splits)
  then have "cksum16 ?e ?a hl 0 = Inr 0"
    using cksum16_prefix [of hl ?a ?e rest 0] sz by simp
  from cksum16_half_word [OF l(1) sz _ this ne] have "cksum16 ?e ?b hl 0 \<noteq> Inr 0" by simp
  then have bad: "cksum16 ?e (?b @ rest) hl 0 \<noteq> Inr 0"
    using cksum16_prefix [of hl ?b ?e rest 0] sz by simp
  obtain b where b: "ip_valid ?e (?b @ rest) = Inr b" using ip_valid_total by blast
  have "\<not> b"
  proof
    assume b
    then have "cksum16 ?e (?b @ rest) hl 0 = Inr 0"
      using b unfolding hl' [symmetric] by (auto simp: ip_valid_def Let_def bindr_Inr_iff split: if_splits)
    with bad show False by simp
  qed
  then show "ip_valid ?e (pre @ bytes16 ?e v' @ mid @ rest) = Inr False" using b by simp
qed

theorem ip_rx_drops_corrupted_witness:
  "ip_rx (plain_os 0 60) (\<lambda>h pl len src dst i s. Inl NullDeref)
     ([0x45, 0, 0, 20] @ [7, 9] @ [0, 0, 0xff, 6] @ [0xbb, 0xd9, 0, 0, 0, 5, 0, 0, 0, 6]) 3
     (ip_start 3 (plain_dev [2, 0, 0, 0, 0, 1] 7) 4 (plain_netif 0x06000000) None) =
   Inr (ip_start 3 (plain_dev [2, 0, 0, 0, 0, 1] 7) 4 (plain_netif 0x06000000) None)"
proof -
  let ?pre = "[0x45, 0, 0, 20] :: bytes" and ?mid = "[0, 0, 0xff, 6, 0xbb, 0xd9, 0, 0, 0, 5, 0, 0, 0, 6] :: bytes"
  have b: "bytes16 Little 0x0000 = [0, 0]" "bytes16 Little 0x0907 = [7, 9]" by (simp_all add: bytes16_def)
  have ok: "ip_valid (os_endian (plain_os 0 60)) (?pre @ bytes16 (os_endian (plain_os 0 60)) 0 @ ?mid @ []) = Inr True"
    unfolding plain_os_simps b by code_simp
  show ?thesis
    using ip_rx_drops_corrupted [OF ok, of "0x0907"] by (simp add: b dec_vhl doubleton_eq_iff)
qed

text \<open>
  Property C31: the total length field is not checked against the header length. A datagram that
  passes the checks, is not a fragment, is for this host and gives a total length smaller than its
  header makes \<open>ip_rx\<close> hand its protocol a length of at least 2^63: the difference of the two
  wraps when it becomes a \<open>size_t\<close>.
\<close>

theorem ip_rx_length_underflow:
  assumes "ip_valid (os_endian os) dgram = Inr True" "h = dec_ip_hdr (os_endian os) dgram"
    and "ntoh16 (os_endian os) (ip_len h) < ip_hlen h" "ntoh16 (os_endian os) (ip_offset h) = 0"
    and "netdev_get_netif d 2 s = Inr (Some i)" "net_ifs s i = Some n" "ip_dst h = unicast n"
    and "find (\<lambda>q. ipp_type q = ip_protocol h) (protocols s) = Some q"
  shows "\<exists>plen \<ge> 2 ^ 63. ip_rx os call dgram d s =
    call (ipp_handler q) (drop (unat (ip_hlen h)) dgram) plen (ip_src h) (ip_dst h) i s"
proof -
  define k where "k = uint (ntoh16 (os_endian os) (ip_len h)) - uint (ip_hlen h)"
  have "uint (ip_hlen h) < 65536" using uint_lt2p [of "ip_hlen h"] by simp
  then have "k < 0 \<and> - 65536 \<le> k"
    using assms(3) [unfolded word_less_def] uint_ge_0 [of "ntoh16 (os_endian os) (ip_len h)"]
    unfolding k_def by linarith
  then have "2 ^ 63 \<le> size_of_int k" by (intro size_of_int_neg) auto
  moreover have "ip_rx os call dgram d s =
      call (ipp_handler q) (drop (unat (ip_hlen h)) dgram) (size_of_int k) (ip_src h) (ip_dst h) i s"
    using assms by (simp add: ip_rx_def ip_deliver_def k_def Let_def)
  ultimately show ?thesis by blast
qed

theorem ip_rx_length_underflow_witness:
  "\<exists>plen \<ge> 2 ^ 63. ip_rx (plain_os 0 60) (\<lambda>h pl len src dst i s. Inr (s\<lparr>sys_fds := [int len]\<rparr>))
     [0x45, 0, 0, 4, 0, 0, 0, 0, 0xff, 6, 0xbb, 0xe9, 0, 0, 0, 5, 0, 0, 0, 6] 3
     (ip_start 3 (plain_dev [2, 0, 0, 0, 0, 1] 7) 4 (plain_netif 0x06000000) None) =
   Inr ((ip_start 3 (plain_dev [2, 0, 0, 0, 0, 1] 7) 4 (plain_netif 0x06000000) None)\<lparr>sys_fds := [int plen]\<rparr>)"
proof -
  let ?p = "[0x45, 0, 0, 4, 0, 0, 0, 0, 0xff, 6, 0xbb, 0xe9, 0, 0, 0, 5, 0, 0, 0, 6] :: bytes"
  define s where "s = ip_start 3 (plain_dev [2, 0, 0, 0, 0, 1] 7) 4 (plain_netif 0x06000000) None"
  have ok: "ip_valid (os_endian (plain_os 0 60)) ?p = Inr True" unfolding plain_os_simps by code_simp
  have h: "dec_ip_hdr Little ?p = \<lparr>ip_vhl = 0x45, ip_tos = 0, ip_len = 0x0400, ip_id = 0, ip_offset = 0, ip_ttl = 0xff,
     ip_protocol = 6, ip_sum = 0xe9bb, ip_src = 0x05000000, ip_dst = 0x06000000\<rparr>"
    by (simp add: dec_ip_hdr_def load16_def load32_def)
  have n: "netdev_get_netif 3 2 s = Inr (Some 4)" "net_ifs s 4 = Some ((plain_netif 0x06000000)\<lparr>if_dev := Some 3\<rparr>)"
    "find (\<lambda>q. ipp_type q = 6) (protocols s) = Some \<lparr>ipp_type = 6, ipp_handler = tcp_rx_handler\<rparr>"
    by (simp_all add: s_def netdev_get_netif_def plain_netif_def)
  have c: "ntoh16 Little (0x0400 :: u16) = 4" "ip_hlen (dec_ip_hdr Little ?p) = 20" "ntoh16 Little 0 = 0"
    by (simp_all add: byte_simps byteswap16_def h ip_hlen_def)
  show ?thesis
    unfolding s_def [symmetric]
    using ip_rx_length_underflow [OF ok refl, of 3 s 4 "(plain_netif 0x06000000)\<lparr>if_dev := Some 3\<rparr>"
        "\<lparr>ipp_type = 6, ipp_handler = tcp_rx_handler\<rparr>" "\<lambda>h pl len src dst i s. Inr (s\<lparr>sys_fds := [int len]\<rparr>)"] n c
    by (simp add: h plain_netif_def)
qed

section \<open>Registration\<close>

definition find_ip_proto :: "'a ip_scheme \<Rightarrow> u8 \<Rightarrow> ip_handler option" where
  "find_ip_proto s t = map_option ipp_handler (find (\<lambda>p. ipp_type p = t) (protocols s))"

interpretation ipr: registry "\<lambda>_. True" "\<lambda>_ _ _. True" find_ip_proto "\<lambda>k h s. ip_add_protocol os k h s" for os
  by unfold_locales
    (auto simp: find_ip_proto_def ip_add_protocol_def find_None_list_ex sys_malloc_def fun_eq_iff
      find_Some_iff_ex [unfolded not_None_eq] split: if_splits)

lemma ip_deliver_find:
  "ip_deliver call hdr pl plen i s =
     (case find_ip_proto s (ip_protocol hdr) of None \<Rightarrow> Inr s | Some h \<Rightarrow> call h pl plen (ip_src hdr) (ip_dst hdr) i s)"
  by (simp add: ip_deliver_def find_ip_proto_def split: option.split)

text \<open>
  A protocol added successfully receives the datagrams of its type, and the other
  types go where they went; adding the type again is refused and changes nothing. The only other
  outcome is that the memory for the entry is not available, and then the code writes through a
  null pointer.
\<close>

theorem ip_add_protocol_dispatch:
  "(find_ip_proto s t \<noteq> None \<and> ip_add_protocol os t h s = Inr (-1, s)) \<or>
   (find_ip_proto s t = None \<and> \<not> os_malloc os (sys_tick s) \<and> ip_add_protocol os t h s = Inl NullDeref) \<or>
   (find_ip_proto s t = None \<and> (\<exists>s1. ip_add_protocol os t h s = Inr (0, s1) \<and>
      ip_add_protocol os t h2 s1 = Inr (-1, s1) \<and>
      (\<forall>hdr pl plen i. ip_deliver call hdr pl plen i s1 =
        (if ip_protocol hdr = t then call h pl plen (ip_src hdr) (ip_dst hdr) i s1
         else (case find_ip_proto s (ip_protocol hdr) of
                 None \<Rightarrow> Inr s1 | Some h' \<Rightarrow> call h' pl plen (ip_src hdr) (ip_dst hdr) i s1)))))"
proof (cases "find_ip_proto s t")
  case None
  show ?thesis
  proof (cases "os_malloc os (sys_tick s)")
    case True
    obtain s1 where s1: "ip_add_protocol os t h s = Inr (0, s1)"
      using None True by (auto simp: ip_add_protocol_def find_ip_proto_def find_None_list_ex sys_malloc_def)
    have "find_ip_proto s1 = (find_ip_proto s)(t \<mapsto> h)"
      using ipr.reg_new [OF TrueI TrueI None s1] by auto
    then show ?thesis
      using None s1 ipr.reg_twice [OF TrueI TrueI s1 TrueI, of h2] by (auto simp: ip_deliver_find)
  next
    case False
    then show ?thesis
      using None by (auto simp: ip_add_protocol_def find_ip_proto_def find_None_list_ex sys_malloc_def)
  qed
next
  case (Some x)
  then show ?thesis using ipr.reg_dup [OF TrueI TrueI, of s t os h] by auto
qed

text \<open>The text of an address and of a mask.\<close>

lemma pton_ntop: "ip_addr_pton e (ip_addr_ntop e n 16) m = (0, n)"
  using ip_addr_text [of e n m] by simp

lemma netif_find_other: "i \<notin> set is \<Longrightarrow> netif_find (m(i \<mapsto> x)) is f = netif_find m is f"
  by (induction "is") (auto simp: deref_def split: option.split)

text \<open>
  Registering an interface from the texts of its address and mask on a device that has
  no IP interface. It succeeds when there is memory; the interface has the address, the mask, the
  network and the directed broadcast address, is the device's IP interface and the one used for
  every destination, and \<open>ip_netif_by_addr\<close> finds it when the device is listed first.
\<close>

theorem ip_netif_register_ok:
  assumes "ifs_live d s" "find_netif d s 2 = None" "os_malloc os (sys_tick s)"
    and "\<forall>dev. net_devs s d = Some dev \<longrightarrow> sys_tick s \<notin> set (nd_ifs dev)"
  shows "\<exists>s1 n. ip_netif_register os d (ip_addr_ntop (os_endian os) a 16) (ip_addr_ntop (os_endian os) m 16) blk s =
      Inr (Some (sys_tick s), s1) \<and>
    net_ifs s1 (sys_tick s) = Some n \<and> unicast n = a \<and> netmask n = m \<and> network n = a AND m \<and>
    broadcast n = (a AND m) OR NOT m \<and> if_dev n = Some d \<and>
    netdev_get_netif d 2 s1 = Inr (Some (sys_tick s)) \<and> ip_netif_by_peer peer s1 = Some (sys_tick s) \<and>
    (devices s = d # ds \<longrightarrow> ip_netif_by_addr a s1 = Inr (Some (sys_tick s)))"
proof -
  let ?i = "sys_tick s"
  obtain dev where dev: "net_devs s d = Some dev" "\<forall>i \<in> set (nd_ifs dev). net_ifs s i \<noteq> None" "?i \<notin> set (nd_ifs dev)"
    using assms(1,4) by (auto simp: ifs_live_def split: option.splits)
  define n where "n = blk\<lparr>if_family := 2, if_dev := None, unicast := a, netmask := m, network := a AND m,
    broadcast := (a AND m) OR NOT m\<rparr>"
  define s0 where "s0 = s\<lparr>sys_tick := Suc ?i, net_ifs := (net_ifs s)(?i \<mapsto> n), default_netif := Some ?i\<rparr>"
  define s1 where "s1 = s0\<lparr>net_ifs := (net_ifs s0)(?i \<mapsto> n\<lparr>if_dev := Some d\<rparr>),
    net_devs := (net_devs s)(d \<mapsto> dev\<lparr>nd_ifs := ?i # nd_ifs dev\<rparr>)\<rparr>"
  have "netif_find (net_ifs s) (nd_ifs dev) 2 = Inr None"
    using get_netif_live [OF assms(1), of 2] assms(2) dev(1) by (simp add: netdev_get_netif_def)
  then have add: "netdev_add_netif d ?i s0 = Inr (0, s1)"
    using dev by (simp add: netdev_add_netif_def s0_def s1_def n_def netif_find_other)
  have run: "ip_netif_register os d (ip_addr_ntop (os_endian os) a 16) (ip_addr_ntop (os_endian os) m 16) blk s =
      Inr (Some ?i, s1)"
    using assms(3) add unfolding ip_netif_register_def
    by (simp add: sys_malloc_def pton_ntop Let_def s0_def n_def)
  have n1: "net_ifs s1 ?i = Some (n\<lparr>if_dev := Some d\<rparr>)" "net_devs s1 d = Some (dev\<lparr>nd_ifs := ?i # nd_ifs dev\<rparr>)"
    "devices s1 = devices s" "default_netif s1 = Some ?i"
    by (simp_all add: s1_def s0_def)
  show ?thesis
    by (rule exI [of _ s1], rule exI [of _ "n\<lparr>if_dev := Some d\<rparr>"])
      (simp add: run n1 ip_netif_by_peer_def ip_netif_by_addr_def netdev_get_netif_def, simp add: n_def)
qed

theorem ip_netif_register_ok_witness:
  "let s = (ip_start 3 (plain_dev [2, 0, 0, 0, 0, 1] 7) 4 (plain_netif 5) None)
         \<lparr>net_devs := [3 \<mapsto> plain_dev [2, 0, 0, 0, 0, 1] 7], net_ifs := Map.empty\<rparr>
   in \<exists>s1 n. ip_netif_register (plain_os 0 60) 3 (ip_addr_ntop Little 0x0200a8c0 16) (ip_addr_ntop Little 0x00ffffff 16)
          (plain_netif 0) s = Inr (Some 0, s1) \<and>
        net_ifs s1 0 = Some n \<and> broadcast n = 0xff00a8c0 \<and> ip_netif_by_addr 0x0200a8c0 s1 = Inr (Some 0)"
proof -
  define s where "s = (ip_start 3 (plain_dev [2, 0, 0, 0, 0, 1] 7) 4 (plain_netif 5) None)
         \<lparr>net_devs := [3 \<mapsto> plain_dev [2, 0, 0, 0, 0, 1] 7], net_ifs := Map.empty\<rparr>"
  have h: "ifs_live 3 s" "find_netif 3 s 2 = None" "os_malloc (plain_os 0 60) (sys_tick s)" "devices s = 3 # []"
    "\<forall>dev. net_devs s 3 = Some dev \<longrightarrow> sys_tick s \<notin> set (nd_ifs dev)"
    by (simp_all add: s_def ifs_live_def find_netif_def netdev_get_netif_def plain_dev_def ip_start_def)
  have t: "sys_tick s = 0" by (simp add: s_def)
  show ?thesis
    using ip_netif_register_ok [OF h(1-3,5), of "0x0200a8c0" "0x00ffffff" "plain_netif 0" 0 "[]"] h(4)
    unfolding Let_def s_def [symmetric] by (auto simp: t)
qed

text \<open>
  Property C32: registering a second interface on a device fails, as it should, but leaves the
  default interface pointing to the block that was freed; the next \<open>ip_tx\<close> through
  \<open>ip_netif_by_peer\<close> follows that pointer.
\<close>

theorem ip_netif_register_dangling:
  assumes "ifs_live d s" "find_netif d s 2 \<noteq> None" "os_malloc os (sys_tick s)"
    and "\<forall>dev. net_devs s d = Some dev \<longrightarrow> sys_tick s \<notin> set (nd_ifs dev)" "buf \<noteq> []"
  shows "\<exists>s1. ip_netif_register os d (ip_addr_ntop (os_endian os) a 16) (ip_addr_ntop (os_endian os) m 16) blk s =
      Inr (None, s1) \<and> ip_netif_by_peer dst s1 = Some (sys_tick s) \<and> net_ifs s1 (sys_tick s) = None \<and>
    ip_tx os wait (ip_netif_by_peer dst s1) p buf dst s1 = Inl UseAfterFree"
proof -
  let ?i = "sys_tick s"
  obtain dev where dev: "net_devs s d = Some dev" "?i \<notin> set (nd_ifs dev)"
    using assms(1,4) by (auto simp: ifs_live_def split: option.splits)
  define n where "n = blk\<lparr>if_family := 2, if_dev := None, unicast := a, netmask := m, network := a AND m,
    broadcast := (a AND m) OR NOT m\<rparr>"
  define s0 where "s0 = s\<lparr>sys_tick := Suc ?i, net_ifs := (net_ifs s)(?i \<mapsto> n), default_netif := Some ?i\<rparr>"
  define s1 where "s1 = s0\<lparr>net_ifs := (net_ifs s0)(?i := None)\<rparr>"
  obtain j where "netif_find (net_ifs s) (nd_ifs dev) 2 = Inr (Some j)"
    using get_netif_live [OF assms(1), of 2] assms(2) dev(1) by (auto simp: netdev_get_netif_def)
  then have add: "netdev_add_netif d ?i s0 = Inr (-1, s0)"
    using dev by (simp add: netdev_add_netif_def s0_def n_def netif_find_other)
  have run: "ip_netif_register os d (ip_addr_ntop (os_endian os) a 16) (ip_addr_ntop (os_endian os) m 16) blk s =
      Inr (None, s1)"
    using assms(3) add unfolding ip_netif_register_def s1_def
    by (simp add: sys_malloc_def pton_ntop Let_def s0_def n_def)
  have d1: "default_netif s1 = Some ?i" "net_ifs s1 ?i = None" by (simp_all add: s1_def s0_def)
  obtain k where k: "length buf = Suc k" using assms(5) by (cases buf) auto
  have "ip_tx os wait (Some ?i) p buf dst s1 = Inl UseAfterFree"
    using d1(2) k by (simp add: ip_tx_def ip_generate_id_def netif_dev_def deref_def)
  then show ?thesis using run d1 by (simp add: ip_netif_by_peer_def)
qed

theorem ip_netif_register_dangling_witness:
  "let s = (ip_start 3 (plain_dev [2, 0, 0, 0, 0, 1] 7) 4 (plain_netif 5) None)
   in \<exists>s1. ip_netif_register (plain_os 0 60) 3 (ip_addr_ntop Little 0x0200a8c0 16) (ip_addr_ntop Little 0x00ffffff 16)
          (plain_netif 0) s = Inr (None, s1) \<and>
        ip_tx (plain_os 0 60) (\<lambda>_. []) (ip_netif_by_peer 6 s1) 6 [1, 2, 3] 6 s1 = Inl UseAfterFree"
proof -
  define s where "s = ip_start 3 (plain_dev [2, 0, 0, 0, 0, 1] 7) 4 (plain_netif 5) None"
  have h: "ifs_live 3 s" "find_netif 3 s 2 \<noteq> None" "os_malloc (plain_os 0 60) (sys_tick s)"
    "\<forall>dev. net_devs s 3 = Some dev \<longrightarrow> sys_tick s \<notin> set (nd_ifs dev)"
    by (simp_all add: s_def ifs_live_def find_netif_def netdev_get_netif_def plain_dev_def plain_netif_def)
  have b: "[1, 2, 3] \<noteq> ([] :: bytes)" by simp
  show ?thesis
    using ip_netif_register_dangling [OF h b, of "0x0200a8c0" "0x00ffffff" "plain_netif 0" 6 "\<lambda>_. []" 6]
    unfolding Let_def s_def [symmetric] by auto
qed

end
