(* ===== verification/Ipview.thy ===== *)
theory Ipview
  imports Ip
begin

text \<open>
  What the layer above may rely on when it calls \<open>ip_tx\<close>: the interface between IP and its users.
  A view of the state that the counters and logs of the lower layers do not touch, and that the
  other threads leave alone while \<open>arp_resolve\<close> waits, is the same after the call.
\<close>

definition wait_keeps :: "('s \<Rightarrow> 'v) \<Rightarrow> (nat \<Rightarrow> (wait_ret \<times> ('s \<Rightarrow> 's)) list) \<Rightarrow> bool" where
  "wait_keeps view wait \<longleftrightarrow> (\<forall>k. \<forall>(ret, others) \<in> set (wait k). \<forall>s. view (others s) = view s)"

lemma wait_keeps_none [simp]: "wait_keeps view (\<lambda>_. [])"
  by (simp add: wait_keeps_def)

locale ip_view =
  fixes view :: "'a ip_scheme \<Rightarrow> 'v"
  assumes view_tick [simp]: "view (s\<lparr>sys_tick := t\<rparr>) = view s"
    and view_sent [simp]: "view (s\<lparr>sys_sent := l\<rparr>) = view s"
    and view_tbl [simp]: "view (s\<lparr>arp_tbl := tbl\<rparr>) = view s"
    and view_id [simp]: "view (s\<lparr>ip_next_id := n\<rparr>) = view s"
begin

lemma view_sends: "sends s s' \<Longrightarrow> view s' = view s"
  by (auto simp: sends_def)

lemma view_set_entry [simp]: "view (set_entry i en s) = view s"
  by (simp add: set_entry_def)

lemma netdev_tx_view: "netdev_tx os d ty pl dst s = Inr (r, s') \<Longrightarrow> view s' = view s"
  by (rule view_sends) (rule netdev_tx_sendsD)

lemma arp_send_request_view: "postr (arp_send_request os i tpa s) (\<lambda>(r, s'). view s' = view s)"
  unfolding arp_send_request_def
  by (auto simp: Let_def intro!: postr_bindI split: option.splits) (erule netdev_tx_view)+

lemma arp_wait_view:
  assumes "\<forall>(ret, others) \<in> set ws. \<forall>s. view (others s) = view s"
  shows "postr (arp_wait ws s) (\<lambda>(ret, s'). view s' = view s)"
  using assms
proof (induction ws arbitrary: s)
  case (Cons w ws)
  obtain ret others where w: "w = (ret, others)" by fastforce
  have "view (others s) = view s" using Cons.prems w by auto
  then show ?case using Cons.IH [of "others s"] Cons.prems w by auto
qed simp

lemma arp_resolve_view:
  assumes "wait_keeps view wait"
  shows "postr (arp_resolve os wait i pa data s) (\<lambda>(r, ha, s'). view s' = view s)"
proof -
  have w: "postr (arp_wait (wait k) t) (\<lambda>(ret, s'). view s' = view t)" for k t
    using assms by (intro arp_wait_view) (auto simp: wait_keeps_def)
  show ?thesis
    unfolding arp_resolve_def sys_timeofday_def Let_def prod.case
    by (auto simp: sys_defs postrD [OF w] intro!: postr_bindI split: option.splits dest!: postrD [OF arp_send_request_view] postrD [OF w])
qed

lemma ip_next_ha_view:
  assumes "wait_keeps view wait"
  shows "postr (ip_next_ha os wait i packet dst s) (\<lambda>(r, ha, s'). view s' = view s)"
  unfolding ip_next_ha_def
  by (auto simp: Let_def intro!: postr_bindI split: option.splits dest!: postrD [OF arp_resolve_view [OF assms]])

lemma ip_tx_netdev_view:
  assumes "wait_keeps view wait"
  shows "postr (ip_tx_netdev os wait i packet dst s) (\<lambda>(r, s'). view s' = view s)"
  unfolding ip_tx_netdev_def
  by (auto intro!: postr_bindI dest!: postrD [OF ip_next_ha_view [OF assms]] netdev_tx_view)

lemma ip_tx_core_view:
  assumes "wait_keeps view wait"
  shows "postr (ip_tx_core os wait i p buf src dst hop ident off s) (\<lambda>(r, s'). view s' = view s)"
  unfolding ip_tx_core_def Let_def
  by (intro postr_bindI ip_tx_netdev_view [OF assms])

lemma ip_tx_loop_view:
  assumes "wait_keeps view wait"
  shows "postr (ip_tx_loop fuel os wait i p buf src dst hop ident done s) (\<lambda>(r, s'). view s' = view s)"
proof (induction fuel arbitrary: "done" s)
  case (Suc fuel)
  have "postr (if r = -1 then Inr (-1, s') else ip_tx_loop fuel os wait i p buf src dst hop ident n s')
      (\<lambda>(r, s'). view s' = view s)" if "view s' = view s" for r s' n
    using Suc.IH [of n s'] that by simp
  then show ?case
    by (auto simp: Let_def intro!: postr_bindI split: option.split dest!: postrD [OF ip_tx_core_view [OF assms]])
qed simp

lemma ip_tx_view:
  assumes "wait_keeps view wait" "ip_tx os wait i p buf dst s = Inr (r, s')"
  shows "view s' = view s"
proof -
  have "postr (ip_tx os wait i p buf dst s) (\<lambda>(r, s'). view s' = view s)"
    unfolding ip_tx_def ip_generate_id_def Let_def split_beta fst_conv snd_conv
    by (rule postr_mono, rule ip_tx_loop_view [OF assms(1)]) auto
  then show ?thesis using assms(2) by simp
qed

end

section \<open>Sending is safe\<close>

text \<open>An interface of an open device whose packets fit the buffer of \<open>ip_tx_core\<close>.\<close>

definition netif_sane :: "'a net_scheme \<Rightarrow> nat \<Rightarrow> bool" where
  "netif_sane s i \<longleftrightarrow>
     netif_ready s i \<and>
     (\<forall>n d dev. net_ifs s i = Some n \<longrightarrow> if_dev n = Some d \<longrightarrow> net_devs s d = Some dev \<longrightarrow>
        20 < unat (nd_mtu dev) \<and> unat (nd_mtu dev) \<le> 4096 \<and> unat (nd_alen dev) \<le> 16 \<and> length (nd_broadcast dev) = 16)"

lemma netif_sane_cong: "same_net s s' \<Longrightarrow> netif_sane s' i = netif_sane s i"
  using ready_cong(2) [of s s' i] by (simp add: netif_sane_def same_net_def)

lemma netif_saneE:
  assumes "netif_sane s i"
  obtains n d dev where "net_ifs s i = Some n" "if_dev n = Some d" "net_devs s d = Some dev" "dev_ready s d"
    "20 < unat (nd_mtu dev)" "unat (nd_mtu dev) \<le> 4096" "unat (nd_alen dev) \<le> 16" "length (nd_broadcast dev) = 16"
proof -
  from assms have "netif_ready s i" by (simp add: netif_sane_def)
  then obtain n d where n: "net_ifs s i = Some n" "if_dev n = Some d" "dev_ready s d" by (rule netif_readyE)
  then obtain dev where "net_devs s d = Some dev" by (auto simp: dev_ready_def split: option.splits)
  with n assms that show ?thesis by (simp add: netif_sane_def)
qed

text \<open>A call that is still waiting, or has returned with the lower layers in order.\<close>

definition tx_safe :: "'a arp_scheme \<Rightarrow> ('r \<times> 'a arp_scheme) res \<Rightarrow> bool" where
  "tx_safe s m \<longleftrightarrow> m = Inl Blocked \<or> (\<exists>r s'. m = Inr (r, s') \<and> arp_good s' \<and> same_net s s')"

lemma tx_safe_Inr [simp]: "tx_safe s (Inr (r, s')) \<longleftrightarrow> arp_good s' \<and> same_net s s'"
  by (simp add: tx_safe_def)

lemma tx_safe_bind:
  assumes "tx_safe s m" "\<And>r s'. m = Inr (r, s') \<Longrightarrow> arp_good s' \<Longrightarrow> same_net s s' \<Longrightarrow> tx_safe s' (f r s')"
  shows "tx_safe s (bindr m (\<lambda>(r, s'). f r s'))"
  using assms same_net_trans unfolding tx_safe_def by fastforce

text \<open>The same for a call that returns nothing but the state.\<close>

definition run_safe :: "'a arp_scheme \<Rightarrow> 'a arp_scheme res \<Rightarrow> bool" where
  "run_safe s m \<longleftrightarrow> m = Inl Blocked \<or> (\<exists>s'. m = Inr s' \<and> arp_good s' \<and> same_net s s')"

lemma run_safe_simps [simp]: "run_safe s (Inr s') \<longleftrightarrow> arp_good s' \<and> same_net s s'" "run_safe s (Inl Blocked)"
  by (simp_all add: run_safe_def)

lemma run_safe_bind:
  assumes "run_safe s m" "\<And>s'. m = Inr s' \<Longrightarrow> arp_good s' \<Longrightarrow> same_net s s' \<Longrightarrow> run_safe s' (f s')"
  shows "run_safe s (bindr m f)"
  using assms same_net_trans unfolding run_safe_def by fastforce

lemma run_safe_bind_tx:
  assumes "tx_safe s m" "\<And>r s'. m = Inr (r, s') \<Longrightarrow> arp_good s' \<Longrightarrow> same_net s s' \<Longrightarrow> run_safe s' (f r s')"
  shows "run_safe s (bindr m (\<lambda>(r, s'). f r s'))"
  using assms same_net_trans unfolding tx_safe_def run_safe_def by fastforce

lemma tx_safe_bind_run:
  assumes "run_safe s m" "\<And>s'. m = Inr s' \<Longrightarrow> arp_good s' \<Longrightarrow> same_net s s' \<Longrightarrow> tx_safe s' (f s')"
  shows "tx_safe s (bindr m f)"
  using assms same_net_trans unfolding tx_safe_def run_safe_def by fastforce

lemma run_safe_trans: "same_net s t \<Longrightarrow> run_safe t m \<Longrightarrow> run_safe s m"
  using same_net_trans unfolding run_safe_def by blast

lemma tx_safe_trans: "same_net s t \<Longrightarrow> tx_safe t m \<Longrightarrow> tx_safe s m"
  using same_net_trans unfolding tx_safe_def by blast

lemma ip_next_ha_safe:
  assumes "arp_good s" "netif_sane s i" "arp_rely wait"
  shows "ip_next_ha os wait i packet hop s = Inl Blocked \<or>
    (\<exists>r ha s'. ip_next_ha os wait i packet hop s = Inr (r, ha, s') \<and> arp_good s' \<and> same_net s s' \<and> 6 \<le> length ha)"
proof -
  obtain n d dev where n: "net_ifs s i = Some n" "if_dev n = Some d" "net_devs s d = Some dev"
    "unat (nd_alen dev) \<le> 16" "length (nd_broadcast dev) = 16" by (rule netif_saneE [OF assms(2)])
  have r: "netif_ready s i" using assms(2) by (simp add: netif_sane_def)
  show ?thesis
  proof (cases "nd_flags dev AND 0x0010 = 0")
    case False
    then show ?thesis using n assms(1) by (simp add: ip_next_ha_def netif_dev_known [OF n(1-3)])
  next
    case True
    show ?thesis
    proof (cases hop)
      case None
      then show ?thesis
        using True n assms(1) by (simp add: ip_next_ha_def netif_dev_known [OF n(1-3)] mem_read_def mem_write_def)
    next
      case (Some pa)
      from arp_resolve_ok [OF assms(1) r assms(3), of os pa "Some packet"] show ?thesis
        using True Some by (auto simp: ip_next_ha_def netif_dev_known [OF n(1-3)] mem_write_def)
    qed
  qed
qed

lemma ip_tx_netdev_safe:
  assumes "arp_good s" "netif_sane s i" "arp_rely wait"
  shows "tx_safe s (ip_tx_netdev os wait i packet hop s)"
  using ip_next_ha_safe [OF assms, of os packet hop]
proof (elim disjE exE conjE)
  fix r ha s'
  assume h: "ip_next_ha os wait i packet hop s = Inr (r, ha, s')" "arp_good s'" "same_net s s'" "6 \<le> length ha"
  have "netif_sane s' i" using netif_sane_cong [OF h(3)] assms(2) by simp
  then obtain n d dev where n: "net_ifs s' i = Some n" "if_dev n = Some d" "net_devs s' d = Some dev" "dev_ready s' d"
    by (rule netif_saneE)
  obtain r2 s2 where t: "netdev_tx os d 0x0800 (Some packet) (Some ha) s' = Inr (r2, s2)" "sends s' s2"
    using netdev_tx_ok [OF n(4) h(4), of os "0x0800" packet] by (auto simp: okr_iff)
  have "arp_good s2" "same_net s s2"
    using h(2,3) arp_good_sends [OF t(2)] sends_same_net [OF t(2)] same_net_trans by blast+
  then show ?thesis
    using h t(1) by (simp add: ip_tx_netdev_def netif_dev_known [OF n(1-3)])
qed (simp add: ip_tx_netdev_def tx_safe_def)

lemma ip_tx_loop_safe:
  assumes "arp_good s" "netif_sane s i" "arp_rely wait" "src = None \<or> src = Some i" "length buf - done \<le> fuel"
  shows "tx_safe s (ip_tx_loop fuel os wait (Some i) p buf src dst hop ident done s)"
  using assms
proof (induction fuel arbitrary: s "done")
  case (Suc fuel)
  obtain n d dev where n: "net_ifs s i = Some n" "if_dev n = Some d" "net_devs s d = Some dev"
    "20 < unat (nd_mtu dev)" "unat (nd_mtu dev) \<le> 4096" by (rule netif_saneE [OF Suc.prems(2)])
  define slen where "slen = min (length buf - done) (unat (nd_mtu dev) - 20)"
  define pl where "pl = take slen (drop done buf)"
  define off where "off = ip_frag_field done slen (length buf)"
  have l: "length pl \<le> 4076" using n(5) by (auto simp: pl_def slen_def)
  have core: "ip_tx_core os wait i p pl src dst hop ident off s =
      ip_tx_netdev os wait i (ip_packet (os_endian os) p (unicast n) dst ident off pl) hop s"
    using n(1) Suc.prems(4) l by (intro ip_tx_core_packet) auto
  show ?case
  proof (cases "done < length buf")
    case True
    have sl: "0 < slen" using True n(4) by (simp add: slen_def)
    have eq: "ip_tx_loop (Suc fuel) os wait (Some i) p buf src dst hop ident done s =
      bindr (ip_tx_core os wait i p pl src dst hop ident off s) (\<lambda>(r, s).
        if r = -1 then Inr (-1, s) else ip_tx_loop fuel os wait (Some i) p buf src dst hop ident (done + slen) s)"
      using True n(4) by (simp add: netif_dev_known [OF n(1-3)] mtu_room slen_def [symmetric] pl_def [symmetric] off_def [symmetric])
    show ?thesis
      unfolding eq core
    proof (rule tx_safe_bind [OF ip_tx_netdev_safe [OF Suc.prems(1-3)]])
      fix r s'
      assume g: "arp_good s'" "same_net s s'"
      have "netif_sane s' i" using netif_sane_cong [OF g(2)] Suc.prems(2) by simp
      moreover have "length buf - (done + slen) \<le> fuel" using Suc.prems(5) sl by linarith
      ultimately show "tx_safe s' (if r = -1 then Inr (-1, s')
          else ip_tx_loop fuel os wait (Some i) p buf src dst hop ident (done + slen) s')"
        using Suc.IH [OF g(1) _ Suc.prems(3,4)] g by simp
    qed
  qed (simp add: Suc.prems(1))
qed simp

lemma arp_good_next_id [simp]: "arp_good (s\<lparr>ip_next_id := n\<rparr>) = arp_good s"
  by (rule arp_good_cong) (simp_all add: same_net_def)

lemma ip_tx_ok:
  assumes "arp_good s" "netif_sane s i" "arp_rely wait"
  shows "tx_safe s (ip_tx os wait (Some i) p buf dst s)"
proof -
  let ?s = "s\<lparr>ip_next_id := ip_next_id s + 1\<rparr>"
  have n: "same_net s ?s" by (simp add: same_net_def)
  let ?src = "if dst = 0xffffffff then None else Some i" and ?hop = "if dst = 0xffffffff then None else Some dst"
  have "tx_safe ?s (ip_tx_loop (length buf) os wait (Some i) p buf ?src dst ?hop (ip_next_id s) 0 ?s)"
    using assms netif_sane_cong [OF n] by (intro ip_tx_loop_safe) auto
  then show ?thesis
    using same_net_trans [OF n] by (auto simp: ip_tx_def ip_generate_id_def tx_safe_def split: if_splits)
qed

text \<open>
  Property C16: \<open>ip_tx\<close> never faults, whatever the buffer, the destination and the answers of the
  operating system: it is waiting for an address or it returns, with the table of addresses in
  order and the devices and interfaces unchanged, as long as the interface belongs to an open device
  with an MTU above the header size and within the packet buffer and the other threads keep the
  table in order.
\<close>

theorem ip_tx_safe:
  assumes "arp_good s" "netif_sane s i" "arp_rely wait"
  shows "ip_tx os wait (Some i) p buf dst s = Inl Blocked \<or>
    (\<exists>r s'. ip_tx os wait (Some i) p buf dst s = Inr (r, s') \<and> arp_good s' \<and> same_net s s')"
  using ip_tx_ok [OF assms] by (simp add: tx_safe_def)

lemma arp_rely_none [simp]: "arp_rely (\<lambda>_. [])"
  by (simp add: arp_rely_def)

lemma ip_start_good: "arp_good (ip_start d dev i n None)"
  by (auto simp: arp_good_def arp_inv_def tbl_ok_def ip_start_def zero_entry_ok same_pa_def arp_live_def)
    (simp_all add: arp_entry_zero_def)

lemma ip_start_sane: "length addr = 6 \<Longrightarrow> netif_sane (ip_start d (plain_dev addr fd) i n peer) i"
  by (simp add: netif_sane_def netif_ready_def dev_ready_def dev_fd_def plain_dev_def)

theorem ip_tx_safe_witness:
  "let s = ip_start 3 (plain_dev [2, 0, 0, 0, 0, 1] 7) 4 (plain_netif 5) None
   in ip_tx (plain_os 0 60) (\<lambda>_. []) (Some 4) 6 [1, 2, 3] 6 s = Inl Blocked \<or>
      (\<exists>r s'. ip_tx (plain_os 0 60) (\<lambda>_. []) (Some 4) 6 [1, 2, 3] 6 s = Inr (r, s') \<and> arp_good s')"
proof -
  define s where "s = ip_start 3 (plain_dev [2, 0, 0, 0, 0, 1] 7) 4 (plain_netif 5) None"
  have "arp_good s" "netif_sane s 4" unfolding s_def by (rule ip_start_good, rule ip_start_sane) simp
  then show ?thesis
    unfolding Let_def s_def [symmetric] using arp_rely_none ip_tx_safe [of s 4 "\<lambda>_. []" "plain_os 0 60" 6 "[1, 2, 3]" 6] by blast
qed

end
