(* ===== verification/Tcphdr.thy ===== *)
theory Tcphdr
  imports Ip
begin

unbundle bit_operations_syntax

text \<open>
  The TCP header, its flags and its checksum (\<open>tcp.c\<close>). The fields of the header are kept as
  they lie in memory, in network byte order, like the struct of the source; the code converts them
  where it reads them.
\<close>

abbreviation (input) TCP_FLG_FIN :: u8 where "TCP_FLG_FIN \<equiv> 0x01"
abbreviation (input) TCP_FLG_SYN :: u8 where "TCP_FLG_SYN \<equiv> 0x02"
abbreviation (input) TCP_FLG_RST :: u8 where "TCP_FLG_RST \<equiv> 0x04"
abbreviation (input) TCP_FLG_PSH :: u8 where "TCP_FLG_PSH \<equiv> 0x08"
abbreviation (input) TCP_FLG_ACK :: u8 where "TCP_FLG_ACK \<equiv> 0x10"
abbreviation (input) TCP_FLG_URG :: u8 where "TCP_FLG_URG \<equiv> 0x20"

record tcp_hdr =
  th_src :: u16
  th_dst :: u16
  th_seq :: u32
  th_ack :: u32
  th_off :: u8
  th_flg :: u8
  th_win :: u16
  th_sum :: u16
  th_urg :: u16

definition enc_tcp_hdr :: "endian \<Rightarrow> tcp_hdr \<Rightarrow> bytes" where
  "enc_tcp_hdr e h =
     bytes16 e (th_src h) @ bytes16 e (th_dst h) @ bytes32 e (th_seq h) @ bytes32 e (th_ack h) @
     [th_off h, th_flg h] @ bytes16 e (th_win h) @ bytes16 e (th_sum h) @ bytes16 e (th_urg h)"

definition dec_tcp_hdr :: "endian \<Rightarrow> bytes \<Rightarrow> tcp_hdr" where
  "dec_tcp_hdr e bs =
     \<lparr>th_src = load16 e (bs ! 0) (bs ! 1), th_dst = load16 e (bs ! 2) (bs ! 3),
      th_seq = load32 e (bs ! 4) (bs ! 5) (bs ! 6) (bs ! 7),
      th_ack = load32 e (bs ! 8) (bs ! 9) (bs ! 10) (bs ! 11),
      th_off = bs ! 12, th_flg = bs ! 13, th_win = load16 e (bs ! 14) (bs ! 15),
      th_sum = load16 e (bs ! 16) (bs ! 17), th_urg = load16 e (bs ! 18) (bs ! 19)\<rparr>"

interpretation tcpf: wire_format "enc_tcp_hdr e" "dec_tcp_hdr e" 20 "\<lambda>_. True" for e
proof unfold_locales
  fix h
  show "length (enc_tcp_hdr e h) = 20" by (simp add: enc_tcp_hdr_def)
  obtain a1 a2 where a: "bytes16 e (th_src h) = [a1, a2]" "load16 e a1 a2 = th_src h" by (rule bytes16_cases)
  obtain b1 b2 where b: "bytes16 e (th_dst h) = [b1, b2]" "load16 e b1 b2 = th_dst h" by (rule bytes16_cases)
  obtain c1 c2 where c: "bytes16 e (th_win h) = [c1, c2]" "load16 e c1 c2 = th_win h" by (rule bytes16_cases)
  obtain d1 d2 where d: "bytes16 e (th_sum h) = [d1, d2]" "load16 e d1 d2 = th_sum h" by (rule bytes16_cases)
  obtain u1 u2 where u: "bytes16 e (th_urg h) = [u1, u2]" "load16 e u1 u2 = th_urg h" by (rule bytes16_cases)
  obtain s1 s2 s3 s4 where s: "bytes32 e (th_seq h) = [s1, s2, s3, s4]" "load32 e s1 s2 s3 s4 = th_seq h"
    by (rule bytes32_cases)
  obtain t1 t2 t3 t4 where t: "bytes32 e (th_ack h) = [t1, t2, t3, t4]" "load32 e t1 t2 t3 t4 = th_ack h"
    by (rule bytes32_cases)
  show "dec_tcp_hdr e (enc_tcp_hdr e h) = h"
    by (simp add: dec_tcp_hdr_def enc_tcp_hdr_def a b c d u s t)
next
  fix bs :: bytes assume "length bs = 20"
  then show "enc_tcp_hdr e (dec_tcp_hdr e bs) = bs"
    by (auto simp: numeral_eq_Suc length_Suc_conv enc_tcp_hdr_def dec_tcp_hdr_def bytes16_load16 bytes32_load32)
next
  fix bs rest :: bytes assume l: "20 \<le> length bs"
  then show "dec_tcp_hdr e (bs @ rest) = dec_tcp_hdr e bs"
    by (auto simp: dec_tcp_hdr_def nth_append)
qed simp

lemma length_enc_tcp [simp]: "length (enc_tcp_hdr e h) = 20"
  using tcpf.length_enc by simp

text \<open>The macros \<open>TCP_FLG_ISSET\<close>, \<open>TCP_HDR_LEN\<close> and \<open>TCP_DATA_LEN\<close> (for a \<open>size_t\<close> length).\<close>

definition TCP_FLG_ISSET :: "u8 \<Rightarrow> u8 \<Rightarrow> bool" where
  "TCP_FLG_ISSET x y \<longleftrightarrow> (x AND 0x3f) AND y \<noteq> 0"

definition TCP_HDR_LEN :: "tcp_hdr \<Rightarrow> nat" where
  "TCP_HDR_LEN hdr = 4 * unat (drop_bit 4 (th_off hdr))"

definition TCP_DATA_LEN :: "tcp_hdr \<Rightarrow> nat \<Rightarrow> nat" where
  "TCP_DATA_LEN hdr len = size_of_int (int len - int (TCP_HDR_LEN hdr))"

lemma data_len_ok: "TCP_HDR_LEN hdr \<le> len \<Longrightarrow> len < 2 ^ 64 \<Longrightarrow> TCP_DATA_LEN hdr len = len - TCP_HDR_LEN hdr"
  by (simp add: TCP_DATA_LEN_def nat_diff_distrib)

text \<open>Printing the flags into a buffer; the \<open>len\<close> argument of the source is not used.\<close>

definition tcp_flg_chars :: "u8 \<Rightarrow> string" where
  "tcp_flg_chars flg =
     (if TCP_FLG_ISSET flg TCP_FLG_FIN then ''F'' else []) @ (if TCP_FLG_ISSET flg TCP_FLG_SYN then ''S'' else []) @
     (if TCP_FLG_ISSET flg TCP_FLG_RST then ''R'' else []) @ (if TCP_FLG_ISSET flg TCP_FLG_PSH then ''P'' else []) @
     (if TCP_FLG_ISSET flg TCP_FLG_ACK then ''A'' else []) @ (if TCP_FLG_ISSET flg TCP_FLG_URG then ''U'' else [])"

definition tcp_flg_ntop :: "u8 \<Rightarrow> string \<Rightarrow> string res" where
  "tcp_flg_ntop flg buf = mem_write buf 0 (tcp_flg_chars flg @ [CHR 0x00])"

lemma tcp_flg_ntop_fits: "7 \<le> length buf \<Longrightarrow> \<exists>r. tcp_flg_ntop flg buf = Inr r"
  by (simp add: tcp_flg_ntop_def mem_write_def tcp_flg_chars_def)

section \<open>The checksum\<close>

text \<open>
  The pseudo header of the source. The fourth term is the low half of \<open>self\<close> again, where the
  low half of \<open>peer\<close> belongs.
\<close>

definition tcp_pseudo :: "endian \<Rightarrow> u32 \<Rightarrow> u32 \<Rightarrow> nat \<Rightarrow> u32" where
  "tcp_pseudo e self peer len =
     (drop_bit 16 self AND 0xffff) + (self AND 0xffff) + (drop_bit 16 peer AND 0xffff) + (self AND 0xffff) +
     ucast (hton16 e (ucast IP_PROTOCOL_TCP)) + ucast (hton16 e (of_nat len))"

definition tcp_checksum :: "endian \<Rightarrow> u32 \<Rightarrow> u32 \<Rightarrow> bytes \<Rightarrow> nat \<Rightarrow> u16 res" where
  "tcp_checksum e self peer segment len = cksum16 e segment (of_nat len) (tcp_pseudo e self peer len)"

lemma unat_and_ffff: "unat (x AND 0xffff :: u32) < 65536"
proof -
  have "x AND 0xffff = take_bit 16 x" by (simp add: take_bit_eq_mask mask_eq_exp_minus_1)
  then have "unat (x AND 0xffff) = take_bit 16 (unat x)" by (simp only: unsigned_take_bit_eq)
  then show ?thesis by (simp add: take_bit_eq_mod)
qed

lemma unat_plus_le: "unat (a + b :: u32) \<le> unat a + unat b"
  by (simp add: unat_word_ariths)

lemma tcp_pseudo_small: "unat (tcp_pseudo e self peer len) < 2 ^ 31"
proof -
  let ?p = "tcp_pseudo e self peer len"
  have "unat ?p \<le> unat (drop_bit 16 self AND 0xffff) + unat (self AND 0xffff) + unat (drop_bit 16 peer AND 0xffff) +
      unat (self AND 0xffff) + unat (ucast (hton16 e (ucast IP_PROTOCOL_TCP)) :: u32) + unat (ucast (hton16 e (of_nat len)) :: u32)"
    unfolding tcp_pseudo_def by (meson add_le_mono1 le_trans unat_plus_le)
  also have "\<dots> < 65536 + 65536 + 65536 + 65536 + 65536 + 65536"
    unfolding unat_ucast_up using unat_and_ffff unat_u16_less by (intro add_strict_mono) auto
  finally show ?thesis by simp
qed

text \<open>The value a sender stores for a segment whose checksum field is zero.\<close>

definition tcp_sum :: "endian \<Rightarrow> u32 \<Rightarrow> u32 \<Rightarrow> tcp_hdr \<Rightarrow> bytes \<Rightarrow> u16" where
  "tcp_sum e self peer hdr data =
     (case tcp_checksum e self peer (enc_tcp_hdr e hdr @ data) (20 + length data) of Inl _ \<Rightarrow> 0 | Inr c \<Rightarrow> c)"

lemma tcp_checksum_runs:
  assumes "len \<le> length segment"
  shows "\<exists>c. tcp_checksum e self peer segment len = Inr c"
proof -
  have "unat (of_nat len :: u16) \<le> len" by (simp add: unat_of_nat)
  then show ?thesis using assms by (simp add: tcp_checksum_def cksum16_def mem_read_def)
qed

lemma tcp_checksum_total:
  "tcp_checksum e self peer (enc_tcp_hdr e hdr @ data) (20 + length data) = Inr (tcp_sum e self peer hdr data)"
  using tcp_checksum_runs [of "20 + length data" "enc_tcp_hdr e hdr @ data" e self peer] by (auto simp: tcp_sum_def)

lemma enc_tcp_split:
  obtains pre rest where "length pre = 16" "length rest = 2"
    "\<And>c. enc_tcp_hdr e (h\<lparr>th_sum := c\<rparr>) = pre @ bytes16 e c @ rest"
proof
  let ?pre = "bytes16 e (th_src h) @ bytes16 e (th_dst h) @ bytes32 e (th_seq h) @ bytes32 e (th_ack h) @
     [th_off h, th_flg h] @ bytes16 e (th_win h)"
  show "length ?pre = 16" "length (bytes16 e (th_urg h)) = 2" by simp_all
  show "enc_tcp_hdr e (h\<lparr>th_sum := c\<rparr>) = ?pre @ bytes16 e c @ bytes16 e (th_urg h)" for c
    by (simp add: enc_tcp_hdr_def)
qed

lemma tcp_pseudo_peer: "drop_bit 16 peer' = drop_bit 16 peer \<Longrightarrow> tcp_pseudo e self peer' len = tcp_pseudo e self peer len"
  by (simp add: tcp_pseudo_def)

lemma tcp_checksum_accepted:
  assumes "th_sum hdr = 0" "20 + length data \<le> 65535" "drop_bit 16 peer' = drop_bit 16 peer"
  shows "tcp_checksum e self peer' (enc_tcp_hdr e (hdr\<lparr>th_sum := tcp_sum e self peer hdr data\<rparr>) @ data @ rest)
    (20 + length data) = Inr 0"
proof -
  let ?c = "tcp_sum e self peer hdr data" and ?i = "tcp_pseudo e self peer (20 + length data)"
  obtain pre q where l: "length pre = 16" "length q = 2"
    and enc: "\<And>c. enc_tcp_hdr e (hdr\<lparr>th_sum := c\<rparr>) = pre @ bytes16 e c @ q" by (rule enc_tcp_split [of e hdr]) blast
  have n: "unat (of_nat (20 + length data) :: u16) = length pre + 2 + length (q @ data)"
    using assms(2) l by (subst unat_of_nat_u16) simp_all
  have "hdr\<lparr>th_sum := 0\<rparr> = hdr" using assms(1) by simp
  then have h0: "enc_tcp_hdr e hdr = pre @ [0, 0] @ q" using enc [of 0] by (simp add: bytes16_0)
  have "cksum16 e (pre @ [0, 0] @ (q @ data) @ []) (of_nat (20 + length data)) ?i = Inr ?c"
    using tcp_checksum_total [of e self peer hdr] by (simp add: tcp_checksum_def h0)
  from cksum16_field [OF _ n tcp_pseudo_small this]
  have "cksum16 e (pre @ bytes16 e ?c @ (q @ data)) (of_nat (20 + length data)) ?i = Inr 0" using l by simp
  then have "cksum16 e ((pre @ bytes16 e ?c @ q @ data) @ rest) (of_nat (20 + length data)) ?i = Inr 0"
    using n by (subst cksum16_prefix) simp_all
  then show ?thesis by (simp add: tcp_checksum_def enc tcp_pseudo_peer [OF assms(3)])
qed

text \<open>
  Property C25: a segment that carries the checksum its sender computed is accepted by the
  receiver's check, whatever follows it in memory; but it is accepted just as well with any other
  destination address that has the same upper half, because the pseudo header leaves the lower half
  of the destination out.
\<close>

theorem tcp_checksum_weak_roundtrip:
  assumes "th_sum hdr = 0" "20 + length data \<le> 65535" "drop_bit 16 peer' = drop_bit 16 peer"
  shows "\<exists>c. tcp_checksum e self peer (enc_tcp_hdr e hdr @ data) (20 + length data) = Inr c \<and>
    tcp_checksum e self peer (enc_tcp_hdr e (hdr\<lparr>th_sum := c\<rparr>) @ data @ rest) (20 + length data) = Inr 0 \<and>
    tcp_checksum e self peer' (enc_tcp_hdr e (hdr\<lparr>th_sum := c\<rparr>) @ data @ rest) (20 + length data) = Inr 0"
  using tcp_checksum_total [of e self peer hdr] tcp_checksum_accepted [OF assms(1,2)] assms(3) by blast

theorem tcp_checksum_weak_roundtrip_witness:
  "let h = \<lparr>th_src = 1, th_dst = 2, th_seq = 3, th_ack = 4, th_off = 0x50, th_flg = 0x18, th_win = 5, th_sum = 0, th_urg = 0\<rparr>
   in \<exists>c. tcp_checksum Big 0xc0a8210d 0xc0a80001 (enc_tcp_hdr Big h @ [7, 8, 9]) 23 = Inr c \<and>
     tcp_checksum Big 0xc0a8210d 0xc0a80001 (enc_tcp_hdr Big (h\<lparr>th_sum := c\<rparr>) @ [7, 8, 9] @ [0]) 23 = Inr 0 \<and>
     tcp_checksum Big 0xc0a8210d 0xc0a8ffff (enc_tcp_hdr Big (h\<lparr>th_sum := c\<rparr>) @ [7, 8, 9] @ [0]) 23 = Inr 0"
proof -
  define h where "h = \<lparr>th_src = 1, th_dst = 2, th_seq = 3, th_ack = 4, th_off = 0x50, th_flg = 0x18, th_win = 5, th_sum = 0, th_urg = 0\<rparr>"
  have "th_sum h = 0" "20 + length [7, 8, 9 :: u8] \<le> 65535" "drop_bit 16 (0xc0a8ffff :: u32) = drop_bit 16 0xc0a80001"
    by (simp_all add: h_def)
  from tcp_checksum_weak_roundtrip [OF this, of Big "0xc0a8210d" "[0]"] show ?thesis
    unfolding Let_def h_def [symmetric] by simp
qed

end
