(* ===== verification/Tcpcb.thy ===== *)
theory Tcpcb
  imports Tcphdr Ipview
begin

unbundle bit_operations_syntax

text \<open>
  Control blocks, the queue of segments to be acknowledged and \<open>tcp_tx\<close> (\<open>tcp.c\<close>). A control
  block is named by its index in \<open>cb_table\<close>; the indices the program uses are below
  \<open>TCP_CB_TABLE_SIZE\<close>. A segment in the queue owns its memory, so a queue is the list of its
  entries, head first: \<open>tail\<close> is its last entry. The backlog is the list of the control blocks in
  it, which the queue of \<open>util.c\<close> implements (theory \<open>Pqueue\<close>). Signalling a condition variable
  changes no data.
\<close>

abbreviation (input) USER_TIMEOUT :: int where "USER_TIMEOUT \<equiv> 20"
abbreviation (input) TIME_WAIT_TIMEOUT :: int where "TIME_WAIT_TIMEOUT \<equiv> 20"
abbreviation (input) TCP_CB_TABLE_SIZE :: nat where "TCP_CB_TABLE_SIZE \<equiv> 128"
abbreviation (input) TCP_WINDOW_SIZE :: nat where "TCP_WINDOW_SIZE \<equiv> 65535"

type_synonym timeval = "int \<times> int"
type_synonym 's waits = "nat \<Rightarrow> (wait_ret \<times> ('s \<Rightarrow> 's)) list"

datatype tcp_state =
    CLOSED | LISTEN | SYN_SENT | SYN_RCVD | ESTABLISHED | FIN_WAIT1 | FIN_WAIT2 | CLOSING | TIME_WAIT
  | CLOSE_WAIT | LAST_ACK

definition tcp_state_ntop :: "tcp_state \<Rightarrow> string" where
  "tcp_state_ntop state =
     (case state of
        CLOSED \<Rightarrow> ''CLOSED'' | LISTEN \<Rightarrow> ''LISTEN'' | SYN_SENT \<Rightarrow> ''SYN_SENT'' | SYN_RCVD \<Rightarrow> ''SYN_RCVD''
      | ESTABLISHED \<Rightarrow> ''ESTABLISHED'' | FIN_WAIT1 \<Rightarrow> ''FIN_WAIT1'' | FIN_WAIT2 \<Rightarrow> ''FIN_WAIT2''
      | CLOSING \<Rightarrow> ''CLOSING'' | TIME_WAIT \<Rightarrow> ''TIME_WAIT'' | CLOSE_WAIT \<Rightarrow> ''CLOSE_WAIT'' | LAST_ACK \<Rightarrow> ''LAST_ACK'')"

lemma tcp_state_ntop_inject: "tcp_state_ntop a = tcp_state_ntop b \<longleftrightarrow> a = b"
  by (cases a; cases b) (simp_all add: tcp_state_ntop_def)

record tcp_txq_entry =
  tq_seg :: tcp_hdr
  tq_data :: bytes
  tq_len :: u16
  tq_time :: timeval

record tcp_cb =
  cb_used :: bool
  cb_state :: tcp_state
  cb_iface :: "nat option"
  cb_port :: u16
  peer_addr :: u32
  peer_port :: u16
  snd_nxt :: u32
  snd_una :: u32
  snd_up :: u16
  snd_wl1 :: u32
  snd_wl2 :: u32
  snd_wnd :: u16
  cb_iss :: u32
  rcv_nxt :: u32
  rcv_up :: u16
  rcv_wnd :: u16
  cb_irs :: u32
  cb_txq :: "tcp_txq_entry list"
  txq_snt :: u16
  cb_window :: bytes
  cb_parent :: "nat option"
  cb_backlog :: "nat list"
  cb_timeout :: int

record tcp = ip +
  cb_table :: "nat \<Rightarrow> tcp_cb"
  tcp_mutex :: bool

text \<open>Static storage: a control block before its first use.\<close>

definition tcp_cb_zero :: tcp_cb where
  "tcp_cb_zero =
     \<lparr>cb_used = False, cb_state = CLOSED, cb_iface = None, cb_port = 0, peer_addr = 0, peer_port = 0,
      snd_nxt = 0, snd_una = 0, snd_up = 0, snd_wl1 = 0, snd_wl2 = 0, snd_wnd = 0, cb_iss = 0,
      rcv_nxt = 0, rcv_up = 0, rcv_wnd = 0, cb_irs = 0, cb_txq = [], txq_snt = 0,
      cb_window = replicate TCP_WINDOW_SIZE 0, cb_parent = None, cb_backlog = [], cb_timeout = 0\<rparr>"

definition IS_FREE_CB :: "tcp_cb \<Rightarrow> bool" where
  "IS_FREE_CB cb \<longleftrightarrow> \<not> cb_used cb \<and> cb_state cb = CLOSED"

definition upd_cb :: "nat \<Rightarrow> (tcp_cb \<Rightarrow> tcp_cb) \<Rightarrow> 'a tcp_scheme \<Rightarrow> 'a tcp_scheme" where
  "upd_cb i f s = s\<lparr>cb_table := (cb_table s)(i := f (cb_table s i))\<rparr>"

lemma upd_cb_simps [simp]:
  "cb_table (upd_cb i f s) = (cb_table s)(i := f (cb_table s i))" "tcp_mutex (upd_cb i f s) = tcp_mutex s"
  "net_ifs (upd_cb i f s) = net_ifs s" "net_devs (upd_cb i f s) = net_devs s" "sys_tick (upd_cb i f s) = sys_tick s"
  "sys_sent (upd_cb i f s) = sys_sent s" "arp_tbl (upd_cb i f s) = arp_tbl s" "default_netif (upd_cb i f s) = default_netif s"
  "protocols (upd_cb i f s) = protocols s" "ip_next_id (upd_cb i f s) = ip_next_id s"
  by (simp_all add: upd_cb_def)

lemma upd_cb_same_net: "same_net s (upd_cb i f s)"
  by (simp add: same_net_def upd_cb_def)

section \<open>The queue of sent segments\<close>

definition tcp_txq_add ::
  "os \<Rightarrow> nat \<Rightarrow> tcp_hdr \<Rightarrow> bytes \<Rightarrow> 'a tcp_scheme \<Rightarrow> bool \<times> 'a tcp_scheme" where
  "tcp_txq_add os i hdr data s =
     (let (txq, s) = sys_malloc os s in
      if txq = None then (False, s)
      else (True, upd_cb i (\<lambda>cb. cb\<lparr>cb_txq := cb_txq cb @
             [\<lparr>tq_seg = hdr, tq_data = data, tq_len = of_nat (20 + length data), tq_time = (0, 0)\<rparr>]\<rparr>) s))"

definition tcp_txq_clear_all :: "nat \<Rightarrow> 'a tcp_scheme \<Rightarrow> 'a tcp_scheme" where
  "tcp_txq_clear_all i s = upd_cb i (\<lambda>cb. cb\<lparr>cb_txq := []\<rparr>) s"

text \<open>\<open>tcp_close_cb\<close> clears \<open>snd\<close>, \<open>rcv\<close> and the queue; \<open>txq.snt\<close> keeps its value.\<close>

definition closed_cb :: "tcp_cb \<Rightarrow> tcp_cb" where
  "closed_cb cb =
     cb\<lparr>cb_state := CLOSED, snd_nxt := 0, snd_una := 0, snd_up := 0, snd_wl1 := 0, snd_wl2 := 0, snd_wnd := 0,
        cb_iss := 0, rcv_nxt := 0, rcv_up := 0, rcv_wnd := 0, cb_irs := 0\<rparr>"

definition tcp_close_cb :: "nat \<Rightarrow> 'a tcp_scheme \<Rightarrow> 'a tcp_scheme" where
  "tcp_close_cb i s = tcp_txq_clear_all i (upd_cb i closed_cb s)"

definition upd_last :: "('b \<Rightarrow> 'b) \<Rightarrow> 'b list \<Rightarrow> 'b list" where
  "upd_last f xs = (if xs = [] then [] else butlast xs @ [f (last xs)])"

lemma upd_last_snoc [simp]: "upd_last f (xs @ [x]) = xs @ [f x]"
  by (simp add: upd_last_def)

section \<open>Sending a segment\<close>

definition tcp_tx_hdr :: "endian \<Rightarrow> tcp_cb \<Rightarrow> u32 \<Rightarrow> u32 \<Rightarrow> u8 \<Rightarrow> tcp_hdr" where
  "tcp_tx_hdr e cb seq ack flg =
     \<lparr>th_src = cb_port cb, th_dst = peer_port cb, th_seq = hton32 e seq, th_ack = hton32 e ack,
      th_off = push_bit 4 (drop_bit 2 20), th_flg = flg, th_win = hton16 e (rcv_wnd cb), th_sum = 0, th_urg = 0\<rparr>"

text \<open>
  Checksum and transmission; \<open>queued\<close> says that the segment is the last entry of the queue, so
  that what is stored in its header shows there.
\<close>

definition tcp_tx_send ::
  "os \<Rightarrow> 'a tcp_scheme waits \<Rightarrow> nat \<Rightarrow> bool \<Rightarrow> timeval \<Rightarrow> tcp_hdr \<Rightarrow> bytes \<Rightarrow> 'a tcp_scheme \<Rightarrow>
     (int \<times> 'a tcp_scheme) res" where
  "tcp_tx_send os wait i queued now hdr buf s =
     (let e = os_endian os; cb = cb_table s i in
      case cb_iface cb of
        None \<Rightarrow> Inl NullDeref
      | Some n \<Rightarrow>
          bindr (deref (net_ifs s) n) (\<lambda>iface.
          bindr (tcp_checksum e (unicast iface) (peer_addr cb) (enc_tcp_hdr e hdr @ buf) (20 + length buf)) (\<lambda>sum.
          let hdr = hdr\<lparr>th_sum := sum\<rparr>;
              s = (if queued then upd_cb i (\<lambda>cb. cb\<lparr>cb_txq := upd_last (\<lambda>en. en\<lparr>tq_seg := hdr\<rparr>) (cb_txq cb)\<rparr>) s else s) in
          bindr (ip_tx os wait (Some n) IP_PROTOCOL_TCP (enc_tcp_hdr e hdr @ buf) (peer_addr cb) s) (\<lambda>(r, s).
          if r = -1 then Inr (-1, s)
          else Inr (int (length buf),
                    if queued
                    then upd_cb i (\<lambda>cb. cb\<lparr>cb_txq := upd_last (\<lambda>en. en\<lparr>tq_time := now\<rparr>) (cb_txq cb),
                                           txq_snt := txq_snt cb + of_nat (length buf)\<rparr>) s
                    else s)))))"

definition txq_unsent :: "tcp_cb \<Rightarrow> bool" where
  "txq_unsent cb \<longleftrightarrow> cb_txq cb \<noteq> [] \<and> fst (tq_time (last (cb_txq cb))) = 0"

definition tcp_tx ::
  "os \<Rightarrow> 'a tcp_scheme waits \<Rightarrow> nat \<Rightarrow> u32 \<Rightarrow> u32 \<Rightarrow> u8 \<Rightarrow> timeval \<Rightarrow> bytes \<Rightarrow> 'a tcp_scheme \<Rightarrow>
     (int \<times> 'a tcp_scheme) res" where
  "tcp_tx os wait i seq ack flg now buf s =
     (let (segment, s) = sys_malloc os s in
      if segment = None then Inr (-1, s) else
      let cb = cb_table s i;
          hdr = tcp_tx_hdr (os_endian os) cb seq ack flg;
          queued = (buf \<noteq> [] \<or> flg AND (TCP_FLG_SYN OR TCP_FLG_FIN) \<noteq> 0) in
      if queued then
        let (ok, s) = tcp_txq_add os i hdr buf s in
        if \<not> ok then Inr (-1, s)
        else if txq_unsent cb \<or>
                (\<not> TCP_FLG_ISSET flg TCP_FLG_SYN \<and> unat (txq_snt cb) + length buf > unat (snd_wnd cb))
        then Inr (0, s)
        else tcp_tx_send os wait i True now hdr buf s
      else tcp_tx_send os wait i False now hdr buf s)"

section \<open>What sending leaves alone\<close>

text \<open>The part of the state that belongs to TCP; the threads that hold up a transmission lack the mutex.\<close>

definition tcp_view :: "'a tcp_scheme \<Rightarrow> (nat \<Rightarrow> tcp_cb) \<times> bool" where
  "tcp_view s = (cb_table s, tcp_mutex s)"

interpretation tv: ip_view tcp_view
  by unfold_locales (simp_all add: tcp_view_def)

lemma tcp_view_eq: "tcp_view s' = tcp_view s \<longleftrightarrow> cb_table s' = cb_table s \<and> tcp_mutex s' = tcp_mutex s"
  by (auto simp: tcp_view_def)

text \<open>
  The effect of \<open>tcp_tx\<close> on the control blocks: at most the segment is appended to the queue of its
  own block, and the count of sent bytes changes with it.
\<close>

definition tx_effect :: "endian \<Rightarrow> nat \<Rightarrow> u32 \<Rightarrow> u32 \<Rightarrow> u8 \<Rightarrow> bytes \<Rightarrow> 'a tcp_scheme \<Rightarrow> 'a tcp_scheme \<Rightarrow> bool" where
  "tx_effect e i seq ack flg buf s s' \<longleftrightarrow>
     tcp_mutex s' = tcp_mutex s \<and>
     (cb_table s' = cb_table s \<or>
      (buf \<noteq> [] \<or> flg AND (TCP_FLG_SYN OR TCP_FLG_FIN) \<noteq> 0) \<and>
      (\<exists>sum time snt. cb_table s' = (cb_table s)(i := (cb_table s i)\<lparr>
         cb_txq := cb_txq (cb_table s i) @
           [\<lparr>tq_seg = (tcp_tx_hdr e (cb_table s i) seq ack flg)\<lparr>th_sum := sum\<rparr>, tq_data = buf,
             tq_len = of_nat (20 + length buf), tq_time = time\<rparr>],
         txq_snt := snt\<rparr>)))"

lemma tcp_tx_send_plain:
  assumes "wait_keeps tcp_view wait"
  shows "postr (tcp_tx_send os wait i False now hdr buf s) (\<lambda>(r, s'). tcp_view s' = tcp_view s)"
  unfolding tcp_tx_send_def Let_def
  by (auto intro!: postr_bindI split: option.splits dest!: tv.ip_tx_view [OF assms])

lemma tcp_tx_send_queued:
  assumes "wait_keeps tcp_view wait" "cb_txq (cb_table s i) = q @ [en]"
  shows "postr (tcp_tx_send os wait i True now hdr buf s) (\<lambda>(r, s'). tcp_mutex s' = tcp_mutex s \<and>
    (\<exists>sum time snt. cb_table s' = (cb_table s)(i := (cb_table s i)\<lparr>
       cb_txq := q @ [en\<lparr>tq_seg := hdr\<lparr>th_sum := sum\<rparr>, tq_time := time\<rparr>], txq_snt := snt\<rparr>)))"
proof -
  have "\<exists>sum time snt. (cb_table s)(i := (cb_table s i)\<lparr>cb_txq := q @ [en\<lparr>tq_seg := hdr\<lparr>th_sum := c\<rparr>\<rparr>]\<rparr>) =
     (cb_table s)(i := (cb_table s i)\<lparr>cb_txq := q @ [en\<lparr>tq_seg := hdr\<lparr>th_sum := sum\<rparr>, tq_time := time\<rparr>], txq_snt := snt\<rparr>)" for c
    by (rule exI [of _ c], rule exI [of _ "tq_time en"], rule exI [of _ "txq_snt (cb_table s i)"]) simp
  moreover have "\<exists>sum time snt. (cb_table s)(i := (cb_table s i)\<lparr>cb_txq := q @ [en\<lparr>tq_seg := hdr\<lparr>th_sum := c\<rparr>, tq_time := now\<rparr>],
       txq_snt := k\<rparr>) =
     (cb_table s)(i := (cb_table s i)\<lparr>cb_txq := q @ [en\<lparr>tq_seg := hdr\<lparr>th_sum := sum\<rparr>, tq_time := time\<rparr>], txq_snt := snt\<rparr>)" for c k
    by blast
  ultimately show ?thesis
    unfolding tcp_tx_send_def Let_def
    by (auto simp: tcp_view_eq assms(2) intro!: postr_bindI split: option.splits dest!: tv.ip_tx_view [OF assms(1)])
qed

text \<open>The two states \<open>tcp_tx\<close> can start its transmission from.\<close>

definition tx_ticked :: "nat \<Rightarrow> 'a tcp_scheme \<Rightarrow> 'a tcp_scheme" where
  "tx_ticked k s = s\<lparr>sys_tick := sys_tick s + k\<rparr>"

definition tx_queued :: "nat \<Rightarrow> tcp_hdr \<Rightarrow> bytes \<Rightarrow> 'a tcp_scheme \<Rightarrow> 'a tcp_scheme" where
  "tx_queued i hdr buf s =
     upd_cb i (\<lambda>cb. cb\<lparr>cb_txq := cb_txq cb @
       [\<lparr>tq_seg = hdr, tq_data = buf, tq_len = of_nat (20 + length buf), tq_time = (0, 0)\<rparr>]\<rparr>) (tx_ticked 2 s)"

definition tx_held :: "tcp_cb \<Rightarrow> u8 \<Rightarrow> bytes \<Rightarrow> bool" where
  "tx_held cb flg buf \<longleftrightarrow> txq_unsent cb \<or>
     (\<not> TCP_FLG_ISSET flg TCP_FLG_SYN \<and> unat (txq_snt cb) + length buf > unat (snd_wnd cb))"

definition tx_queues :: "u8 \<Rightarrow> bytes \<Rightarrow> bool" where
  "tx_queues flg buf \<longleftrightarrow> buf \<noteq> [] \<or> flg AND (TCP_FLG_SYN OR TCP_FLG_FIN) \<noteq> 0"

lemma tx_ticked_simps [simp]:
  "cb_table (tx_ticked k s) = cb_table s" "tcp_mutex (tx_ticked k s) = tcp_mutex s" "net_ifs (tx_ticked k s) = net_ifs s"
  "net_devs (tx_ticked k s) = net_devs s" "arp_tbl (tx_ticked k s) = arp_tbl s" "sys_sent (tx_ticked k s) = sys_sent s"
  "sys_tick (tx_ticked k s) = sys_tick s + k" "ip_next_id (tx_ticked k s) = ip_next_id s"
  by (simp_all add: tx_ticked_def)

lemma tcp_tx_eq:
  "tcp_tx os wait i seq ack flg now buf s =
     (let cb = cb_table s i; hdr = tcp_tx_hdr (os_endian os) cb seq ack flg in
      if \<not> os_malloc os (sys_tick s) then Inr (-1, tx_ticked 1 s)
      else if \<not> tx_queues flg buf then tcp_tx_send os wait i False now hdr buf (tx_ticked 1 s)
      else if \<not> os_malloc os (Suc (sys_tick s)) then Inr (-1, tx_ticked 2 s)
      else if tx_held cb flg buf then Inr (0, tx_queued i hdr buf s)
      else tcp_tx_send os wait i True now hdr buf (tx_queued i hdr buf s))"
  by (simp add: tcp_tx_def sys_malloc_def tcp_txq_add_def Let_def tx_ticked_def tx_queued_def tx_held_def tx_queues_def
      del: of_nat_add)

lemma tcp_tx_effect:
  assumes "wait_keeps tcp_view wait"
  shows "postr (tcp_tx os wait i seq ack flg now buf s) (\<lambda>(r, s'). tx_effect (os_endian os) i seq ack flg buf s s')"
proof -
  let ?hdr = "tcp_tx_hdr (os_endian os) (cb_table s i) seq ack flg"
  define s2 where "s2 = tx_queued i ?hdr buf s"
  let ?en = "\<lparr>tq_seg = ?hdr, tq_data = buf, tq_len = of_nat (20 + length buf), tq_time = (0, 0)\<rparr>"
  have t2: "cb_table s2 = (cb_table s)(i := (cb_table s i)\<lparr>cb_txq := cb_txq (cb_table s i) @ [?en]\<rparr>)"
    "tcp_mutex s2 = tcp_mutex s" by (simp_all add: s2_def tx_queued_def)
  have e2: "tx_effect (os_endian os) i seq ack flg buf s s2" if "tx_queues flg buf"
    unfolding tx_effect_def t2
    by (intro conjI refl disjI2 that [unfolded tx_queues_def] exI [of _ 0] exI [of _ "(0, 0)"]
        exI [of _ "txq_snt (cb_table s i)"]) (simp add: tcp_tx_hdr_def)
  have "postr (tcp_tx_send os wait i True now ?hdr buf s2) (\<lambda>(r, s'). tx_effect (os_endian os) i seq ack flg buf s s')"
    if "tx_queues flg buf"
    using that by (intro postr_mono [OF tcp_tx_send_queued [OF assms, of s2 i "cb_txq (cb_table s i)" ?en]])
      (auto simp: t2 tx_effect_def tx_queues_def)
  moreover have "postr (tcp_tx_send os wait i False now ?hdr buf (tx_ticked 1 s))
      (\<lambda>(r, s'). tx_effect (os_endian os) i seq ack flg buf s s')"
    by (intro postr_mono [OF tcp_tx_send_plain [OF assms]]) (auto simp: tcp_view_eq tx_effect_def)
  moreover have "tx_effect (os_endian os) i seq ack flg buf s (tx_ticked k s)" for k
    by (simp add: tx_effect_def)
  ultimately show ?thesis
    using e2 by (simp add: tcp_tx_eq Let_def s2_def [symmetric])
qed

text \<open>A segment without data, SYN or FIN leaves all control blocks as they are.\<close>

lemma tcp_tx_control:
  assumes "wait_keeps tcp_view wait" "flg AND (TCP_FLG_SYN OR TCP_FLG_FIN) = 0"
    and "tcp_tx os wait i seq ack flg now [] s = Inr (r, s')"
  shows "cb_table s' = cb_table s \<and> tcp_mutex s' = tcp_mutex s"
  using postrD [OF tcp_tx_effect [OF assms(1)] assms(3)] assms(2) by (simp add: tx_effect_def)

section \<open>Sending is safe\<close>

lemma arp_good_upd_cb [simp]: "arp_good (upd_cb i f s) = arp_good s"
  by (rule arp_good_cong) (simp_all add: upd_cb_same_net)

lemma same_net_upd_cb [simp]: "same_net s (upd_cb i f t) = same_net s t"
  by (simp add: same_net_def upd_cb_def)

lemma arp_good_ticked [simp]: "arp_good (tx_ticked k s) = arp_good s"
  by (simp add: tx_ticked_def)

lemma same_net_ticked [simp]: "same_net s (tx_ticked k t) = same_net s t"
  by (simp add: same_net_def tx_ticked_def)

lemma tcp_tx_send_ok:
  assumes "arp_good s" "cb_iface (cb_table s i) = Some n" "netif_sane s n" "arp_rely wait"
  shows "tx_safe s (tcp_tx_send os wait i queued now hdr buf s)"
proof -
  let ?e = "os_endian os" and ?peer = "peer_addr (cb_table s i)"
  obtain iface where n: "net_ifs s n = Some iface" by (rule netif_saneE [OF assms(3)])
  define h where "h = hdr\<lparr>th_sum := tcp_sum ?e (unicast iface) ?peer hdr buf\<rparr>"
  define s1 where "s1 = (if queued then upd_cb i (\<lambda>cb. cb\<lparr>cb_txq := upd_last (\<lambda>en. en\<lparr>tq_seg := h\<rparr>) (cb_txq cb)\<rparr>) s else s)"
  have s1: "arp_good s1" "same_net s s1" using assms(1) by (simp_all add: s1_def)
  then have "netif_sane s1 n" using netif_sane_cong [OF s1(2)] assms(3) by simp
  then have tx: "tx_safe s1 (ip_tx os wait (Some n) 6 (enc_tcp_hdr ?e h @ buf) ?peer s1)"
    using ip_tx_ok [OF s1(1) _ assms(4)] by blast
  have eq: "tcp_tx_send os wait i queued now hdr buf s =
      bindr (ip_tx os wait (Some n) 6 (enc_tcp_hdr ?e h @ buf) ?peer s1) (\<lambda>(r, s).
          if r = -1 then Inr (-1, s)
          else Inr (int (length buf),
                    if queued
                    then upd_cb i (\<lambda>cb. cb\<lparr>cb_txq := upd_last (\<lambda>en. en\<lparr>tq_time := now\<rparr>) (cb_txq cb),
                                           txq_snt := txq_snt cb + of_nat (length buf)\<rparr>) s
                    else s))"
    using n assms(2) tcp_checksum_total [of ?e "unicast iface" ?peer hdr]
    by (simp add: tcp_tx_send_def Let_def h_def s1_def)
  show ?thesis
    unfolding eq by (rule tx_safe_trans [OF s1(2)], rule tx_safe_bind [OF tx]) simp
qed

lemma tcp_tx_ok:
  assumes "arp_good s" "cb_iface (cb_table s i) = Some n" "netif_sane s n" "arp_rely wait"
  shows "tx_safe s (tcp_tx os wait i seq ack flg now buf s)"
proof -
  let ?hdr = "tcp_tx_hdr (os_endian os) (cb_table s i) seq ack flg"
  have q: "arp_good (tx_queued i ?hdr buf s)" "same_net s (tx_queued i ?hdr buf s)"
    "cb_iface (cb_table (tx_queued i ?hdr buf s) i) = Some n"
    using assms(1,2) by (simp_all add: tx_queued_def)
  have t: "arp_good (tx_ticked k s)" "same_net s (tx_ticked k s)" "cb_iface (cb_table (tx_ticked k s) i) = Some n" for k
    using assms(1,2) by simp_all
  have a: "tx_safe (tx_queued i ?hdr buf s) (tcp_tx_send os wait i True now ?hdr buf (tx_queued i ?hdr buf s))"
    using q assms(3,4) netif_sane_cong [OF q(2)] by (intro tcp_tx_send_ok) auto
  have b: "tx_safe (tx_ticked 1 s) (tcp_tx_send os wait i False now ?hdr buf (tx_ticked 1 s))"
    using t assms(3,4) netif_sane_cong [OF t(2)] by (intro tcp_tx_send_ok) auto
  show ?thesis
    using tx_safe_trans [OF q(2) a] tx_safe_trans [OF t(2) b] q t by (simp add: tcp_tx_eq Let_def)
qed

section \<open>A segment on the wire\<close>

text \<open>
  The interface \<open>n\<close> with address \<open>self\<close> reaches \<open>peer\<close>: its device is open, has the hardware
  address \<open>addr\<close> and writes to \<open>fd\<close>, and the peer's hardware address \<open>ha\<close> is known.
\<close>

definition reaches :: "'a arp_scheme \<Rightarrow> nat \<Rightarrow> u32 \<Rightarrow> u32 \<Rightarrow> bytes \<Rightarrow> bytes \<Rightarrow> int \<Rightarrow> bool" where
  "reaches s n peer self ha addr fd \<longleftrightarrow>
     peer \<noteq> 0xffffffff \<and>
     (\<exists>ni d dev. net_ifs s n = Some ni \<and> unicast ni = self \<and> if_dev ni = Some d \<and> net_devs s d = Some dev \<and>
        dev_open s d addr fd \<and> hop_known s dev (Some peer) ha \<and> unat (nd_mtu dev) = 1500)"

lemma reaches_cong: "same_net s s' \<Longrightarrow> arp_tbl s' = arp_tbl s \<Longrightarrow> reaches s' n peer self ha addr fd = reaches s n peer self ha addr fd"
  using ready_cong(3) [of s s' _ addr fd] by (simp add: reaches_def same_net_def hop_known_def)

definition tcp_frame :: "endian \<Rightarrow> bytes \<Rightarrow> bytes \<Rightarrow> u32 \<Rightarrow> u32 \<Rightarrow> u16 \<Rightarrow> bytes \<Rightarrow> bytes" where
  "tcp_frame e ha addr self peer ident segment =
     eth_frame ha addr 0x0800 (ip_packet e IP_PROTOCOL_TCP self peer ident 0 segment)"

lemma ip_tx_one:
  assumes "reaches s n peer self ha addr fd" "0 < length buf" "length buf \<le> 1480"
  shows "\<exists>r s' ret. ip_tx os wait (Some n) 6 buf peer s = Inr (r, s') \<and> (r = int (length buf) \<or> r = -1) \<and>
    sends (s\<lparr>ip_next_id := ip_next_id s + 1\<rparr>) s' \<and>
    sys_sent s' = sys_sent s @ [(fd, tcp_frame (os_endian os) ha addr self peer (ip_next_id s) buf, ret)]"
proof -
  obtain ni d dev where n: "net_ifs s n = Some ni" "unicast ni = self" "if_dev ni = Some d" "net_devs s d = Some dev"
    "dev_open s d addr fd" "hop_known s dev (Some peer) ha" "unat (nd_mtu dev) = 1500" "peer \<noteq> 0xffffffff"
    using assms(1) by (auto simp: reaches_def)
  have p: "ip_pieces 1480 buf 0 = [(0, buf)]"
    using assms(2,3) by (auto simp: ip_pieces.simps [of _ _ 0] ip_pieces.simps [of _ _ "length buf"]
        ip_frag_field_def min_def)
  obtain r s' log where t: "ip_tx os wait (Some n) 6 buf peer s = Inr (r, s')"
    "sends (s\<lparr>ip_next_id := ip_next_id s + 1\<rparr>) s'" "sys_sent s' = sys_sent s @ log"
    "tx_log fd (ip_frames (os_endian os) ha addr 6 (unicast ni) peer (ip_next_id s) [(0, buf)]) log (int (length buf)) r"
    using ip_tx_known [OF n(1,3,4,5), of peer ha os wait 6 buf] n(6,7,8) p by auto
  then obtain k where k: "k \<le> 1" "map (\<lambda>(a, b, c). (a, b)) log =
      map (Pair fd) (take k [tcp_frame (os_endian os) ha addr self peer (ip_next_id s) buf])"
    "r = int (length buf) \<and> k = 1 \<or> r = -1 \<and> 0 < k"
    by (auto simp: tx_log_def ip_frames_def tcp_frame_def n(2))
  then have "k = 1" by auto
  then obtain ret where "log = [(fd, tcp_frame (os_endian os) ha addr self peer (ip_next_id s) buf, ret)]"
    using k(2) by auto
  then show ?thesis using t(1-3) k(3) by auto
qed

text \<open>A host on which TCP has just been started, for concrete runs.\<close>

definition tcp_start :: "nat \<Rightarrow> netdev \<Rightarrow> nat \<Rightarrow> netif_ip \<Rightarrow> (ip_addr_t \<times> bytes) option \<Rightarrow> (nat \<Rightarrow> tcp_cb) \<Rightarrow> tcp" where
  "tcp_start d dev i n peer tbl = ip.extend (ip_start d dev i n peer) \<lparr>cb_table = tbl, tcp_mutex = False\<rparr>"

lemma tcp_start_simps [simp]:
  "cb_table (tcp_start d dev i n peer tbl) = tbl" "tcp_mutex (tcp_start d dev i n peer tbl) = False"
  "net_ifs (tcp_start d dev i n peer tbl) = [i \<mapsto> n\<lparr>if_dev := Some d\<rparr>]"
  "net_devs (tcp_start d dev i n peer tbl) = [d \<mapsto> dev\<lparr>nd_ifs := [i]\<rparr>]"
  "sys_tick (tcp_start d dev i n peer tbl) = 0" "sys_sent (tcp_start d dev i n peer tbl) = []"
  "protocols (tcp_start d dev i n peer tbl) = [\<lparr>ipp_type = 6, ipp_handler = tcp_rx_handler\<rparr>]"
  "protos (tcp_start d dev i n peer tbl) = [\<lparr>np_type = 0x0800, np_handler = ip_rx_handler\<rparr>]"
  "default_netif (tcp_start d dev i n peer tbl) = Some i" "ip_next_id (tcp_start d dev i n peer tbl) = 128"
  "arp_tbl (tcp_start d dev i n peer tbl) = arp_tbl (ip_start d dev i n peer)"
  by (simp_all add: tcp_start_def ip.defs ip_start_def)

lemma tcp_start_reaches:
  assumes "length addr = 6" "length ha = 6" "ha \<noteq> ETHERNET_ADDR_ANY" "peer \<noteq> 0xffffffff"
  shows "reaches (tcp_start d (plain_dev addr fd) i n (Some (peer, ha)) tbl) i peer (unicast n) ha addr fd"
proof -
  let ?s = "tcp_start d (plain_dev addr fd) i n (Some (peer, ha)) tbl"
  have "dev_open ?s d addr fd" by (rule dev_open_plain [where ifs = "[i]"]) (simp_all add: assms(1))
  moreover have "hop_known ?s (plain_dev addr fd\<lparr>nd_ifs := [i]\<rparr>) (Some peer) ha"
    using ip_start_hop [OF assms(2,3), where pa = peer and d = d and dev = "plain_dev addr fd" and i = i and n = n and addr = addr
        and fd = fd and ifs = "[i]"]
    by (simp add: hop_known_def)
  ultimately show ?thesis using assms(4) by (auto simp: reaches_def plain_dev_def)
qed

lemma tcp_start_good: "arp_good (tcp_start d dev i n None tbl)"
  by (auto simp: arp_good_def arp_inv_def tbl_ok_def ip_start_def zero_entry_ok same_pa_def arp_live_def)
    (simp_all add: arp_entry_zero_def)

lemma tcp_start_sane: "length addr = 6 \<Longrightarrow> netif_sane (tcp_start d (plain_dev addr fd) i n peer tbl) i"
  by (simp add: netif_sane_def netif_ready_def dev_ready_def dev_fd_def plain_dev_def)

end
