(* ===== verification/Tcpseg.thy ===== *)
theory Tcpseg
  imports Tcpcb
begin

unbundle bit_operations_syntax

text \<open>
  The arrival of a segment: \<open>tcp_event_segment_arrives\<close> and \<open>tcp_rx\<close> of \<open>tcp.c\<close>. The handler is
  written stage by stage, in the order of its numbered comments; a stage that can end the handler
  returns whether the next one runs.
\<close>

section \<open>The stages\<close>

text \<open>A call of \<open>tcp_tx\<close> without data whose result is not looked at.\<close>

definition tcp_reply ::
  "os \<Rightarrow> 'a tcp_scheme waits \<Rightarrow> nat \<Rightarrow> u32 \<Rightarrow> u32 \<Rightarrow> u8 \<Rightarrow> timeval \<Rightarrow> 'a tcp_scheme \<Rightarrow> 'a tcp_scheme res" where
  "tcp_reply os wait i seq ack flg now s =
     bindr (tcp_tx os wait i seq ack flg now [] s) (\<lambda>(_, s). Inr s)"

definition tcp_seg_closed ::
  "os \<Rightarrow> 'a tcp_scheme waits \<Rightarrow> nat \<Rightarrow> tcp_hdr \<Rightarrow> nat \<Rightarrow> timeval \<Rightarrow> 'a tcp_scheme \<Rightarrow> 'a tcp_scheme res" where
  "tcp_seg_closed os wait i hdr plen now s =
     (let e = os_endian os in
      if \<not> TCP_FLG_ISSET (th_flg hdr) TCP_FLG_RST then
        if TCP_FLG_ISSET (th_flg hdr) TCP_FLG_ACK
        then tcp_reply os wait i (ntoh32 e (th_ack hdr)) 0 TCP_FLG_RST now s
        else tcp_reply os wait i 0 (ntoh32 e (th_seq hdr) + of_nat plen) (TCP_FLG_RST OR TCP_FLG_ACK) now s
      else Inr s)"

definition tcp_listen_drop :: "nat \<Rightarrow> 'a tcp_scheme \<Rightarrow> 'a tcp_scheme" where
  "tcp_listen_drop i s = upd_cb i (\<lambda>cb. cb\<lparr>cb_parent := None\<rparr>) (tcp_close_cb i s)"

definition tcp_listen_syn ::
  "os \<Rightarrow> 'a tcp_scheme waits \<Rightarrow> nat \<Rightarrow> tcp_hdr \<Rightarrow> timeval \<Rightarrow> 'a tcp_scheme \<Rightarrow> 'a tcp_scheme res" where
  "tcp_listen_syn os wait i hdr now s =
     (let seq = ntoh32 (os_endian os) (th_seq hdr);
          (iss, s) = sys_random os s;
          s = upd_cb i (\<lambda>cb. cb\<lparr>rcv_wnd := of_nat TCP_WINDOW_SIZE, rcv_nxt := seq + 1, cb_irs := seq, cb_iss := iss\<rparr>) s
      in bindr (tcp_reply os wait i iss (seq + 1) (TCP_FLG_SYN OR TCP_FLG_ACK) now s) (\<lambda>s.
         Inr (upd_cb i (\<lambda>cb. cb\<lparr>snd_nxt := cb_iss cb + 1, snd_una := cb_iss cb,
                cb_timeout := fst now + USER_TIMEOUT, cb_state := SYN_RCVD\<rparr>) s)))"

definition tcp_seg_listen ::
  "os \<Rightarrow> 'a tcp_scheme waits \<Rightarrow> nat \<Rightarrow> tcp_hdr \<Rightarrow> timeval \<Rightarrow> 'a tcp_scheme \<Rightarrow> (bool \<times> 'a tcp_scheme) res" where
  "tcp_seg_listen os wait i hdr now s =
     (if TCP_FLG_ISSET (th_flg hdr) TCP_FLG_RST then Inr (False, tcp_listen_drop i s)
      else if TCP_FLG_ISSET (th_flg hdr) TCP_FLG_ACK then
        bindr (tcp_reply os wait i (ntoh32 (os_endian os) (th_ack hdr)) 0 TCP_FLG_RST now s) (\<lambda>s.
        Inr (False, tcp_listen_drop i s))
      else if TCP_FLG_ISSET (th_flg hdr) TCP_FLG_SYN then
        bindr (tcp_listen_syn os wait i hdr now s) (\<lambda>s. Inr (True, s))
      else Inr (False, tcp_listen_drop i s))"

text \<open>In SYN_SENT: the tests of the ACK field and of RST, then SYN.\<close>

definition tcp_syn_sent_syn ::
  "os \<Rightarrow> 'a tcp_scheme waits \<Rightarrow> nat \<Rightarrow> tcp_hdr \<Rightarrow> nat \<Rightarrow> timeval \<Rightarrow> 'a tcp_scheme \<Rightarrow> (bool \<times> 'a tcp_scheme) res" where
  "tcp_syn_sent_syn os wait i hdr plen now s =
     (let e = os_endian os; seq = ntoh32 e (th_seq hdr); ack = ntoh32 e (th_ack hdr);
          s = upd_cb i (\<lambda>cb. cb\<lparr>rcv_nxt := seq + 1, cb_irs := seq\<rparr>) s;
          s = (if snd_una (cb_table s i) < ack
               then upd_cb i (\<lambda>cb. cb\<lparr>snd_una := ack, cb_timeout := fst now + USER_TIMEOUT\<rparr>) s else s) in
      if snd_una (cb_table s i) > cb_iss (cb_table s i) then
        let s = upd_cb i (\<lambda>cb. cb\<lparr>cb_state := ESTABLISHED\<rparr>) s in
        bindr (tcp_reply os wait i (snd_nxt (cb_table s i)) (rcv_nxt (cb_table s i)) TCP_FLG_ACK now s) (\<lambda>s.
        Inr (plen > 0 \<or> TCP_FLG_ISSET (th_flg hdr) TCP_FLG_URG, s))
      else
        let s = upd_cb i (\<lambda>cb. cb\<lparr>cb_state := SYN_RCVD\<rparr>) s in
        bindr (tcp_reply os wait i (cb_iss (cb_table s i)) (rcv_nxt (cb_table s i)) (TCP_FLG_SYN OR TCP_FLG_ACK) now s)
          (\<lambda>s. Inr (False, s)))"

definition tcp_seg_syn_sent ::
  "os \<Rightarrow> 'a tcp_scheme waits \<Rightarrow> nat \<Rightarrow> tcp_hdr \<Rightarrow> nat \<Rightarrow> timeval \<Rightarrow> 'a tcp_scheme \<Rightarrow> (bool \<times> 'a tcp_scheme) res" where
  "tcp_seg_syn_sent os wait i hdr plen now s =
     (let ack = ntoh32 (os_endian os) (th_ack hdr); cb = cb_table s i;
          has_ack = TCP_FLG_ISSET (th_flg hdr) TCP_FLG_ACK in
      if has_ack \<and> (ack \<le> cb_iss cb \<or> ack > snd_nxt cb) then
        bindr (tcp_reply os wait i ack 0 TCP_FLG_RST now s) (\<lambda>s. Inr (False, s))
      else if has_ack \<and> \<not> (snd_una cb \<le> ack \<and> ack \<le> snd_nxt cb) then Inr (False, s)
      else if TCP_FLG_ISSET (th_flg hdr) TCP_FLG_RST then
        Inr (False, if has_ack then tcp_close_cb i s else s)
      else if TCP_FLG_ISSET (th_flg hdr) TCP_FLG_SYN then tcp_syn_sent_syn os wait i hdr plen now s
      else Inr (False, s))"

text \<open>
  First: the sequence number. Sums of 32-bit words wrap at 32 bits; the sum with the \<open>size_t\<close>
  length is taken in 64 bits.
\<close>

definition tcp_acceptable :: "endian \<Rightarrow> tcp_cb \<Rightarrow> tcp_hdr \<Rightarrow> nat \<Rightarrow> bool" where
  "tcp_acceptable e cb hdr plen =
     (let seq = ntoh32 e (th_seq hdr); upper = rcv_nxt cb + ucast (rcv_wnd cb) in
      if plen > 0 then
        rcv_wnd cb > 0 \<and>
        (rcv_nxt cb \<le> seq \<and> seq < upper \<or>
         rcv_nxt cb \<le> seq \<and> (unat seq + plen - 1) mod 2 ^ 64 < unat upper)
      else if rcv_wnd cb > 0 then rcv_nxt cb \<le> seq \<and> seq < upper
      else seq = rcv_nxt cb)"

text \<open>First to fourth: sequence number, RST, SYN.\<close>

definition tcp_seg_check ::
  "os \<Rightarrow> 'a tcp_scheme waits \<Rightarrow> nat \<Rightarrow> tcp_hdr \<Rightarrow> nat \<Rightarrow> timeval \<Rightarrow> 'a tcp_scheme \<Rightarrow> (bool \<times> 'a tcp_scheme) res" where
  "tcp_seg_check os wait i hdr plen now s =
     (let cb = cb_table s i in
      if \<not> tcp_acceptable (os_endian os) cb hdr plen then
        if \<not> TCP_FLG_ISSET (th_flg hdr) TCP_FLG_RST
        then bindr (tcp_reply os wait i (snd_nxt cb) (rcv_nxt cb) TCP_FLG_ACK now s) (\<lambda>s. Inr (False, s))
        else Inr (False, s)
      else if cb_state cb \<notin> {CLOSED, LISTEN, SYN_SENT} \<and> TCP_FLG_ISSET (th_flg hdr) TCP_FLG_RST then
        Inr (False, tcp_close_cb i s)
      else if TCP_FLG_ISSET (th_flg hdr) TCP_FLG_SYN then
        bindr (tcp_reply os wait i 0 (rcv_nxt cb) TCP_FLG_RST now s) (\<lambda>s. Inr (False, tcp_close_cb i s))
      else Inr (True, s))"

text \<open>Fifth: the ACK field. A connection made by a listener is queued in its backlog.\<close>

definition tcp_seg_established :: "os \<Rightarrow> nat \<Rightarrow> 'a tcp_scheme \<Rightarrow> 'a tcp_scheme" where
  "tcp_seg_established os i s =
     (let s = upd_cb i (\<lambda>cb. cb\<lparr>cb_state := ESTABLISHED\<rparr>) s in
      case cb_parent (cb_table s i) of
        None \<Rightarrow> s
      | Some p \<Rightarrow>
          let (entry, s) = sys_malloc os s in
          if entry = None then s else upd_cb p (\<lambda>cb. cb\<lparr>cb_backlog := cb_backlog cb @ [i]\<rparr>) s)"

definition ack_update :: "u32 \<Rightarrow> u32 \<Rightarrow> u16 \<Rightarrow> timeval \<Rightarrow> tcp_cb \<Rightarrow> tcp_cb" where
  "ack_update seq ack win now cb =
     (let cb = (if snd_una cb < ack then cb\<lparr>snd_una := ack, cb_timeout := fst now + USER_TIMEOUT\<rparr> else cb)
      in if snd_wl1 cb < seq \<or> (snd_wl1 cb = seq \<and> snd_wl2 cb \<le> ack)
         then cb\<lparr>snd_wnd := win, snd_wl1 := seq, snd_wl2 := ack\<rparr> else cb)"

definition ack_of_fin :: "u32 \<Rightarrow> tcp_cb \<Rightarrow> tcp_cb" where
  "ack_of_fin ack cb =
     (if cb_state cb = FIN_WAIT1 \<and> ack + 1 = snd_nxt cb then cb\<lparr>cb_state := FIN_WAIT2\<rparr>
      else if cb_state cb = CLOSING \<and> ack + 1 = snd_nxt cb then cb\<lparr>cb_state := TIME_WAIT\<rparr>
      else cb)"

definition tcp_seg_ack_open ::
  "os \<Rightarrow> 'a tcp_scheme waits \<Rightarrow> nat \<Rightarrow> tcp_hdr \<Rightarrow> timeval \<Rightarrow> 'a tcp_scheme \<Rightarrow> (bool \<times> 'a tcp_scheme) res" where
  "tcp_seg_ack_open os wait i hdr now s =
     (let e = os_endian os; seq = ntoh32 e (th_seq hdr); ack = ntoh32 e (th_ack hdr); cb = cb_table s i in
      if snd_una cb \<le> ack \<and> ack \<le> snd_nxt cb then
        Inr (True, upd_cb i (\<lambda>cb. ack_of_fin ack (ack_update seq ack (ntoh16 e (th_win hdr)) now cb)) s)
      else if ack > snd_nxt cb then
        bindr (tcp_reply os wait i (snd_nxt cb) (rcv_nxt cb) TCP_FLG_ACK now s) (\<lambda>s. Inr (False, s))
      else Inr (True, upd_cb i (ack_of_fin ack) s))"

definition tcp_seg_ack ::
  "os \<Rightarrow> 'a tcp_scheme waits \<Rightarrow> nat \<Rightarrow> tcp_hdr \<Rightarrow> timeval \<Rightarrow> 'a tcp_scheme \<Rightarrow> (bool \<times> 'a tcp_scheme) res" where
  "tcp_seg_ack os wait i hdr now s =
     (let ack = ntoh32 (os_endian os) (th_ack hdr); cb = cb_table s i in
      if \<not> TCP_FLG_ISSET (th_flg hdr) TCP_FLG_ACK then Inr (True, s) else
      case cb_state cb of
        SYN_RCVD \<Rightarrow>
          if \<not> (snd_una cb \<le> ack \<and> ack \<le> snd_nxt cb)
          then bindr (tcp_reply os wait i ack (rcv_nxt cb) TCP_FLG_RST now s) (\<lambda>s. Inr (True, s))
          else tcp_seg_ack_open os wait i hdr now (tcp_seg_established os i s)
      | ESTABLISHED \<Rightarrow> tcp_seg_ack_open os wait i hdr now s
      | FIN_WAIT1 \<Rightarrow> tcp_seg_ack_open os wait i hdr now s
      | FIN_WAIT2 \<Rightarrow> tcp_seg_ack_open os wait i hdr now s
      | CLOSE_WAIT \<Rightarrow> tcp_seg_ack_open os wait i hdr now s
      | CLOSING \<Rightarrow> tcp_seg_ack_open os wait i hdr now s
      | LAST_ACK \<Rightarrow> Inr (if ack = snd_nxt cb then (False, tcp_close_cb i s) else (True, s))
      | _ \<Rightarrow> Inr (True, s))"

text \<open>Sixth: the urgent pointer.\<close>

definition tcp_seg_urg :: "endian \<Rightarrow> nat \<Rightarrow> tcp_hdr \<Rightarrow> 'a tcp_scheme \<Rightarrow> 'a tcp_scheme" where
  "tcp_seg_urg e i hdr s =
     (if TCP_FLG_ISSET (th_flg hdr) TCP_FLG_URG \<and> cb_state (cb_table s i) \<in> {ESTABLISHED, FIN_WAIT1, FIN_WAIT2}
      then upd_cb i (\<lambda>cb. cb\<lparr>rcv_up := max (rcv_up cb) (ntoh16 e (th_urg hdr))\<rparr>) s else s)"

text \<open>Seventh: the text, copied to the free end of the window buffer.\<close>

definition tcp_seg_text ::
  "os \<Rightarrow> 'a tcp_scheme waits \<Rightarrow> nat \<Rightarrow> tcp_hdr \<Rightarrow> bytes \<Rightarrow> nat \<Rightarrow> timeval \<Rightarrow> 'a tcp_scheme \<Rightarrow> 'a tcp_scheme res" where
  "tcp_seg_text os wait i hdr segment plen now s =
     (let seq = ntoh32 (os_endian os) (th_seq hdr); cb = cb_table s i in
      if cb_state cb \<notin> {ESTABLISHED, FIN_WAIT1, FIN_WAIT2} then Inr s
      else if plen > 0 \<and> rcv_nxt cb = seq then
        bindr (mem_read segment (TCP_HDR_LEN hdr) plen) (\<lambda>text.
        bindr (mem_write (cb_window cb) (TCP_WINDOW_SIZE - unat (rcv_wnd cb)) text) (\<lambda>window.
        tcp_reply os wait i (snd_nxt cb) (seq + of_nat plen) TCP_FLG_ACK now
          (upd_cb i (\<lambda>cb. cb\<lparr>cb_window := window, rcv_nxt := seq + of_nat plen,
             rcv_wnd := rcv_wnd cb - of_nat plen\<rparr>) s)))
      else if TCP_FLG_ISSET (th_flg hdr) TCP_FLG_PSH then
        tcp_reply os wait i (snd_nxt cb) (rcv_nxt cb) TCP_FLG_ACK now s
      else Inr s)"

text \<open>Eighth: FIN.\<close>

definition fin_state :: "timeval \<Rightarrow> tcp_cb \<Rightarrow> tcp_cb" where
  "fin_state now cb =
     (case cb_state cb of
        SYN_RCVD \<Rightarrow> cb\<lparr>cb_state := CLOSE_WAIT\<rparr>
      | ESTABLISHED \<Rightarrow> cb\<lparr>cb_state := CLOSE_WAIT\<rparr>
      | FIN_WAIT1 \<Rightarrow> cb\<lparr>cb_state := CLOSING\<rparr>
      | FIN_WAIT2 \<Rightarrow> cb\<lparr>cb_state := TIME_WAIT, cb_timeout := fst now + TIME_WAIT_TIMEOUT\<rparr>
      | TIME_WAIT \<Rightarrow> cb\<lparr>cb_timeout := fst now + TIME_WAIT_TIMEOUT\<rparr>
      | _ \<Rightarrow> cb)"

definition tcp_seg_fin ::
  "os \<Rightarrow> 'a tcp_scheme waits \<Rightarrow> nat \<Rightarrow> tcp_hdr \<Rightarrow> timeval \<Rightarrow> 'a tcp_scheme \<Rightarrow> 'a tcp_scheme res" where
  "tcp_seg_fin os wait i hdr now s =
     (let seq = ntoh32 (os_endian os) (th_seq hdr) in
      if TCP_FLG_ISSET (th_flg hdr) TCP_FLG_FIN then
        let s = upd_cb i (\<lambda>cb. cb\<lparr>rcv_nxt := seq + 1\<rparr>) s in
        bindr (tcp_reply os wait i (snd_nxt (cb_table s i)) (seq + 1) TCP_FLG_ACK now s) (\<lambda>s.
        Inr (upd_cb i (fin_state now) s))
      else Inr s)"

section \<open>The handler\<close>

definition tcp_seg_data ::
  "os \<Rightarrow> 'a tcp_scheme waits \<Rightarrow> nat \<Rightarrow> tcp_hdr \<Rightarrow> bytes \<Rightarrow> nat \<Rightarrow> timeval \<Rightarrow> 'a tcp_scheme \<Rightarrow> 'a tcp_scheme res" where
  "tcp_seg_data os wait i hdr segment plen now s =
     bindr (tcp_seg_text os wait i hdr segment plen now (tcp_seg_urg (os_endian os) i hdr s)) (\<lambda>s.
     tcp_seg_fin os wait i hdr now s)"

definition tcp_seg_open ::
  "os \<Rightarrow> 'a tcp_scheme waits \<Rightarrow> nat \<Rightarrow> tcp_hdr \<Rightarrow> nat \<Rightarrow> timeval \<Rightarrow> 'a tcp_scheme \<Rightarrow> (bool \<times> 'a tcp_scheme) res" where
  "tcp_seg_open os wait i hdr plen now s =
     bindr (tcp_seg_check os wait i hdr plen now s) (\<lambda>(go, s).
     if go then tcp_seg_ack os wait i hdr now s else Inr (False, s))"

definition tcp_event_segment_arrives ::
  "os \<Rightarrow> 'a tcp_scheme waits \<Rightarrow> nat \<Rightarrow> tcp_hdr \<Rightarrow> bytes \<Rightarrow> nat \<Rightarrow> 'a tcp_scheme \<Rightarrow> 'a tcp_scheme res" where
  "tcp_event_segment_arrives os wait i hdr segment len s =
     (let plen = TCP_DATA_LEN hdr len; (now, s) = sys_timeofday os s in
      case now of
        None \<Rightarrow> Inr s
      | Some now \<Rightarrow>
          if cb_state (cb_table s i) = CLOSED then tcp_seg_closed os wait i hdr plen now s
          else
            bindr (case cb_state (cb_table s i) of
                     LISTEN \<Rightarrow> tcp_seg_listen os wait i hdr now s
                   | SYN_SENT \<Rightarrow> tcp_seg_syn_sent os wait i hdr plen now s
                   | _ \<Rightarrow> tcp_seg_open os wait i hdr plen now s)
              (\<lambda>(go, s). if go then tcp_seg_data os wait i hdr segment plen now s else Inr s))"

section \<open>Receiving\<close>

text \<open>
  The mutex: taking it while it is held waits. The loop over the table stops at the control block of
  the connection; on its way it notes the first free block and the first listener for the port.
\<close>

definition tcp_lock :: "'a tcp_scheme \<Rightarrow> 'a tcp_scheme res" where
  "tcp_lock s = (if tcp_mutex s then Inl Blocked else Inr (s\<lparr>tcp_mutex := True\<rparr>))"

definition tcp_unlock :: "'a tcp_scheme \<Rightarrow> 'a tcp_scheme" where
  "tcp_unlock s = s\<lparr>tcp_mutex := False\<rparr>"

definition cb_for_port :: "nat \<Rightarrow> u16 \<Rightarrow> tcp_cb \<Rightarrow> bool" where
  "cb_for_port iface port cb \<longleftrightarrow>
     \<not> IS_FREE_CB cb \<and> (cb_iface cb = None \<or> cb_iface cb = Some iface) \<and> cb_port cb = port"

definition cb_for_peer :: "u32 \<Rightarrow> u16 \<Rightarrow> tcp_cb \<Rightarrow> bool" where
  "cb_for_peer addr port cb \<longleftrightarrow> peer_addr cb = addr \<and> peer_port cb = port"

fun tcp_rx_scan ::
  "(nat \<Rightarrow> tcp_cb) \<Rightarrow> nat \<Rightarrow> u32 \<Rightarrow> tcp_hdr \<Rightarrow> nat list \<Rightarrow> nat option \<Rightarrow> nat option \<Rightarrow>
     nat option \<times> nat option \<times> nat option" where
  "tcp_rx_scan tbl iface src hdr [] fcb lcb = (None, fcb, lcb)"
| "tcp_rx_scan tbl iface src hdr (i # is) fcb lcb =
     (let cb = tbl i in
      if IS_FREE_CB cb then tcp_rx_scan tbl iface src hdr is (if fcb = None then Some i else fcb) lcb
      else if cb_for_port iface (th_dst hdr) cb then
        if cb_for_peer src (th_src hdr) cb then (Some i, fcb, lcb)
        else if cb_state cb = LISTEN \<and> lcb = None then tcp_rx_scan tbl iface src hdr is fcb (Some i)
        else tcp_rx_scan tbl iface src hdr is fcb lcb
      else tcp_rx_scan tbl iface src hdr is fcb lcb)"

text \<open>A free block prepared for a segment that belongs to no connection.\<close>

definition tcp_rx_new ::
  "nat \<Rightarrow> nat \<Rightarrow> nat option \<Rightarrow> u32 \<Rightarrow> u16 \<Rightarrow> 'a tcp_scheme \<Rightarrow> 'a tcp_scheme" where
  "tcp_rx_new i iface lcb src sport s =
     upd_cb i (\<lambda>cb.
       (case lcb of
          Some l \<Rightarrow> cb\<lparr>cb_state := cb_state (cb_table s l), cb_port := cb_port (cb_table s l), cb_parent := Some l\<rparr>
        | None \<Rightarrow> cb\<lparr>cb_port := 0\<rparr>)
       \<lparr>cb_iface := Some iface, peer_addr := src, peer_port := sport\<rparr>) s"

definition tcp_rx ::
  "os \<Rightarrow> 'a tcp_scheme waits \<Rightarrow> bytes \<Rightarrow> nat \<Rightarrow> u32 \<Rightarrow> u32 \<Rightarrow> nat \<Rightarrow> 'a tcp_scheme \<Rightarrow> 'a tcp_scheme res" where
  "tcp_rx os wait segment len src dst iface s =
     bindr (deref (net_ifs s) iface) (\<lambda>n.
     if dst \<noteq> unicast n then Inr s
     else if len < 20 then Inr s
     else
       bindr (tcp_checksum (os_endian os) src dst segment len) (\<lambda>sum.
       if sum \<noteq> 0 then Inr s else
       bindr (mem_read segment 0 20) (\<lambda>h.
       let hdr = dec_tcp_hdr (os_endian os) h in
       bindr (tcp_lock s) (\<lambda>s.
       case tcp_rx_scan (cb_table s) iface src hdr [0..<TCP_CB_TABLE_SIZE] None None of
         (Some i, _, _) \<Rightarrow>
           bindr (tcp_event_segment_arrives os wait i hdr segment len s) (\<lambda>s. Inr (tcp_unlock s))
       | (None, None, _) \<Rightarrow> Inr (tcp_unlock s)
       | (None, Some i, lcb) \<Rightarrow>
           bindr (tcp_event_segment_arrives os wait i hdr segment len (tcp_rx_new i iface lcb src (th_src hdr) s))
             (\<lambda>s. Inr (tcp_unlock s))))))"

text \<open>The handler registered with IP.\<close>

definition ip_call ::
  "os \<Rightarrow> 'a tcp_scheme waits \<Rightarrow> ip_handler \<Rightarrow> bytes \<Rightarrow> nat \<Rightarrow> u32 \<Rightarrow> u32 \<Rightarrow> nat \<Rightarrow> 'a tcp_scheme \<Rightarrow> 'a tcp_scheme res" where
  "ip_call os wait h payload plen src dst iface s =
     (case h of tcp_rx_handler \<Rightarrow> tcp_rx os wait payload plen src dst iface s)"

section \<open>Finding the control block\<close>

definition scan_hit :: "(nat \<Rightarrow> tcp_cb) \<Rightarrow> nat \<Rightarrow> u32 \<Rightarrow> tcp_hdr \<Rightarrow> nat \<Rightarrow> bool" where
  "scan_hit tbl iface src hdr i \<longleftrightarrow> cb_for_port iface (th_dst hdr) (tbl i) \<and> cb_for_peer src (th_src hdr) (tbl i)"

lemma scan_found: "fst (tcp_rx_scan tbl iface src hdr is fcb lcb) = find (scan_hit tbl iface src hdr) is"
  by (induction "is" arbitrary: fcb lcb) (auto simp: Let_def scan_hit_def cb_for_port_def)

lemma scan_missed:
  assumes "find (scan_hit tbl iface src hdr) is = None"
  shows "tcp_rx_scan tbl iface src hdr is fcb lcb =
    (None, if fcb = None then find (\<lambda>i. IS_FREE_CB (tbl i)) is else fcb,
     if lcb = None then find (\<lambda>i. cb_for_port iface (th_dst hdr) (tbl i) \<and> cb_state (tbl i) = LISTEN) is else lcb)"
  using assms
  by (induction "is" arbitrary: fcb lcb)
    (auto simp: Let_def scan_hit_def cb_for_port_def split: if_splits)

end
