(* ===== verification/Tcpmoves.thy ===== *)
theory Tcpmoves
  imports Tcpseg
begin

unbundle bit_operations_syntax

text \<open>
  The state diagram of a connection as a step relation, and the proof that the arrival of a segment
  moves a control block along its edges, keeps the block well formed and leaves every other block
  alone but for a backlog.
\<close>

section \<open>The diagram\<close>

inductive tcp_moves :: "tcp_state \<Rightarrow> tcp_state \<Rightarrow> bool" where
  reset: "st \<noteq> CLOSED \<Longrightarrow> tcp_moves st CLOSED"
| passive_syn: "tcp_moves LISTEN SYN_RCVD"
| syn_acked: "tcp_moves SYN_SENT ESTABLISHED"
| simultaneous_syn: "tcp_moves SYN_SENT SYN_RCVD"
| ack_of_syn: "tcp_moves SYN_RCVD ESTABLISHED"
| fin_early: "tcp_moves SYN_RCVD CLOSE_WAIT"
| fin_open: "tcp_moves ESTABLISHED CLOSE_WAIT"
| ack_own_fin: "tcp_moves FIN_WAIT1 FIN_WAIT2"
| fin_simultaneous: "tcp_moves FIN_WAIT1 CLOSING"
| fin_last: "tcp_moves FIN_WAIT2 TIME_WAIT"
| ack_closing: "tcp_moves CLOSING TIME_WAIT"

inductive_cases moves_from_closed: "tcp_moves CLOSED st"
inductive_cases moves_to_last_ack: "tcp_moves st LAST_ACK"
inductive_cases moves_to_listen: "tcp_moves st LISTEN"
inductive_cases moves_to_syn_sent: "tcp_moves st SYN_SENT"
inductive_cases moves_to_fin_wait1: "tcp_moves st FIN_WAIT1"

lemma moves_closed: "tcp_moves\<^sup>*\<^sup>* CLOSED st \<Longrightarrow> st = CLOSED"
  by (induction rule: rtranclp_induct) (auto elim: moves_from_closed)

text \<open>No segment brings a block into these states; only calls of the user can.\<close>

lemma moves_never:
  assumes "tcp_moves\<^sup>*\<^sup>* st st'" "st' \<in> {LAST_ACK, LISTEN, SYN_SENT, FIN_WAIT1}"
  shows "st = st'"
  using assms
  by (induction rule: rtranclp_induct)
    (auto elim: moves_to_last_ack moves_to_listen moves_to_syn_sent moves_to_fin_wait1)

section \<open>Well-formed control blocks\<close>

definition txq_entry_ok :: "tcp_txq_entry \<Rightarrow> bool" where
  "txq_entry_ok en \<longleftrightarrow>
     tq_len en = of_nat (20 + length (tq_data en)) \<and> th_off (tq_seg en) = 0x50"

text \<open>The states before the first acknowledgement; the send window is zero in them.\<close>

definition early :: "tcp_state \<Rightarrow> bool" where
  "early st \<longleftrightarrow> st \<in> {CLOSED, LISTEN, SYN_SENT, SYN_RCVD}"

lemma early_simps [simp]:
  "early CLOSED" "early LISTEN" "early SYN_SENT" "early SYN_RCVD" "\<not> early ESTABLISHED" "\<not> early FIN_WAIT1" "\<not> early FIN_WAIT2"
  "\<not> early CLOSING" "\<not> early TIME_WAIT" "\<not> early CLOSE_WAIT" "\<not> early LAST_ACK"
  by (simp_all add: early_def)

definition cb_ok :: "tcp_cb \<Rightarrow> bool" where
  "cb_ok cb \<longleftrightarrow> length (cb_window cb) = TCP_WINDOW_SIZE \<and> (\<forall>en \<in> set (cb_txq cb). txq_entry_ok en) \<and>
     (early (cb_state cb) \<longrightarrow> snd_wnd cb = 0)"

lemma tcp_tx_hdr_off [simp]: "th_off (tcp_tx_hdr e cb seq ack flg) = 0x50"
  by (simp add: tcp_tx_hdr_def)

text \<open>What a step on behalf of block \<open>i\<close> may do to another block: queue \<open>i\<close> in its backlog.\<close>

definition other_rel :: "nat \<Rightarrow> tcp_cb \<Rightarrow> tcp_cb \<Rightarrow> bool" where
  "other_rel i cb cb' \<longleftrightarrow> (\<exists>b. set b \<subseteq> insert i (set (cb_backlog cb)) \<and> cb' = cb\<lparr>cb_backlog := b\<rparr>)"

lemma other_rel_refl [simp]: "other_rel i cb cb"
  unfolding other_rel_def by (rule exI [of _ "cb_backlog cb"]) auto

lemma other_relI: "set b \<subseteq> insert i (set (cb_backlog cb)) \<Longrightarrow> cb' = cb\<lparr>cb_backlog := b\<rparr> \<Longrightarrow> other_rel i cb cb'"
  unfolding other_rel_def by blast

lemma other_rel_trans:
  assumes "other_rel i x y" "other_rel i y z"
  shows "other_rel i x z"
proof -
  obtain b where b: "set b \<subseteq> insert i (set (cb_backlog x))" "y = x\<lparr>cb_backlog := b\<rparr>"
    using assms(1) unfolding other_rel_def by blast
  obtain c where c: "set c \<subseteq> insert i (set (cb_backlog y))" "z = y\<lparr>cb_backlog := c\<rparr>"
    using assms(2) unfolding other_rel_def by blast
  show ?thesis by (rule other_relI [of c]) (use b c in auto)
qed

lemma other_relD:
  assumes "other_rel i cb cb'"
  shows "cb_ok cb' = cb_ok cb" "cb_state cb' = cb_state cb" "cb_used cb' = cb_used cb" "cb_port cb' = cb_port cb"
    "set (cb_backlog cb') \<subseteq> insert i (set (cb_backlog cb))"
  using assms by (auto simp: other_rel_def cb_ok_def)

text \<open>What it may do to the table.\<close>

definition seg_rel :: "nat \<Rightarrow> 'a tcp_scheme \<Rightarrow> 'a tcp_scheme \<Rightarrow> bool" where
  "seg_rel i s s' \<longleftrightarrow>
     tcp_mutex s' = tcp_mutex s \<and>
     (\<forall>j. j \<noteq> i \<longrightarrow> other_rel i (cb_table s j) (cb_table s' j)) \<and>
     set (cb_backlog (cb_table s' i)) \<subseteq> insert i (set (cb_backlog (cb_table s i))) \<and>
     cb_used (cb_table s' i) = cb_used (cb_table s i) \<and>
     tcp_moves\<^sup>*\<^sup>* (cb_state (cb_table s i)) (cb_state (cb_table s' i)) \<and>
     (cb_ok (cb_table s i) \<longrightarrow> cb_ok (cb_table s' i))"

lemma seg_rel_refl [simp]: "seg_rel i s s"
  by (auto simp: seg_rel_def)

lemma seg_rel_trans [trans]:
  assumes "seg_rel i s s'" "seg_rel i s' s''"
  shows "seg_rel i s s''"
proof -
  have "other_rel i (cb_table s j) (cb_table s'' j)" if "j \<noteq> i" for j
    using assms that other_rel_trans unfolding seg_rel_def by blast
  moreover have "tcp_moves\<^sup>*\<^sup>* (cb_state (cb_table s i)) (cb_state (cb_table s'' i))"
    using assms unfolding seg_rel_def by (blast intro: rtranclp_trans)
  moreover have "set (cb_backlog (cb_table s'' i)) \<subseteq> insert i (set (cb_backlog (cb_table s i)))"
    using assms unfolding seg_rel_def by blast
  ultimately show ?thesis using assms unfolding seg_rel_def by simp
qed

lemma seg_rel_table:
  assumes "cb_table t = cb_table s" "tcp_mutex t = tcp_mutex s"
  shows "seg_rel i s t" "seg_rel i t u = seg_rel i s u" "seg_rel i u t = seg_rel i u s"
  unfolding seg_rel_def assms by auto

lemma seg_rel_upd:
  assumes "cb_used (f (cb_table s i)) = cb_used (cb_table s i)"
    and "tcp_moves\<^sup>*\<^sup>* (cb_state (cb_table s i)) (cb_state (f (cb_table s i)))"
    and "cb_ok (cb_table s i) \<Longrightarrow> cb_ok (f (cb_table s i))" "cb_backlog (f (cb_table s i)) = cb_backlog (cb_table s i)"
  shows "seg_rel i s (upd_cb i f s)"
  using assms by (auto simp: seg_rel_def)

lemma seg_rel_queue:
  assumes "txq_entry_ok en" "tcp_mutex s' = tcp_mutex s"
    and t: "cb_table s' = (cb_table s)(i := (cb_table s i)\<lparr>cb_txq := cb_txq (cb_table s i) @ [en], txq_snt := snt\<rparr>)"
  shows "seg_rel i s s'"
proof -
  have "other_rel i (cb_table s j) (cb_table s' j)" if "j \<noteq> i" for j
    using that by (simp add: t)
  moreover have "set (cb_backlog (cb_table s' i)) \<subseteq> insert i (set (cb_backlog (cb_table s i)))" by (auto simp: t)
  moreover have "cb_ok (cb_table s i) \<Longrightarrow> cb_ok (cb_table s' i)"
    using assms(1) by (simp add: t cb_ok_def)
  moreover have "cb_state (cb_table s' i) = cb_state (cb_table s i)" "cb_used (cb_table s' i) = cb_used (cb_table s i)"
    by (simp_all add: t)
  ultimately show ?thesis using assms(2) unfolding seg_rel_def by (intro conjI allI impI) simp_all
qed

lemma seg_rel_tx:
  assumes "tx_effect e i seq ack flg buf s s'"
  shows "seg_rel i s s'"
proof (cases "cb_table s' = cb_table s")
  case True
  then show ?thesis using assms by (intro seg_rel_table(1)) (simp_all add: tx_effect_def)
next
  case False
  then obtain sum time snt where t: "tcp_mutex s' = tcp_mutex s" "cb_table s' = (cb_table s)(i := (cb_table s i)\<lparr>
         cb_txq := cb_txq (cb_table s i) @
           [\<lparr>tq_seg = (tcp_tx_hdr e (cb_table s i) seq ack flg)\<lparr>th_sum := sum\<rparr>, tq_data = buf,
             tq_len = of_nat (20 + length buf), tq_time = time\<rparr>],
         txq_snt := snt\<rparr>)"
    using assms False unfolding tx_effect_def by blast
  show ?thesis
    by (rule seg_rel_queue [OF _ t]) (simp add: txq_entry_ok_def)
qed

text \<open>Sending touches nothing of its own block but the queue.\<close>

definition tx_same :: "nat \<Rightarrow> 'a tcp_scheme \<Rightarrow> 'a tcp_scheme \<Rightarrow> bool" where
  "tx_same i s t \<longleftrightarrow> (\<exists>q n. cb_table t i = (cb_table s i)\<lparr>cb_txq := q, txq_snt := n\<rparr>)"

lemma tx_sameI: "cb_table t i = (cb_table s i)\<lparr>cb_txq := q, txq_snt := n\<rparr> \<Longrightarrow> tx_same i s t"
  unfolding tx_same_def by blast

lemma tx_same_effect:
  assumes "tx_effect e i seq ack flg buf s t"
  shows "tx_same i s t"
proof (cases "cb_table t = cb_table s")
  case True
  then show ?thesis by (intro tx_sameI [where q = "cb_txq (cb_table s i)" and n = "txq_snt (cb_table s i)"]) simp
next
  case False
  then obtain q n where "cb_table t = (cb_table s)(i := (cb_table s i)\<lparr>cb_txq := q, txq_snt := n\<rparr>)"
    using assms unfolding tx_effect_def by blast
  then show ?thesis by (intro tx_sameI) simp
qed

lemma tx_sameD:
  assumes "tx_same i s t"
  shows "cb_state (cb_table t i) = cb_state (cb_table s i)" "cb_used (cb_table t i) = cb_used (cb_table s i)"
    "snd_nxt (cb_table t i) = snd_nxt (cb_table s i)" "snd_una (cb_table t i) = snd_una (cb_table s i)"
    "cb_iss (cb_table t i) = cb_iss (cb_table s i)" "rcv_nxt (cb_table t i) = rcv_nxt (cb_table s i)"
    "rcv_wnd (cb_table t i) = rcv_wnd (cb_table s i)" "cb_window (cb_table t i) = cb_window (cb_table s i)"
    "cb_iface (cb_table t i) = cb_iface (cb_table s i)" "cb_parent (cb_table t i) = cb_parent (cb_table s i)"
    "peer_addr (cb_table t i) = peer_addr (cb_table s i)" "cb_backlog (cb_table t i) = cb_backlog (cb_table s i)"
    "cb_port (cb_table t i) = cb_port (cb_table s i)" "peer_port (cb_table t i) = peer_port (cb_table s i)"
    "cb_timeout (cb_table t i) = cb_timeout (cb_table s i)"
  using assms by (auto simp: tx_same_def)

lemma tcp_reply_rel:
  assumes "wait_keeps tcp_view wait"
  shows "postr (tcp_reply os wait i seq ack flg now s) (\<lambda>t. seg_rel i s t \<and> tx_same i s t)"
  unfolding tcp_reply_def
  by (rule postr_bindI) (auto dest!: postrD [OF tcp_tx_effect [OF assms]] intro: seg_rel_tx tx_same_effect)

lemma tcp_reply_relD:
  assumes "wait_keeps tcp_view wait" "tcp_reply os wait i seq ack flg now s = Inr t"
  shows "seg_rel i s t" "tx_same i s t"
  using postrD [OF tcp_reply_rel [OF assms(1)] assms(2)] by simp_all

section \<open>Every stage\<close>

lemma moves_reset: "tcp_moves\<^sup>*\<^sup>* st CLOSED"
  by (cases "st = CLOSED") (auto intro: tcp_moves.reset)

lemma tcp_close_cb_table [simp]:
  "cb_table (tcp_close_cb i s) = (cb_table s)(i := (closed_cb (cb_table s i))\<lparr>cb_txq := []\<rparr>)"
  "tcp_mutex (tcp_close_cb i s) = tcp_mutex s"
  by (simp_all add: tcp_close_cb_def tcp_txq_clear_all_def)

lemma tcp_close_cb_upd: "tcp_close_cb i s = upd_cb i (\<lambda>cb. (closed_cb cb)\<lparr>cb_txq := []\<rparr>) s"
  by (simp add: tcp_close_cb_def tcp_txq_clear_all_def upd_cb_def)

lemma closed_cb_simps [simp]:
  "cb_state (closed_cb cb) = CLOSED" "cb_used (closed_cb cb) = cb_used cb" "cb_window (closed_cb cb) = cb_window cb"
  "cb_txq (closed_cb cb) = cb_txq cb" "cb_backlog (closed_cb cb) = cb_backlog cb" "cb_port (closed_cb cb) = cb_port cb"
  "cb_parent (closed_cb cb) = cb_parent cb" "cb_iface (closed_cb cb) = cb_iface cb" "snd_wnd (closed_cb cb) = 0"
  by (simp_all add: closed_cb_def)

lemma seg_rel_close: "seg_rel i s (tcp_close_cb i s)"
  unfolding tcp_close_cb_upd by (rule seg_rel_upd) (simp_all add: moves_reset cb_ok_def)

lemma seg_rel_drop: "seg_rel i s (tcp_listen_drop i s)"
  unfolding tcp_listen_drop_def
  by (rule seg_rel_trans [OF seg_rel_close], rule seg_rel_upd) (simp_all add: cb_ok_def)

lemma postr_rel_trans: "seg_rel i s t \<Longrightarrow> postr m (seg_rel i t) \<Longrightarrow> postr m (seg_rel i s)"
  by (auto intro: seg_rel_trans elim!: postr_mono)

lemma postr_rel_trans2: "seg_rel i s t \<Longrightarrow> postr m (\<lambda>(r, s'). seg_rel i t s') \<Longrightarrow> postr m (\<lambda>(r, s'). seg_rel i s s')"
  by (auto intro: seg_rel_trans elim!: postr_mono)

lemma seg_rel_tick [simp]: "seg_rel i s (s\<lparr>sys_tick := t\<rparr>)"
  by (rule seg_rel_table(1)) simp_all

lemma closed_rel:
  assumes "wait_keeps tcp_view wait"
  shows "postr (tcp_seg_closed os wait i hdr plen now s) (seg_rel i s)"
  unfolding tcp_seg_closed_def Let_def
  by (auto intro!: postrI dest: tcp_reply_relD [OF assms] split: if_splits)

lemma listen_syn_rel:
  assumes w: "wait_keeps tcp_view wait" and st: "cb_state (cb_table s i) = LISTEN"
  shows "postr (tcp_listen_syn os wait i hdr now s) (seg_rel i s)"
proof -
  let ?seq = "ntoh32 (os_endian os) (th_seq hdr)" and ?iss = "os_random os (sys_tick s)"
  define s1 where "s1 = upd_cb i (\<lambda>cb. cb\<lparr>rcv_wnd := of_nat TCP_WINDOW_SIZE, rcv_nxt := ?seq + 1, cb_irs := ?seq, cb_iss := ?iss\<rparr>)
      (s\<lparr>sys_tick := Suc (sys_tick s)\<rparr>)"
  have 1: "seg_rel i s s1"
    unfolding s1_def by (rule seg_rel_trans [OF seg_rel_tick], rule seg_rel_upd) (simp_all add: cb_ok_def)
  have st1: "cb_state (cb_table s1 i) = LISTEN" using st by (simp add: s1_def)
  have "seg_rel i s (upd_cb i (\<lambda>cb. cb\<lparr>snd_nxt := cb_iss cb + 1, snd_una := cb_iss cb,
                cb_timeout := fst now + USER_TIMEOUT, cb_state := SYN_RCVD\<rparr>) t)"
    if t: "tcp_reply os wait i ?iss (?seq + 1) (TCP_FLG_SYN OR TCP_FLG_ACK) now s1 = Inr t" for t
  proof -
    have "cb_state (cb_table t i) = LISTEN" using tx_sameD(1) [OF tcp_reply_relD(2) [OF w t]] st1 by simp
    then have "seg_rel i t (upd_cb i (\<lambda>cb. cb\<lparr>snd_nxt := cb_iss cb + 1, snd_una := cb_iss cb,
                cb_timeout := fst now + USER_TIMEOUT, cb_state := SYN_RCVD\<rparr>) t)"
      by (intro seg_rel_upd) (auto simp: cb_ok_def intro: tcp_moves.passive_syn)
    then show ?thesis using 1 tcp_reply_relD(1) [OF w t] seg_rel_trans by blast
  qed
  then show ?thesis
    unfolding tcp_listen_syn_def sys_random_def Let_def prod.case s1_def [symmetric]
    by (intro postr_bindI) simp
qed

lemma listen_rel:
  assumes w: "wait_keeps tcp_view wait" and st: "cb_state (cb_table s i) = LISTEN"
  shows "postr (tcp_seg_listen os wait i hdr now s) (\<lambda>(go, s'). seg_rel i s s')"
  unfolding tcp_seg_listen_def
  by (auto intro!: postr_bindI seg_rel_drop intro: seg_rel_trans [OF tcp_reply_relD(1) [OF w] seg_rel_drop]
      postrD [OF listen_syn_rel [OF assms]])

lemma syn_sent_syn_rel:
  assumes w: "wait_keeps tcp_view wait" and st: "cb_state (cb_table s i) = SYN_SENT"
  shows "postr (tcp_syn_sent_syn os wait i hdr plen now s) (\<lambda>(go, s'). seg_rel i s s')"
proof -
  let ?seq = "ntoh32 (os_endian os) (th_seq hdr)" and ?ack = "ntoh32 (os_endian os) (th_ack hdr)"
  define s1 where "s1 = upd_cb i (\<lambda>cb. cb\<lparr>rcv_nxt := ?seq + 1, cb_irs := ?seq\<rparr>) s"
  define s2 where "s2 = (if snd_una (cb_table s1 i) < ?ack
               then upd_cb i (\<lambda>cb. cb\<lparr>snd_una := ?ack, cb_timeout := fst now + USER_TIMEOUT\<rparr>) s1 else s1)"
  have "seg_rel i s s1" unfolding s1_def by (rule seg_rel_upd) (simp_all add: cb_ok_def)
  moreover have "seg_rel i s1 s2" unfolding s2_def
    by (auto intro: seg_rel_upd simp: cb_ok_def)
  ultimately have 2: "seg_rel i s s2" by (rule seg_rel_trans)
  have st2: "cb_state (cb_table s2 i) = SYN_SENT" using st by (simp add: s2_def s1_def)
  have move: "seg_rel i s (upd_cb i (\<lambda>cb. cb\<lparr>cb_state := st'\<rparr>) s2)" if "tcp_moves SYN_SENT st'" for st'
    by (rule seg_rel_trans [OF 2], rule seg_rel_upd) (use st2 that in \<open>auto simp: cb_ok_def\<close>)
  show ?thesis
    unfolding tcp_syn_sent_syn_def Let_def s1_def [symmetric] s2_def [symmetric]
    by (auto intro!: postr_bindI dest!: tcp_reply_relD(1) [OF w]
        intro: seg_rel_trans [OF move [OF tcp_moves.syn_acked]] seg_rel_trans [OF move [OF tcp_moves.simultaneous_syn]])
qed

lemma syn_sent_rel:
  assumes w: "wait_keeps tcp_view wait" and st: "cb_state (cb_table s i) = SYN_SENT"
  shows "postr (tcp_seg_syn_sent os wait i hdr plen now s) (\<lambda>(go, s'). seg_rel i s s')"
  unfolding tcp_seg_syn_sent_def Let_def
  by (auto intro!: postr_bindI seg_rel_close syn_sent_syn_rel [OF assms] dest: tcp_reply_relD(1) [OF w])

lemma check_rel:
  assumes w: "wait_keeps tcp_view wait"
  shows "postr (tcp_seg_check os wait i hdr plen now s) (\<lambda>(go, s'). seg_rel i s s')"
  unfolding tcp_seg_check_def Let_def
  by (auto intro!: postr_bindI seg_rel_close dest: tcp_reply_relD(1) [OF w]
      intro: seg_rel_trans [OF tcp_reply_relD(1) [OF w] seg_rel_close])

text \<open>The backlog of the parent is the one thing of another block that a segment changes.\<close>

lemma seg_rel_backlog: "seg_rel i s (upd_cb p (\<lambda>cb. cb\<lparr>cb_backlog := cb_backlog cb @ [i]\<rparr>) s)"
proof -
  let ?t = "upd_cb p (\<lambda>cb. cb\<lparr>cb_backlog := cb_backlog cb @ [i]\<rparr>) s"
  have "other_rel i cb (cb\<lparr>cb_backlog := cb_backlog cb @ [i]\<rparr>)" for cb
    by (rule other_relI [of "cb_backlog cb @ [i]"]) auto
  then have "other_rel i (cb_table s j) (cb_table ?t j)" for j by simp
  moreover have "cb_state (cb_table ?t i) = cb_state (cb_table s i)" "cb_used (cb_table ?t i) = cb_used (cb_table s i)"
    "cb_ok (cb_table ?t i) = cb_ok (cb_table s i)" "set (cb_backlog (cb_table ?t i)) \<subseteq> insert i (set (cb_backlog (cb_table s i)))"
    by (auto simp: cb_ok_def)
  ultimately show ?thesis unfolding seg_rel_def by (intro conjI allI impI) simp_all
qed

lemma established_rel:
  assumes "cb_state (cb_table s i) = SYN_RCVD"
  shows "seg_rel i s (tcp_seg_established os i s)"
proof -
  define t where "t = upd_cb i (\<lambda>cb. cb\<lparr>cb_state := ESTABLISHED\<rparr>) s"
  have t: "seg_rel i s t"
    unfolding t_def by (rule seg_rel_upd) (use assms in \<open>auto simp: cb_ok_def intro: tcp_moves.ack_of_syn\<close>)
  show ?thesis
    unfolding tcp_seg_established_def Let_def t_def [symmetric] sys_malloc_def prod.case
    by (auto intro!: t seg_rel_trans [OF seg_rel_trans [OF t seg_rel_tick] seg_rel_backlog] seg_rel_trans [OF t seg_rel_tick]
        split: option.split)
qed

lemma ack_update_simps [simp]:
  "cb_state (ack_update seq ack win now cb) = cb_state cb" "cb_used (ack_update seq ack win now cb) = cb_used cb"
  "cb_window (ack_update seq ack win now cb) = cb_window cb" "cb_txq (ack_update seq ack win now cb) = cb_txq cb"
  "rcv_wnd (ack_update seq ack win now cb) = rcv_wnd cb" "rcv_nxt (ack_update seq ack win now cb) = rcv_nxt cb"
  "snd_nxt (ack_update seq ack win now cb) = snd_nxt cb" "cb_iface (ack_update seq ack win now cb) = cb_iface cb"
  "cb_backlog (ack_update seq ack win now cb) = cb_backlog cb"
  by (simp_all add: ack_update_def Let_def)

lemma ack_of_fin_simps [simp]:
  "cb_used (ack_of_fin ack cb) = cb_used cb" "cb_window (ack_of_fin ack cb) = cb_window cb"
  "cb_txq (ack_of_fin ack cb) = cb_txq cb" "rcv_wnd (ack_of_fin ack cb) = rcv_wnd cb"
  "rcv_nxt (ack_of_fin ack cb) = rcv_nxt cb" "cb_iface (ack_of_fin ack cb) = cb_iface cb"
  "cb_backlog (ack_of_fin ack cb) = cb_backlog cb"
  by (simp_all add: ack_of_fin_def)

lemma ack_of_fin_moves: "tcp_moves\<^sup>*\<^sup>* (cb_state cb) (cb_state (ack_of_fin ack cb))"
  by (auto simp: ack_of_fin_def intro: tcp_moves.ack_own_fin tcp_moves.ack_closing)

lemma established_state: "cb_state (cb_table (tcp_seg_established os i s) i) = ESTABLISHED"
  by (simp add: tcp_seg_established_def sys_malloc_def Let_def split: option.split)

lemma ack_of_fin_ok:
  assumes "cb_ok cb" "\<not> early (cb_state cb)"
  shows "cb_ok (ack_of_fin ack cb)" "cb_ok (ack_of_fin ack (ack_update seq ack win now cb))"
  using assms by (auto simp: cb_ok_def ack_of_fin_def)

lemma ack_open_rel:
  assumes w: "wait_keeps tcp_view wait" and st: "\<not> early (cb_state (cb_table s i))"
  shows "postr (tcp_seg_ack_open os wait i hdr now s) (\<lambda>(go, s'). seg_rel i s s')"
proof -
  have "tcp_moves\<^sup>*\<^sup>* (cb_state cb) (cb_state (ack_of_fin ack (ack_update seq ack win now cb)))" for seq ack win cb
    using ack_of_fin_moves [of "ack_update seq ack win now cb" ack] by simp
  then show ?thesis
    unfolding tcp_seg_ack_open_def Let_def
    by (auto intro!: postr_bindI seg_rel_upd ack_of_fin_moves dest: tcp_reply_relD(1) [OF w] ack_of_fin_ok [OF _ st])
qed

lemma ack_rel:
  assumes w: "wait_keeps tcp_view wait"
  shows "postr (tcp_seg_ack os wait i hdr now s) (\<lambda>(go, s'). seg_rel i s s')"
proof -
  have "postr (tcp_seg_ack_open os wait i hdr now (tcp_seg_established os i s)) (\<lambda>(go, s'). seg_rel i s s')"
    if "cb_state (cb_table s i) = SYN_RCVD"
    by (rule postr_rel_trans2 [OF established_rel [OF that] ack_open_rel [OF w]]) (simp add: established_state)
  then show ?thesis
    unfolding tcp_seg_ack_def Let_def
    by (auto intro!: postr_bindI ack_open_rel [OF w] seg_rel_close dest: tcp_reply_relD(1) [OF w] split: tcp_state.split)
qed

lemma urg_rel: "seg_rel i s (tcp_seg_urg e i hdr s)"
  unfolding tcp_seg_urg_def by (auto intro: seg_rel_upd simp: cb_ok_def)

lemma text_rel:
  assumes w: "wait_keeps tcp_view wait"
  shows "postr (tcp_seg_text os wait i hdr segment plen now s) (seg_rel i s)"
proof -
  have reply: "postr (tcp_reply os wait i seq ack flg now t) (seg_rel i t)" for seq ack flg and t :: "'a tcp_scheme"
    by (rule postr_mono [OF tcp_reply_rel [OF w]]) simp
  have copied: "postr (tcp_reply os wait i seq ack flg now
      (upd_cb i (\<lambda>cb. cb\<lparr>cb_window := window, rcv_nxt := n, rcv_wnd := rcv_wnd cb - k\<rparr>) s)) (seg_rel i s)"
    if "mem_write (cb_window (cb_table s i)) off xs = Inr window" for window off n k xs seq ack flg
    by (rule postr_rel_trans [OF seg_rel_upd reply]) (use length_mem_write [OF that] in \<open>simp_all add: cb_ok_def\<close>)
  show ?thesis
    unfolding tcp_seg_text_def Let_def
    by (auto intro!: postr_bindI reply intro: copied)
qed

lemma fin_state_simps [simp]:
  "cb_used (fin_state now cb) = cb_used cb" "cb_window (fin_state now cb) = cb_window cb" "cb_txq (fin_state now cb) = cb_txq cb"
  "cb_backlog (fin_state now cb) = cb_backlog cb"
  by (simp_all add: fin_state_def split: tcp_state.split)

lemma fin_state_moves: "tcp_moves\<^sup>*\<^sup>* (cb_state cb) (cb_state (fin_state now cb))"
  by (auto simp: fin_state_def intro: tcp_moves.intros split: tcp_state.split)

lemma fin_rel:
  assumes w: "wait_keeps tcp_view wait"
  shows "postr (tcp_seg_fin os wait i hdr now s) (seg_rel i s)"
proof -
  have 1: "seg_rel i s (upd_cb i (\<lambda>cb. cb\<lparr>rcv_nxt := n\<rparr>) s)" for n
    by (rule seg_rel_upd) (simp_all add: cb_ok_def)
  have ok: "cb_ok cb \<Longrightarrow> cb_ok (fin_state now cb)" for cb
    by (simp add: cb_ok_def fin_state_def split: tcp_state.split)
  have 2: "seg_rel i t (upd_cb i (fin_state now) t)" for t :: "'a tcp_scheme"
    by (rule seg_rel_upd) (simp_all add: ok fin_state_moves)
  show ?thesis
    unfolding tcp_seg_fin_def Let_def
    by (auto intro!: postr_bindI intro: seg_rel_trans [OF seg_rel_trans [OF 1 tcp_reply_relD(1) [OF w]] 2])
qed

lemma data_rel:
  assumes w: "wait_keeps tcp_view wait"
  shows "postr (tcp_seg_data os wait i hdr segment plen now s) (seg_rel i s)"
  unfolding tcp_seg_data_def
  by (rule postr_bind_with [OF postr_rel_trans [OF urg_rel text_rel [OF w]]])
    (rule postr_rel_trans [OF _ fin_rel [OF w]])

lemma open_rel:
  assumes w: "wait_keeps tcp_view wait"
  shows "postr (tcp_seg_open os wait i hdr plen now s) (\<lambda>(go, s'). seg_rel i s s')"
  unfolding tcp_seg_open_def
  by (rule postr_bind_with [OF check_rel [OF w]]) (auto intro: postr_rel_trans2 [OF _ ack_rel [OF w]])

lemma segment_arrives_rel:
  assumes w: "wait_keeps tcp_view wait"
  shows "postr (tcp_event_segment_arrives os wait i hdr segment len s) (seg_rel i s)"
proof -
  define t where "t = s\<lparr>sys_tick := Suc (sys_tick s)\<rparr>"
  have t: "seg_rel i s t" by (simp add: t_def)
  have first: "postr (case cb_state (cb_table t i) of
                     LISTEN \<Rightarrow> tcp_seg_listen os wait i hdr now t
                   | SYN_SENT \<Rightarrow> tcp_seg_syn_sent os wait i hdr plen now t
                   | _ \<Rightarrow> tcp_seg_open os wait i hdr plen now t) (\<lambda>(go, s'). seg_rel i t s')" for plen now
    by (auto intro: listen_rel [OF w] syn_sent_rel [OF w] open_rel [OF w] split: tcp_state.split)
  have rest: "postr (bindr (case cb_state (cb_table t i) of
                     LISTEN \<Rightarrow> tcp_seg_listen os wait i hdr now t
                   | SYN_SENT \<Rightarrow> tcp_seg_syn_sent os wait i hdr plen now t
                   | _ \<Rightarrow> tcp_seg_open os wait i hdr plen now t)
              (\<lambda>(go, s). if go then tcp_seg_data os wait i hdr segment plen now s else Inr s)) (seg_rel i t)" for plen now
    by (rule postr_bind_with [OF first]) (auto intro: postr_rel_trans [OF _ data_rel [OF w]])
  show ?thesis
    unfolding tcp_event_segment_arrives_def sys_timeofday_def Let_def prod.case t_def [symmetric]
    by (rule postr_rel_trans [OF t]) (use rest closed_rel [OF w] in \<open>simp split: option.split\<close>)
qed

text \<open>
  Property C6: a segment moves its control block along the edges of the TCP state diagram only.
  Whatever the segment and the answers of the operating system, when the handler returns, the state
  has moved along zero or more edges of the diagram, the block is still well formed (a window buffer
  of full size, queued segments with their lengths, no send window before the first
  acknowledgement), the user's claim on it is unchanged, and of every other block at most the backlog
  has changed, by this block being queued. In particular no segment ever leads to LISTEN,
  SYN_SENT, FIN_WAIT1 or LAST_ACK.
\<close>

theorem tcp_segment_moves:
  assumes "wait_keeps tcp_view wait" "tcp_event_segment_arrives os wait i hdr segment len s = Inr s'"
  shows "tcp_moves\<^sup>*\<^sup>* (cb_state (cb_table s i)) (cb_state (cb_table s' i)) \<and>
    (cb_state (cb_table s' i) \<in> {LISTEN, SYN_SENT, FIN_WAIT1, LAST_ACK} \<longrightarrow>
       cb_state (cb_table s' i) = cb_state (cb_table s i)) \<and>
    (cb_ok (cb_table s i) \<longrightarrow> cb_ok (cb_table s' i)) \<and> cb_used (cb_table s' i) = cb_used (cb_table s i) \<and>
    (\<forall>j. j \<noteq> i \<longrightarrow> (\<exists>b. set b \<subseteq> insert i (set (cb_backlog (cb_table s j))) \<and> cb_table s' j = (cb_table s j)\<lparr>cb_backlog := b\<rparr>))"
proof -
  have "seg_rel i s s'" using postrD [OF segment_arrives_rel [OF assms(1)] assms(2)] .
  then show ?thesis
    unfolding seg_rel_def other_rel_def using moves_never [of "cb_state (cb_table s i)" "cb_state (cb_table s' i)"] by auto
qed

theorem tcp_segment_moves_witness:
  "let s = tcp_start 3 (plain_dev [2, 0, 0, 0, 0, 1] 7) 4 (plain_netif 5) None
         ((\<lambda>_. tcp_cb_zero)(9 := tcp_cb_zero\<lparr>cb_used := True, cb_state := ESTABLISHED, rcv_nxt := 1000, rcv_wnd := 65535\<rparr>));
       h = \<lparr>th_src = 1, th_dst = 2, th_seq = hton32 Little 1000, th_ack = 0, th_off = 0x50, th_flg = 0x04, th_win = 0,
            th_sum = 0, th_urg = 0\<rparr>
   in \<exists>s'. tcp_event_segment_arrives (plain_os 0 60) (\<lambda>_. []) 9 h (enc_tcp_hdr Little h) 20 s = Inr s' \<and>
        cb_state (cb_table s' 9) = CLOSED \<and> tcp_moves\<^sup>*\<^sup>* ESTABLISHED (cb_state (cb_table s' 9)) \<and> cb_used (cb_table s' 9)"
proof -
  define s where "s = tcp_start 3 (plain_dev [2, 0, 0, 0, 0, 1] 7) 4 (plain_netif 5) None
         ((\<lambda>_. tcp_cb_zero)(9 := tcp_cb_zero\<lparr>cb_used := True, cb_state := ESTABLISHED, rcv_nxt := 1000, rcv_wnd := 65535\<rparr>))"
  define h where "h = \<lparr>th_src = 1, th_dst = 2, th_seq = hton32 Little 1000, th_ack = 0, th_off = 0x50, th_flg = 0x04, th_win = 0,
            th_sum = 0, th_urg = 0\<rparr>"
  let ?w = "(\<lambda>_. []) :: tcp waits"
  define s' where "s' = tcp_close_cb 9 (s\<lparr>sys_tick := Suc (sys_tick s)\<rparr>)"
  have acc: "tcp_acceptable Little (cb_table s 9) h (TCP_DATA_LEN h 20)"
    by (simp add: tcp_acceptable_def s_def h_def TCP_DATA_LEN_def TCP_HDR_LEN_def)
  have fl: "TCP_FLG_ISSET (th_flg h) 4" by (simp add: h_def TCP_FLG_ISSET_def)
  have st: "cb_state (cb_table s 9) = ESTABLISHED" by (simp add: s_def)
  have run: "tcp_event_segment_arrives (plain_os 0 60) ?w 9 h (enc_tcp_hdr Little h) 20 s = Inr s'"
    using acc fl st by (simp add: tcp_event_segment_arrives_def sys_timeofday_def tcp_seg_open_def tcp_seg_check_def s'_def)
  have c: "cb_state (cb_table s' 9) = CLOSED" "cb_used (cb_table s' 9)" by (simp_all add: s'_def s_def)
  show ?thesis
    using tcp_segment_moves [OF wait_keeps_none run] run c st unfolding Let_def s_def [symmetric] h_def [symmetric] by auto
qed

end
