(* ===== verification/Tcptimer.thy ===== *)
theory Tcptimer
  imports Tcpmoves
begin

unbundle bit_operations_syntax

text \<open>
  The timer thread of \<open>tcp.c\<close>: it closes connections whose time is over, drops acknowledged
  segments from the queues and sends what is due. Time stamps are pairs of seconds and microseconds.
\<close>

section \<open>The thread\<close>

text \<open>A transmission from the queue: the acknowledgement number and the checksum are renewed.\<close>

definition tcp_timer_send ::
  "os \<Rightarrow> 'a tcp_scheme waits \<Rightarrow> nat \<Rightarrow> u32 \<Rightarrow> u32 \<Rightarrow> timeval \<Rightarrow> tcp_txq_entry \<Rightarrow> 'a tcp_scheme \<Rightarrow>
     (tcp_txq_entry \<times> 'a tcp_scheme) res" where
  "tcp_timer_send os wait i self peer timestamp txq s =
     (let e = os_endian os; cb = cb_table s i;
          hdr = (tq_seg txq)\<lparr>th_ack := hton32 e (rcv_nxt cb), th_sum := 0\<rparr> in
      bindr (tcp_checksum e self peer (enc_tcp_hdr e hdr @ tq_data txq) (unat (tq_len txq))) (\<lambda>sum.
      let hdr = hdr\<lparr>th_sum := sum\<rparr> in
      bindr (mem_read (enc_tcp_hdr e hdr @ tq_data txq) 0 (unat (tq_len txq))) (\<lambda>segment.
      bindr (ip_tx os wait (cb_iface cb) IP_PROTOCOL_TCP segment (peer_addr cb) s) (\<lambda>(_, s).
      Inr (txq\<lparr>tq_seg := hdr, tq_time := timestamp\<rparr>, s)))))"

text \<open>
  The walk along the queue. \<open>ahead\<close> (\<open>sum\<close> in the source) counts the data before the entry; the entries that stay are
  returned, an acknowledged one is unlinked and its length taken off \<open>txq.snt\<close>.
\<close>

definition tcp_timer_due :: "tcp_cb \<Rightarrow> nat \<Rightarrow> timeval \<Rightarrow> tcp_txq_entry \<Rightarrow> bool" where
  "tcp_timer_due cb ahead timestamp txq \<longleftrightarrow>
     ahead < unat (snd_wnd cb) \<and> (fst (tq_time txq) = 0 \<or> fst timestamp - fst (tq_time txq) > 3)"

fun tcp_timer_txq ::
  "os \<Rightarrow> 'a tcp_scheme waits \<Rightarrow> nat \<Rightarrow> u32 \<Rightarrow> u32 \<Rightarrow> timeval \<Rightarrow> nat \<Rightarrow> tcp_txq_entry list \<Rightarrow> 'a tcp_scheme \<Rightarrow>
     (tcp_txq_entry list \<times> 'a tcp_scheme) res" where
  "tcp_timer_txq os wait i self peer timestamp ahead [] s = Inr ([], s)"
| "tcp_timer_txq os wait i self peer timestamp ahead (txq # rest) s =
     (let cb = cb_table s i; dlen = TCP_DATA_LEN (tq_seg txq) (unat (tq_len txq)) in
      if ntoh32 (os_endian os) (th_seq (tq_seg txq)) \<ge> snd_una cb then
        bindr (if tcp_timer_due cb ahead timestamp txq
               then tcp_timer_send os wait i self peer timestamp txq s else Inr (txq, s)) (\<lambda>(txq, s).
        bindr (tcp_timer_txq os wait i self peer timestamp ((ahead + dlen) mod 2 ^ 64) rest s) (\<lambda>(rest, s).
        Inr (txq # rest, s)))
      else
        tcp_timer_txq os wait i self peer timestamp ahead rest
          (upd_cb i (\<lambda>cb. cb\<lparr>txq_snt := txq_snt cb - of_nat dlen\<rparr>) s))"

definition tcp_timer_expired :: "timeval \<Rightarrow> tcp_cb \<Rightarrow> bool" where
  "tcp_timer_expired timestamp cb \<longleftrightarrow>
     (snd_una cb \<noteq> snd_nxt cb \<or> cb_state cb = TIME_WAIT) \<and> cb_timeout cb < fst timestamp"

definition tcp_timer_cb ::
  "os \<Rightarrow> 'a tcp_scheme waits \<Rightarrow> timeval \<Rightarrow> nat \<Rightarrow> 'a tcp_scheme \<Rightarrow> 'a tcp_scheme res" where
  "tcp_timer_cb os wait timestamp i s =
     (let cb = cb_table s i in
      if cb_state cb = CLOSED then Inr s
      else if tcp_timer_expired timestamp cb then Inr (tcp_close_cb i s)
      else if cb_txq cb = [] then Inr s
      else
        case cb_iface cb of
          None \<Rightarrow> Inl NullDeref
        | Some n \<Rightarrow>
            bindr (deref (net_ifs s) n) (\<lambda>iface.
            bindr (tcp_timer_txq os wait i (unicast iface) (peer_addr cb) timestamp 0 (cb_txq cb) s) (\<lambda>(txq, s).
            Inr (upd_cb i (\<lambda>cb. cb\<lparr>cb_txq := txq\<rparr>) s))))"

fun tcp_timer_loop ::
  "os \<Rightarrow> 'a tcp_scheme waits \<Rightarrow> timeval \<Rightarrow> nat list \<Rightarrow> 'a tcp_scheme \<Rightarrow> 'a tcp_scheme res" where
  "tcp_timer_loop os wait timestamp [] s = Inr s"
| "tcp_timer_loop os wait timestamp (i # is) s =
     bindr (tcp_timer_cb os wait timestamp i s) (\<lambda>s. tcp_timer_loop os wait timestamp is s)"

text \<open>
  One turn of the endless loop, with the mutex held: if \<open>gettimeofday\<close> fails, \<open>timestamp\<close> keeps its
  value. Then the time until which the thread sleeps is computed.
\<close>

definition tcp_timer_round ::
  "os \<Rightarrow> 'a tcp_scheme waits \<Rightarrow> timeval \<Rightarrow> 'a tcp_scheme \<Rightarrow> (timeval \<times> 'a tcp_scheme) res" where
  "tcp_timer_round os wait timestamp s =
     (let (now, s) = sys_timeofday os s;
          timestamp = (case now of Some t \<Rightarrow> t | None \<Rightarrow> timestamp) in
      bindr (tcp_timer_loop os wait timestamp [0..<TCP_CB_TABLE_SIZE] s) (\<lambda>s.
      let sec = fst timestamp; usec = snd timestamp + 100 * 1000 in
      Inr (if usec \<ge> 1000000 then (sec + 1, usec - 1000000) else (sec, usec), s)))"

text \<open>
  The thread over a number of turns: while it sleeps the mutex is free, and \<open>others\<close> is what the
  other threads do meanwhile.
\<close>

fun tcp_timer_turns ::
  "os \<Rightarrow> 'a tcp_scheme waits \<Rightarrow> ('a tcp_scheme \<Rightarrow> 'a tcp_scheme) list \<Rightarrow> timeval \<Rightarrow> 'a tcp_scheme \<Rightarrow>
     (timeval \<times> 'a tcp_scheme) res" where
  "tcp_timer_turns os wait [] timestamp s = Inr (timestamp, s)"
| "tcp_timer_turns os wait (others # sleeps) timestamp s =
     bindr (tcp_timer_round os wait timestamp s) (\<lambda>(timestamp, s).
     bindr (tcp_lock (others (tcp_unlock s))) (\<lambda>s.
     tcp_timer_turns os wait sleeps timestamp s))"

definition tcp_timer_thread ::
  "os \<Rightarrow> 'a tcp_scheme waits \<Rightarrow> ('a tcp_scheme \<Rightarrow> 'a tcp_scheme) list \<Rightarrow> timeval \<Rightarrow> 'a tcp_scheme \<Rightarrow>
     (timeval \<times> 'a tcp_scheme) res" where
  "tcp_timer_thread os wait sleeps timestamp s = bindr (tcp_lock s) (tcp_timer_turns os wait sleeps timestamp)"

section \<open>What a walk does\<close>

text \<open>
  The queue after a walk, as a function of the queue before: acknowledged entries are gone, the
  others are kept in order, each with a mark that says whether it was sent. An entry is due when the
  data before it does not fill the send window and it was never sent or more than three seconds ago.
\<close>

definition tcp_renewed :: "endian \<Rightarrow> u32 \<Rightarrow> u32 \<Rightarrow> u32 \<Rightarrow> timeval \<Rightarrow> tcp_txq_entry \<Rightarrow> tcp_txq_entry" where
  "tcp_renewed e self peer ack timestamp txq =
     (let hdr = (tq_seg txq)\<lparr>th_ack := hton32 e ack, th_sum := 0\<rparr>
      in txq\<lparr>tq_seg := hdr\<lparr>th_sum := tcp_sum e self peer hdr (tq_data txq)\<rparr>, tq_time := timestamp\<rparr>)"

definition txq_unacked :: "endian \<Rightarrow> u32 \<Rightarrow> tcp_txq_entry \<Rightarrow> bool" where
  "txq_unacked e una txq \<longleftrightarrow> una \<le> ntoh32 e (th_seq (tq_seg txq))"

fun timer_plan :: "endian \<Rightarrow> u32 \<Rightarrow> timeval \<Rightarrow> tcp_cb \<Rightarrow> nat \<Rightarrow> tcp_txq_entry list \<Rightarrow> (bool \<times> tcp_txq_entry) list" where
  "timer_plan e self timestamp cb ahead [] = []"
| "timer_plan e self timestamp cb ahead (txq # rest) =
     (if txq_unacked e (snd_una cb) txq then
        let due = tcp_timer_due cb ahead timestamp txq in
        (due, if due then tcp_renewed e self (peer_addr cb) (rcv_nxt cb) timestamp txq else txq) #
        timer_plan e self timestamp cb (ahead + length (tq_data txq)) rest
      else timer_plan e self timestamp cb ahead rest)"

definition acked_bytes :: "endian \<Rightarrow> u32 \<Rightarrow> tcp_txq_entry list \<Rightarrow> nat" where
  "acked_bytes e una txq = sum_list (map (length \<circ> tq_data) (filter (\<lambda>en. \<not> txq_unacked e una en) txq))"

fun timer_frames :: "endian \<Rightarrow> bytes \<Rightarrow> bytes \<Rightarrow> u32 \<Rightarrow> u32 \<Rightarrow> u16 \<Rightarrow> (bool \<times> tcp_txq_entry) list \<Rightarrow> bytes list" where
  "timer_frames e ha addr self peer ident [] = []"
| "timer_frames e ha addr self peer ident ((due, txq) # rest) =
     (if due
      then tcp_frame e ha addr self peer ident (enc_tcp_hdr e (tq_seg txq) @ tq_data txq) #
           timer_frames e ha addr self peer (ident + 1) rest
      else timer_frames e ha addr self peer ident rest)"

lemma plan_data: "map (tq_data \<circ> snd) (timer_plan e self now cb ahead txq) = map tq_data (filter (txq_unacked e (snd_una cb)) txq)"
  by (induction txq arbitrary: ahead) (simp_all add: Let_def tcp_renewed_def)

lemma plan_seq:
  "map (th_seq \<circ> tq_seg \<circ> snd) (timer_plan e self now cb ahead txq) =
   map (th_seq \<circ> tq_seg) (filter (txq_unacked e (snd_una cb)) txq)"
  by (induction txq arbitrary: ahead) (simp_all add: Let_def tcp_renewed_def)

lemma plan_zero_window: "snd_wnd cb = 0 \<Longrightarrow> (True, en) \<notin> set (timer_plan e self now cb ahead txq)"
  by (induction txq arbitrary: ahead) (auto simp: Let_def tcp_timer_due_def)

lemma plan_cong:
  assumes "snd_una cb' = snd_una cb" "snd_wnd cb' = snd_wnd cb" "rcv_nxt cb' = rcv_nxt cb" "peer_addr cb' = peer_addr cb"
  shows "timer_plan e self now cb' ahead txq = timer_plan e self now cb ahead txq"
proof -
  have "tcp_timer_due cb' = tcp_timer_due cb" by (simp add: assms(2) fun_eq_iff tcp_timer_due_def)
  then show ?thesis by (induction txq arbitrary: ahead) (simp_all add: Let_def assms)
qed

lemma entry_len:
  assumes "txq_entry_ok txq" "length (tq_data txq) \<le> 1460"
  shows "unat (tq_len txq) = 20 + length (tq_data txq)"
    "TCP_DATA_LEN (tq_seg txq) (20 + length (tq_data txq)) = length (tq_data txq)"
proof -
  show l: "unat (tq_len txq) = 20 + length (tq_data txq)"
    using assms unat_of_nat_u16 [of "20 + length (tq_data txq)"] by (simp add: txq_entry_ok_def del: of_nat_add)
  have "TCP_HDR_LEN (tq_seg txq) = 20" using assms(1) by (simp add: txq_entry_ok_def TCP_HDR_LEN_def)
  then show "TCP_DATA_LEN (tq_seg txq) (20 + length (tq_data txq)) = length (tq_data txq)"
    using assms(2) by (subst data_len_ok) simp_all
qed

lemma tcp_timer_send_frame:
  assumes "reaches s n (peer_addr (cb_table s i)) self ha addr fd" "cb_iface (cb_table s i) = Some n"
    and "txq_entry_ok txq" "length (tq_data txq) \<le> 1460"
    and txq': "txq' = tcp_renewed (os_endian os) self (peer_addr (cb_table s i)) (rcv_nxt (cb_table s i)) now txq"
  shows "\<exists>s' ret. tcp_timer_send os wait i self (peer_addr (cb_table s i)) now txq s = Inr (txq', s') \<and>
    sends (s\<lparr>ip_next_id := ip_next_id s + 1\<rparr>) s' \<and>
    sys_sent s' = sys_sent s @ [(fd, tcp_frame (os_endian os) ha addr self (peer_addr (cb_table s i)) (ip_next_id s)
      (enc_tcp_hdr (os_endian os) (tq_seg txq') @ tq_data txq'), ret)]"
proof -
  let ?e = "os_endian os" and ?p = "peer_addr (cb_table s i)"
  define h where "h = (tq_seg txq)\<lparr>th_ack := hton32 ?e (rcv_nxt (cb_table s i)), th_sum := 0\<rparr>"
  define c where "c = tcp_sum ?e self ?p h (tq_data txq)"
  have sum: "tcp_checksum ?e self ?p (enc_tcp_hdr ?e h @ tq_data txq) (20 + length (tq_data txq)) = Inr c"
    unfolding c_def by (rule tcp_checksum_total)
  have t: "txq' = txq\<lparr>tq_seg := h\<lparr>th_sum := c\<rparr>, tq_time := now\<rparr>"
    by (simp add: txq' tcp_renewed_def h_def c_def Let_def)
  have rd: "mem_read (enc_tcp_hdr ?e (h\<lparr>th_sum := c\<rparr>) @ tq_data txq) 0 (20 + length (tq_data txq)) =
      Inr (enc_tcp_hdr ?e (h\<lparr>th_sum := c\<rparr>) @ tq_data txq)"
    by (simp add: mem_read_def)
  obtain r s' ret where "ip_tx os wait (Some n) 6 (enc_tcp_hdr ?e (h\<lparr>th_sum := c\<rparr>) @ tq_data txq) ?p s = Inr (r, s')"
    "sends (s\<lparr>ip_next_id := ip_next_id s + 1\<rparr>) s'"
    "sys_sent s' = sys_sent s @ [(fd, tcp_frame ?e ha addr self ?p (ip_next_id s)
      (enc_tcp_hdr ?e (h\<lparr>th_sum := c\<rparr>) @ tq_data txq), ret)]"
    using ip_tx_one [OF assms(1), of "enc_tcp_hdr ?e (h\<lparr>th_sum := c\<rparr>) @ tq_data txq" os wait] assms(4) by auto
  moreover have "(tq_seg txq)\<lparr>th_ack := hton32 ?e (rcv_nxt (cb_table s i)), th_sum := c\<rparr> = h\<lparr>th_sum := c\<rparr>"
    by (simp add: h_def)
  ultimately show ?thesis
    using sum rd by (simp add: tcp_timer_send_def Let_def entry_len [OF assms(3,4)] h_def [symmetric] t assms(2))
qed

text \<open>What a walk leaves: the count of sent bytes is lowered, and frames are logged.\<close>

definition walked :: "nat \<Rightarrow> int \<Rightarrow> nat \<Rightarrow> bytes list \<Rightarrow> 'a tcp_scheme \<Rightarrow> 'a tcp_scheme \<Rightarrow> bool" where
  "walked i fd acked frames s s' \<longleftrightarrow>
     cb_table s' = (cb_table s)(i := (cb_table s i)\<lparr>txq_snt := txq_snt (cb_table s i) - of_nat acked\<rparr>) \<and>
     tcp_mutex s' = tcp_mutex s \<and> same_net s s' \<and> arp_tbl s' = arp_tbl s \<and>
     (\<exists>log. sys_sent s' = sys_sent s @ log \<and> map (\<lambda>(a, b, c). (a, b)) log = map (Pair fd) frames)"

lemma walked_nil [simp]: "walked i fd 0 [] s s"
  by (simp add: walked_def)

lemma walked_acked: "walked i fd k frames (upd_cb i (\<lambda>cb. cb\<lparr>txq_snt := txq_snt cb - of_nat m\<rparr>) s) s' \<Longrightarrow> walked i fd (m + k) frames s s'"
  by (simp add: walked_def same_net_def upd_cb_def diff_diff_eq)

lemma walked_frame:
  assumes "walked i fd k frames t s'" "sends (s\<lparr>ip_next_id := ip_next_id s + 1\<rparr>) t" "sys_sent t = sys_sent s @ [(fd, f, ret)]"
  shows "walked i fd k (f # frames) s s'"
proof -
  have "cb_table t = cb_table s" "tcp_mutex t = tcp_mutex s" "arp_tbl t = arp_tbl s" "same_net s t"
    using assms(2) by (auto simp: sends_def same_net_def)
  then show ?thesis using assms(1,3) same_net_trans [of s t s'] by (auto simp: walked_def)
qed

lemma tcp_timer_txq_exact:
  assumes "reaches s n peer self ha addr fd" "cb_iface (cb_table s i) = Some n" "peer = peer_addr (cb_table s i)"
    and "\<forall>en \<in> set q. txq_entry_ok en \<and> length (tq_data en) \<le> 1460" "ahead + sum_list (map (length \<circ> tq_data) q) < 2 ^ 64"
  shows "\<exists>s'. tcp_timer_txq os wait i self peer now ahead q s =
      Inr (map snd (timer_plan (os_endian os) self now (cb_table s i) ahead q), s') \<and>
    walked i fd (acked_bytes (os_endian os) (snd_una (cb_table s i)) q)
      (timer_frames (os_endian os) ha addr self peer (ip_next_id s) (timer_plan (os_endian os) self now (cb_table s i) ahead q)) s s'"
  using assms
proof (induction q arbitrary: ahead s)
  case Nil
  then show ?case by (simp add: acked_bytes_def)
next
  case (Cons en q)
  let ?e = "os_endian os" and ?cb = "cb_table s i"
  have en: "txq_entry_ok en" "length (tq_data en) \<le> 1460" using Cons.prems(4) by auto
  have ahead: "(ahead + length (tq_data en)) mod 2 ^ 64 = ahead + length (tq_data en)" using Cons.prems(5) by simp
  show ?case
  proof (cases "txq_unacked ?e (snd_una ?cb) en")
    case False
    define t where "t = upd_cb i (\<lambda>cb. cb\<lparr>txq_snt := txq_snt cb - of_nat (length (tq_data en))\<rparr>) s"
    have t: "reaches t n peer self ha addr fd" "cb_iface (cb_table t i) = Some n" "peer = peer_addr (cb_table t i)"
      using Cons.prems(1-3) reaches_cong [of s t] by (simp_all add: t_def)
    have p: "timer_plan ?e self now (cb_table t i) ahead q = timer_plan ?e self now ?cb ahead q" "snd_una (cb_table t i) = snd_una ?cb"
      "ip_next_id t = ip_next_id s"
      by (rule plan_cong; simp add: t_def) (simp_all add: t_def)
    from Cons.IH [OF t, of ahead] Cons.prems(4,5) False show ?thesis
      unfolding p by (auto simp: txq_unacked_def entry_len [OF en] t_def [symmetric] acked_bytes_def
          dest!: walked_acked [of i fd _ _ "length (tq_data en)" s, folded t_def])
  next
    case True
    note cb = True [unfolded txq_unacked_def]
    show ?thesis
    proof (cases "tcp_timer_due ?cb ahead now en")
      case False
      from Cons.IH [OF Cons.prems(1-3), of "ahead + length (tq_data en)"] Cons.prems(4,5) True False show ?thesis
        using cb by (auto simp: entry_len [OF en] ahead acked_bytes_def)
    next
      case due: True
      define en' where "en' = tcp_renewed ?e self peer (rcv_nxt ?cb) now en"
      obtain t ret where t: "tcp_timer_send os wait i self peer now en s = Inr (en', t)"
        "sends (s\<lparr>ip_next_id := ip_next_id s + 1\<rparr>) t"
        "sys_sent t = sys_sent s @ [(fd, tcp_frame ?e ha addr self peer (ip_next_id s) (enc_tcp_hdr ?e (tq_seg en') @ tq_data en'), ret)]"
        using tcp_timer_send_frame [OF _ Cons.prems(2) en, of self ha addr fd en' os now wait] Cons.prems(1,3) en'_def by auto
      have f: "cb_table t = cb_table s" "ip_next_id t = ip_next_id s + 1" "arp_tbl t = arp_tbl s" "same_net s t"
        using t(2) by (auto simp: sends_def same_net_def)
      then have "reaches t n peer self ha addr fd" using Cons.prems(1) reaches_cong by blast
      from Cons.IH [OF this, of "ahead + length (tq_data en)"] Cons.prems(2-5) True due show ?thesis
        using cb walked_frame [OF _ t(2,3)] t(1)
        by (auto simp: Let_def f entry_len [OF en] ahead acked_bytes_def en'_def)
    qed
  qed
qed


text \<open>A queue of two segments of which the first is acknowledged and the second not yet sent.\<close>

definition timer_example :: tcp_cb where
  "timer_example =
     (let hdr = \<lparr>th_src = 1, th_dst = 2, th_seq = hton32 Little 100, th_ack = 0, th_off = 0x50, th_flg = 0x18,
                 th_win = 0, th_sum = 0, th_urg = 0\<rparr>
      in tcp_cb_zero\<lparr>cb_used := True, cb_state := ESTABLISHED, cb_iface := Some 4, peer_addr := 6, snd_una := 101,
           snd_nxt := 102, snd_wnd := 10, cb_timeout := 1000, txq_snt := 1,
           cb_txq := [\<lparr>tq_seg = hdr, tq_data = [5], tq_len = 21, tq_time = (1, 0)\<rparr>,
                      \<lparr>tq_seg = hdr\<lparr>th_seq := hton32 Little 101\<rparr>, tq_data = [7], tq_len = 21, tq_time = (0, 0)\<rparr>]\<rparr>)"


section \<open>A round of the timer\<close>

text \<open>The effect on the table: a block keeps everything but its queue, or is closed; the others are untouched.\<close>

definition timer_rel :: "nat \<Rightarrow> 'a tcp_scheme \<Rightarrow> 'a tcp_scheme \<Rightarrow> bool" where
  "timer_rel i s s' \<longleftrightarrow>
     tcp_mutex s' = tcp_mutex s \<and> (\<forall>j. j \<noteq> i \<longrightarrow> cb_table s' j = cb_table s j) \<and>
     (tx_same i s s' \<or> cb_table s' i = (closed_cb (cb_table s i))\<lparr>cb_txq := []\<rparr>) \<and>
     (cb_ok (cb_table s i) \<longrightarrow> cb_ok (cb_table s' i))"

lemma tx_same_refl [simp]: "tx_same i s s"
  by (rule tx_sameI [where q = "cb_txq (cb_table s i)" and n = "txq_snt (cb_table s i)"]) simp

lemma timer_rel_refl [simp]: "timer_rel i s s"
  by (simp add: timer_rel_def)

lemma tcp_timer_send_effect:
  assumes "wait_keeps tcp_view wait"
  shows "postr (tcp_timer_send os wait i self peer now en s)
    (\<lambda>(en', s'). tcp_view s' = tcp_view s \<and> (txq_entry_ok en \<longrightarrow> txq_entry_ok en'))"
  unfolding tcp_timer_send_def Let_def
  by (auto intro!: postr_bindI dest!: tv.ip_tx_view [OF assms] simp: txq_entry_ok_def)

definition snt_only :: "nat \<Rightarrow> 'a tcp_scheme \<Rightarrow> 'a tcp_scheme \<Rightarrow> bool" where
  "snt_only i s s' \<longleftrightarrow> tcp_mutex s' = tcp_mutex s \<and> (\<exists>n. cb_table s' = (cb_table s)(i := (cb_table s i)\<lparr>txq_snt := n\<rparr>))"

lemma snt_onlyI: "tcp_mutex s' = tcp_mutex s \<Longrightarrow> cb_table s' = (cb_table s)(i := (cb_table s i)\<lparr>txq_snt := n\<rparr>) \<Longrightarrow> snt_only i s s'"
  unfolding snt_only_def by blast

lemma snt_only_view: "tcp_view t = tcp_view s \<Longrightarrow> snt_only i s t"
  by (rule snt_onlyI [where n = "txq_snt (cb_table s i)"]) (simp_all add: tcp_view_eq)

lemma snt_only_trans: "snt_only i s t \<Longrightarrow> snt_only i t u \<Longrightarrow> snt_only i s u"
  unfolding snt_only_def by force

lemma tcp_timer_txq_effect:
  assumes "wait_keeps tcp_view wait"
  shows "postr (tcp_timer_txq os wait i self peer now ahead q s)
    (\<lambda>(q', s'). snt_only i s s' \<and> ((\<forall>en \<in> set q. txq_entry_ok en) \<longrightarrow> (\<forall>en \<in> set q'. txq_entry_ok en)))"
proof (induction q arbitrary: ahead s)
  case Nil
  then show ?case by (simp add: snt_only_view)
next
  case (Cons en q)
  let ?P = "\<lambda>r. postr r (\<lambda>(q', s'). snt_only i s s' \<and>
       ((\<forall>en \<in> set (en # q). txq_entry_ok en) \<longrightarrow> (\<forall>en \<in> set q'. txq_entry_ok en)))"
  have step: "?P (bindr (tcp_timer_txq os wait i self peer now k q t) (\<lambda>(rest, s). Inr (en' # rest, s)))"
    if "tcp_view t = tcp_view s" "txq_entry_ok en \<longrightarrow> txq_entry_ok en'" for k t en'
    by (rule postr_bind_with [OF Cons.IH]) (use that(2) snt_only_trans [OF snt_only_view [OF that(1)]] in auto)
  define t where "t = upd_cb i (\<lambda>cb. cb\<lparr>txq_snt := txq_snt cb - of_nat (TCP_DATA_LEN (tq_seg en) (unat (tq_len en)))\<rparr>) s"
  have "snt_only i s t" unfolding t_def by (rule snt_onlyI) simp_all
  then have drop: "?P (tcp_timer_txq os wait i self peer now ahead q t)"
    by (intro postr_mono [OF Cons.IH]) (auto intro: snt_only_trans)
  have "postr (if tcp_timer_due (cb_table s i) ahead now en then tcp_timer_send os wait i self peer now en s else Inr (en, s))
      (\<lambda>(en', t). tcp_view t = tcp_view s \<and> (txq_entry_ok en \<longrightarrow> txq_entry_ok en'))"
    using tcp_timer_send_effect [OF assms] by simp
  then have "?P (bindr (if tcp_timer_due (cb_table s i) ahead now en then tcp_timer_send os wait i self peer now en s else Inr (en, s))
      (\<lambda>(en, s). bindr (tcp_timer_txq os wait i self peer now k q s) (\<lambda>(rest, s). Inr (en # rest, s))))" for k
    by (rule postr_bind_with) (clarify, rule step, assumption+)
  then show ?case
    using drop unfolding tcp_timer_txq.simps Let_def t_def [symmetric]
    by (cases "snd_una (cb_table s i) \<le> ntoh32 (os_endian os) (th_seq (tq_seg en))") (simp_all only: if_True if_False)
qed

text \<open>A block after its turn: closed when its time was over, in the same state otherwise.\<close>

definition timed :: "timeval \<Rightarrow> tcp_cb \<Rightarrow> tcp_cb \<Rightarrow> bool" where
  "timed now cb cb' \<longleftrightarrow> cb_used cb' = cb_used cb \<and>
     cb_state cb' = (if tcp_timer_expired now cb then CLOSED else cb_state cb)"

lemma tcp_timer_cb_effect:
  assumes "wait_keeps tcp_view wait"
  shows "postr (tcp_timer_cb os wait now i s) (\<lambda>s'. timer_rel i s s' \<and> timed now (cb_table s i) (cb_table s' i))"
proof -
  have close: "timer_rel i s (tcp_close_cb i s)" by (simp add: timer_rel_def cb_ok_def)
  have walk: "timer_rel i s (upd_cb i (\<lambda>cb. cb\<lparr>cb_txq := q\<rparr>) t) \<and>
      cb_state (cb_table t i) = cb_state (cb_table s i) \<and> cb_used (cb_table t i) = cb_used (cb_table s i)"
    if w: "tcp_timer_txq os wait i self peer now 0 (cb_txq (cb_table s i)) s = Inr (q, t)" for self peer q t
  proof -
    obtain n where t: "tcp_mutex t = tcp_mutex s" "cb_table t = (cb_table s)(i := (cb_table s i)\<lparr>txq_snt := n\<rparr>)"
      and ok: "(\<forall>en \<in> set (cb_txq (cb_table s i)). txq_entry_ok en) \<longrightarrow> (\<forall>en \<in> set q. txq_entry_ok en)"
      using postrD [OF tcp_timer_txq_effect [OF assms] w] unfolding snt_only_def by blast
    have "tx_same i s (upd_cb i (\<lambda>cb. cb\<lparr>cb_txq := q\<rparr>) t)"
      by (rule tx_sameI [where q = q and n = n]) (simp add: t(2))
    then show ?thesis using ok t by (simp add: timer_rel_def cb_ok_def)
  qed
  show ?thesis
  proof (rule postrI)
    fix s'
    assume "tcp_timer_cb os wait now i s = Inr s'"
    then consider (same) "s' = s" "cb_state (cb_table s i) = CLOSED \<or> \<not> tcp_timer_expired now (cb_table s i)"
      | (expired) "s' = tcp_close_cb i s" "tcp_timer_expired now (cb_table s i)"
      | (walked) self peer q t where "tcp_timer_txq os wait i self peer now 0 (cb_txq (cb_table s i)) s = Inr (q, t)"
        "s' = upd_cb i (\<lambda>cb. cb\<lparr>cb_txq := q\<rparr>) t" "\<not> tcp_timer_expired now (cb_table s i)"
      by (auto simp: tcp_timer_cb_def Let_def bindr_Inr_iff split: if_splits option.splits)
    then show "timer_rel i s s' \<and> timed now (cb_table s i) (cb_table s' i)"
    proof cases
      case walked
      then show ?thesis using walk [OF walked(1)] by (simp add: timed_def)
    qed (auto simp: timed_def intro: close)
  qed
qed

lemma tcp_timer_send_safe:
  assumes "arp_good s" "cb_iface (cb_table s i) = Some n" "netif_sane s n" "arp_rely wait" "txq_entry_ok en"
  shows "tx_safe s (tcp_timer_send os wait i self peer now en s)"
proof -
  let ?e = "os_endian os"
  define h where "h = (tq_seg en)\<lparr>th_ack := hton32 ?e (rcv_nxt (cb_table s i)), th_sum := 0\<rparr>"
  have len: "unat (tq_len en) \<le> 20 + length (tq_data en)"
    using assms(5) by (simp add: txq_entry_ok_def unat_of_nat del: of_nat_add)
  then obtain c where c: "tcp_checksum ?e self peer (enc_tcp_hdr ?e h @ tq_data en) (unat (tq_len en)) = Inr c"
    using tcp_checksum_runs by fastforce
  define seg where "seg = take (unat (tq_len en)) (enc_tcp_hdr ?e (h\<lparr>th_sum := c\<rparr>) @ tq_data en)"
  have "mem_read (enc_tcp_hdr ?e (h\<lparr>th_sum := c\<rparr>) @ tq_data en) 0 (unat (tq_len en)) = Inr seg"
    using len by (simp add: mem_read_def seg_def)
  then have eq: "tcp_timer_send os wait i self peer now en s =
      bindr (ip_tx os wait (Some n) 6 seg (peer_addr (cb_table s i)) s)
        (\<lambda>(_, s). Inr (en\<lparr>tq_seg := h\<lparr>th_sum := c\<rparr>, tq_time := now\<rparr>, s))"
    using c by (simp only: tcp_timer_send_def Let_def h_def [symmetric] assms(2)) simp
  show ?thesis
    unfolding eq by (rule tx_safe_bind [OF ip_tx_ok [OF assms(1,3,4)]]) simp
qed

lemma tcp_timer_txq_safe:
  assumes "arp_good s" "cb_iface (cb_table s i) = Some n" "netif_sane s n" "arp_rely wait" "wait_keeps tcp_view wait"
    and "\<forall>en \<in> set q. txq_entry_ok en"
  shows "tx_safe s (tcp_timer_txq os wait i self peer now ahead q s)"
  using assms
proof (induction q arbitrary: ahead s)
  case (Cons en q)
  have rest: "tx_safe t (bindr (tcp_timer_txq os wait i self peer now k q t) (\<lambda>(rest, s). Inr (en' # rest, s)))"
    if "arp_good t" "same_net s t" "cb_iface (cb_table t i) = Some n" for k en' t
  proof -
    have "netif_sane t n" using netif_sane_cong [OF that(2)] Cons.prems(3) by simp
    then show ?thesis using Cons that by (intro tx_safe_bind [OF Cons.IH]) auto
  qed
  define t where "t = upd_cb i (\<lambda>cb. cb\<lparr>txq_snt := txq_snt cb - of_nat (TCP_DATA_LEN (tq_seg en) (unat (tq_len en)))\<rparr>) s"
  have t: "same_net s t" "arp_good t" "cb_iface (cb_table t i) = Some n" using Cons.prems by (simp_all add: t_def)
  have drop: "tx_safe s (tcp_timer_txq os wait i self peer now ahead q t)"
    using Cons netif_sane_cong [OF t(1)] t by (intro tx_safe_trans [OF t(1) Cons.IH]) auto
  have send: "tx_safe s (bindr (tcp_timer_send os wait i self peer now en s) (\<lambda>(txq, s).
      bindr (tcp_timer_txq os wait i self peer now k q s) (\<lambda>(rest, s). Inr (txq # rest, s))))" for k
  proof (rule tx_safe_bind)
    show "tx_safe s (tcp_timer_send os wait i self peer now en s)" using Cons.prems by (intro tcp_timer_send_safe) auto
    fix en' t
    assume r: "tcp_timer_send os wait i self peer now en s = Inr (en', t)" "arp_good t" "same_net s t"
    have "cb_table t = cb_table s" using postrD [OF tcp_timer_send_effect [OF Cons.prems(5)] r(1)] by (simp add: tcp_view_eq)
    then show "tx_safe t (bindr (tcp_timer_txq os wait i self peer now k q t) (\<lambda>(rest, s). Inr (en' # rest, s)))"
      using rest [OF r(2,3)] Cons.prems(2) by simp
  qed
  show ?case
    using drop send rest [OF Cons.prems(1) same_net_refl Cons.prems(2)] by (simp add: Let_def t_def [symmetric])
qed simp

text \<open>A block the timer can serve: if it has queued segments, its interface is usable.\<close>

definition timer_ready :: "'a net_scheme \<Rightarrow> tcp_cb \<Rightarrow> bool" where
  "timer_ready s cb \<longleftrightarrow> cb_ok cb \<and> (cb_state cb \<noteq> CLOSED \<and> cb_txq cb \<noteq> [] \<longrightarrow> (\<exists>n. cb_iface cb = Some n \<and> netif_sane s n))"

lemma tcp_timer_cb_safe:
  assumes "arp_good s" "timer_ready s (cb_table s i)" "arp_rely wait" "wait_keeps tcp_view wait"
  shows "run_safe s (tcp_timer_cb os wait now i s)"
proof (cases "cb_state (cb_table s i) = CLOSED \<or> tcp_timer_expired now (cb_table s i) \<or> cb_txq (cb_table s i) = []")
  case True
  then show ?thesis using assms(1) by (auto simp: tcp_timer_cb_def Let_def tcp_close_cb_def tcp_txq_clear_all_def)
next
  case False
  then obtain n where n: "cb_iface (cb_table s i) = Some n" "netif_sane s n" using assms(2) by (auto simp: timer_ready_def)
  obtain iface where "net_ifs s n = Some iface" by (rule netif_saneE [OF n(2)])
  moreover have "tx_safe s (tcp_timer_txq os wait i self peer now 0 (cb_txq (cb_table s i)) s)" for self peer
    using assms n by (intro tcp_timer_txq_safe) (auto simp: timer_ready_def cb_ok_def)
  ultimately show ?thesis
    using False n(1) by (auto simp: tcp_timer_cb_def Let_def intro!: run_safe_bind_tx)
qed

definition turned :: "timeval \<Rightarrow> tcp_cb \<Rightarrow> tcp_cb \<Rightarrow> bool" where
  "turned now cb cb' \<longleftrightarrow> timed now cb cb' \<and> (cb_ok cb \<longrightarrow> cb_ok cb')"

lemma tcp_timer_cb_turn:
  assumes "wait_keeps tcp_view wait" "tcp_timer_cb os wait now i s = Inr t"
  shows "tcp_mutex t = tcp_mutex s" "turned now (cb_table s i) (cb_table t i)" "j \<noteq> i \<Longrightarrow> cb_table t j = cb_table s j"
  using postrD [OF tcp_timer_cb_effect [OF assms(1)] assms(2)] by (simp_all add: timer_rel_def turned_def)

lemma tcp_timer_loop_effect:
  assumes "wait_keeps tcp_view wait" "distinct is" "tcp_timer_loop os wait now is s = Inr s'"
  shows "tcp_mutex s' = tcp_mutex s \<and> (\<forall>j \<in> set is. turned now (cb_table s j) (cb_table s' j)) \<and>
    (\<forall>j. j \<notin> set is \<longrightarrow> cb_table s' j = cb_table s j)"
  using assms(2,3)
proof (induction "is" arbitrary: s)
  case (Cons i "is")
  then obtain t where t: "tcp_timer_cb os wait now i s = Inr t" "tcp_timer_loop os wait now is t = Inr s'"
    by (auto simp: bindr_Inr_iff)
  note turn = tcp_timer_cb_turn [OF assms(1) t(1)]
  note rest = Cons.IH [OF _ t(2)]
  have "turned now (cb_table s j) (cb_table s' j)" if "j \<in> set (i # is)" for j
  proof (cases "j = i")
    case True
    then show ?thesis using rest turn(2) Cons.prems(1) by simp
  next
    case False
    then show ?thesis using rest turn(3) [of j] Cons.prems(1) that by auto
  qed
  moreover have "cb_table s' j = cb_table s j" if "j \<notin> set (i # is)" for j
    using rest turn(3) [of j] Cons.prems(1) that by simp
  ultimately show ?case using rest turn(1) Cons.prems(1) by simp
qed simp

lemma timer_ready_cong: "same_net s s' \<Longrightarrow> timer_ready s' cb = timer_ready s cb"
  by (simp add: timer_ready_def netif_sane_cong)

lemma tcp_timer_loop_safe:
  assumes "arp_good s" "\<forall>i \<in> set is. timer_ready s (cb_table s i)" "arp_rely wait" "wait_keeps tcp_view wait" "distinct is"
  shows "run_safe s (tcp_timer_loop os wait now is s)"
  using assms
proof (induction "is" arbitrary: s)
  case Nil
  then show ?case by (simp only: tcp_timer_loop.simps run_safe_simps same_net_refl)
next
  case (Cons i "is")
  show ?case
    unfolding tcp_timer_loop.simps
  proof (rule run_safe_bind)
    show "run_safe s (tcp_timer_cb os wait now i s)" 
      by (rule tcp_timer_cb_safe [OF Cons.prems(1) _ Cons.prems(3,4)]) (use Cons.prems(2) in simp)
    fix t
    assume t: "tcp_timer_cb os wait now i s = Inr t" "arp_good t" "same_net s t"
    have "timer_ready t (cb_table t j)" if "j \<in> set is" for j
    proof -
      have "j \<noteq> i" using that Cons.prems(5) by (metis distinct.simps(2))
      then show ?thesis
        using Cons.prems(2) timer_ready_cong [OF t(3)] tcp_timer_cb_turn(3) [OF Cons.prems(4) t(1), of j] that by simp
    qed
    then have "\<forall>j \<in> set is. timer_ready t (cb_table t j)" by blast
    from Cons.IH [OF t(2) this Cons.prems(3,4)] Cons.prems(5) show "run_safe t (tcp_timer_loop os wait now is t)" by simp
  qed
qed



end
