(* ===== verification/Tcpapi.thy ===== *)
theory Tcpapi
  imports Tcptimer
begin

unbundle bit_operations_syntax

text \<open>
  The application interface of \<open>tcp.c\<close>. A call that waits on a condition variable gives up the
  mutex, so what the other threads do meanwhile is a parameter: \<open>others\<close> lists, for one wait after
  the other, the change they make to the state. When the list is used up the call is still waiting
  (\<open>Blocked\<close>). A socket is the index of its control block.
\<close>

abbreviation (input) TCP_SND_BUF_SIZE :: u32 where "TCP_SND_BUF_SIZE \<equiv> 10240"
abbreviation (input) TCP_SOURCE_PORT_MIN :: int where "TCP_SOURCE_PORT_MIN \<equiv> 49152"
abbreviation (input) TCP_SOURCE_PORT_MAX :: nat where "TCP_SOURCE_PORT_MAX \<equiv> 65535"
abbreviation (input) IP_HDR_SIZE_MAX :: int where "IP_HDR_SIZE_MAX \<equiv> 60"

definition TCP_SOCKET_INVALID :: "int \<Rightarrow> bool" where
  "TCP_SOCKET_INVALID x \<longleftrightarrow> x < 0 \<or> x \<ge> int TCP_CB_TABLE_SIZE"

definition cond_wait :: "('a tcp_scheme \<Rightarrow> 'a tcp_scheme) \<Rightarrow> 'a tcp_scheme \<Rightarrow> 'a tcp_scheme res" where
  "cond_wait others s = tcp_lock (others (tcp_unlock s))"

section \<open>Opening and closing\<close>

definition tcp_api_open :: "'a tcp_scheme \<Rightarrow> (int \<times> 'a tcp_scheme) res" where
  "tcp_api_open s =
     bindr (tcp_lock s) (\<lambda>s.
     case find (\<lambda>i. IS_FREE_CB (cb_table s i)) [0..<TCP_CB_TABLE_SIZE] of
       Some i \<Rightarrow> Inr (int i, tcp_unlock (upd_cb i (\<lambda>cb. cb\<lparr>cb_used := True\<rparr>) s))
     | None \<Rightarrow> Inr (-1, tcp_unlock s))"

text \<open>
  \<open>tcp_close\<close> calls itself for the connections in the backlog of a listener. The depth of the
  recursion is bounded by \<open>fuel\<close>; the entry point passes \<open>close_fuel\<close>, which is enough.
\<close>

definition tcp_close_fin ::
  "os \<Rightarrow> 'a tcp_scheme waits \<Rightarrow> nat \<Rightarrow> timeval \<Rightarrow> tcp_state \<Rightarrow> 'a tcp_scheme \<Rightarrow> (int \<times> 'a tcp_scheme) res" where
  "tcp_close_fin os wait i now state s =
     bindr (tcp_reply os wait i (snd_nxt (cb_table s i)) (rcv_nxt (cb_table s i)) (TCP_FLG_FIN OR TCP_FLG_ACK) now s) (\<lambda>s.
     Inr (0, upd_cb i (\<lambda>cb. cb\<lparr>snd_nxt := snd_nxt cb + 1, cb_state := state\<rparr>) s))"

fun tcp_close :: "nat \<Rightarrow> os \<Rightarrow> 'a tcp_scheme waits \<Rightarrow> nat \<Rightarrow> 'a tcp_scheme \<Rightarrow> (int \<times> 'a tcp_scheme) res"
  and tcp_close_backlog :: "nat \<Rightarrow> os \<Rightarrow> 'a tcp_scheme waits \<Rightarrow> nat \<Rightarrow> 'a tcp_scheme \<Rightarrow> 'a tcp_scheme res" where
  "tcp_close 0 os wait i s = Inl NoReturn"
| "tcp_close (Suc fuel) os wait i s =
     (if \<not> cb_used (cb_table s i) then Inr (-1, s) else
      let s = upd_cb i (\<lambda>cb. cb\<lparr>cb_used := False\<rparr>) s; (now, s) = sys_timeofday os s in
      case now of
        None \<Rightarrow> Inr (-1, s)
      | Some now \<Rightarrow>
          (case cb_state (cb_table s i) of
             CLOSED \<Rightarrow> Inr (0, s)
           | LISTEN \<Rightarrow> bindr (tcp_close_backlog fuel os wait i s) (\<lambda>s. Inr (0, tcp_close_cb i s))
           | SYN_SENT \<Rightarrow> Inr (0, tcp_close_cb i s)
           | SYN_RCVD \<Rightarrow> tcp_close_fin os wait i now FIN_WAIT1 s
           | ESTABLISHED \<Rightarrow> tcp_close_fin os wait i now FIN_WAIT1 s
           | CLOSE_WAIT \<Rightarrow> tcp_close_fin os wait i now CLOSING s
           | _ \<Rightarrow> Inr (-1, s)))"
| "tcp_close_backlog 0 os wait i s = Inl NoReturn"
| "tcp_close_backlog (Suc fuel) os wait i s =
     (case cb_backlog (cb_table s i) of
        [] \<Rightarrow> Inr s
      | b # bs \<Rightarrow>
          bindr (tcp_close fuel os wait b (upd_cb i (\<lambda>cb. cb\<lparr>cb_backlog := bs\<rparr>) s)) (\<lambda>(_, s).
          tcp_close_backlog fuel os wait i s))"

definition backlogs :: "'a tcp_scheme \<Rightarrow> nat" where
  "backlogs s = (\<Sum>i < TCP_CB_TABLE_SIZE. length (cb_backlog (cb_table s i)))"

definition close_fuel :: "'a tcp_scheme \<Rightarrow> nat" where
  "close_fuel s = 2 * backlogs s + 2"

definition tcp_api_close :: "os \<Rightarrow> 'a tcp_scheme waits \<Rightarrow> int \<Rightarrow> 'a tcp_scheme \<Rightarrow> (int \<times> 'a tcp_scheme) res" where
  "tcp_api_close os wait soc s =
     (if TCP_SOCKET_INVALID soc then Inr (-1, s) else
      bindr (tcp_lock s) (\<lambda>s.
      bindr (tcp_close (close_fuel s) os wait (nat soc) s) (\<lambda>(ret, s).
      Inr (ret, tcp_unlock s))))"

section \<open>Connecting\<close>

definition tcp_port_unused :: "endian \<Rightarrow> (nat \<Rightarrow> tcp_cb) \<Rightarrow> nat \<Rightarrow> bool" where
  "tcp_port_unused e tbl p \<longleftrightarrow>
     find (\<lambda>j. \<not> IS_FREE_CB (tbl j) \<and> cb_port (tbl j) = hton16 e (of_nat p)) [0..<TCP_CB_TABLE_SIZE] = None"

definition tcp_connect_port :: "os \<Rightarrow> nat \<Rightarrow> 'a tcp_scheme \<Rightarrow> bool \<times> 'a tcp_scheme" where
  "tcp_connect_port os i s =
     (if cb_port (cb_table s i) \<noteq> 0 then (True, s) else
      let (t, s) = sys_time os s; offset = sgn t * (\<bar>t\<bar> mod 1024) in
      case find (tcp_port_unused (os_endian os) (cb_table s)) [nat (TCP_SOURCE_PORT_MIN + offset)..<Suc TCP_SOURCE_PORT_MAX] of
        Some p \<Rightarrow> (True, upd_cb i (\<lambda>cb. cb\<lparr>cb_port := hton16 (os_endian os) (of_nat p)\<rparr>) s)
      | None \<Rightarrow> (False, s))"

text \<open>
  Up to the wait. The first component is False for a return of -1; the one return of -1 that does
  not release the mutex is the failure of \<open>gettimeofday\<close>.
\<close>

definition tcp_connect_start ::
  "os \<Rightarrow> 'a tcp_scheme waits \<Rightarrow> nat \<Rightarrow> u32 \<Rightarrow> u16 \<Rightarrow> 'a tcp_scheme \<Rightarrow> (bool \<times> 'a tcp_scheme) res" where
  "tcp_connect_start os wait i addr port s =
     (if \<not> cb_used (cb_table s i) \<or> cb_state (cb_table s i) \<noteq> CLOSED then Inr (False, tcp_unlock s) else
      let (now, s) = sys_timeofday os s in
      case now of
        None \<Rightarrow> Inr (False, s)
      | Some now \<Rightarrow>
          let (ok, s) = tcp_connect_port os i s in
          if \<not> ok then Inr (False, tcp_unlock s) else
          let s = upd_cb i (\<lambda>cb. cb\<lparr>peer_addr := addr, peer_port := hton16 (os_endian os) port,
                     cb_iface := ip_netif_by_peer addr s\<rparr>) s in
          if cb_iface (cb_table s i) = None then Inr (False, tcp_unlock s) else
          let (iss, s) = sys_random os s;
              s = upd_cb i (\<lambda>cb. cb\<lparr>rcv_wnd := of_nat TCP_WINDOW_SIZE, cb_iss := iss\<rparr>) s in
          bindr (tcp_tx os wait i iss 0 TCP_FLG_SYN now [] s) (\<lambda>(r, s).
          if r = -1 then Inr (False, tcp_unlock s)
          else Inr (True, upd_cb i (\<lambda>cb. cb\<lparr>snd_una := cb_iss cb, snd_nxt := cb_iss cb + 1,
                            cb_timeout := fst now + USER_TIMEOUT, cb_state := SYN_SENT\<rparr>) s)))"

fun tcp_connect_wait ::
  "('a tcp_scheme \<Rightarrow> 'a tcp_scheme) list \<Rightarrow> nat \<Rightarrow> 'a tcp_scheme \<Rightarrow> 'a tcp_scheme res" where
  "tcp_connect_wait [] i s = (if cb_state (cb_table s i) \<noteq> SYN_SENT then Inr s else Inl Blocked)"
| "tcp_connect_wait (other # others) i s =
     (if cb_state (cb_table s i) \<noteq> SYN_SENT then Inr s
      else bindr (cond_wait other s) (\<lambda>s. tcp_connect_wait others i s))"

definition tcp_api_connect ::
  "os \<Rightarrow> 'a tcp_scheme waits \<Rightarrow> ('a tcp_scheme \<Rightarrow> 'a tcp_scheme) list \<Rightarrow> int \<Rightarrow> u32 \<Rightarrow> u16 \<Rightarrow> 'a tcp_scheme \<Rightarrow>
     (int \<times> 'a tcp_scheme) res" where
  "tcp_api_connect os wait others soc addr port s =
     (if TCP_SOCKET_INVALID soc then Inr (-1, s) else
      bindr (tcp_lock s) (\<lambda>s.
      bindr (tcp_connect_start os wait (nat soc) addr port s) (\<lambda>(go, s).
      if \<not> go then Inr (-1, s)
      else bindr (tcp_connect_wait others (nat soc) s) (\<lambda>s. Inr (0, tcp_unlock s)))))"

section \<open>Passive opening\<close>

definition tcp_api_bind :: "endian \<Rightarrow> int \<Rightarrow> u16 \<Rightarrow> 'a tcp_scheme \<Rightarrow> (int \<times> 'a tcp_scheme) res" where
  "tcp_api_bind e soc port s =
     (if TCP_SOCKET_INVALID soc then Inr (-1, s) else
      bindr (tcp_lock s) (\<lambda>s.
      if list_ex (\<lambda>i. cb_port (cb_table s i) = hton16 e port) [0..<TCP_CB_TABLE_SIZE] then Inr (-1, tcp_unlock s) else
      let cb = cb_table s (nat soc) in
      if \<not> cb_used cb \<or> cb_state cb \<noteq> CLOSED then Inr (-1, tcp_unlock s)
      else Inr (0, tcp_unlock (upd_cb (nat soc) (\<lambda>cb. cb\<lparr>cb_port := hton16 e port\<rparr>) s))))"

definition tcp_api_listen :: "int \<Rightarrow> 'a tcp_scheme \<Rightarrow> (int \<times> 'a tcp_scheme) res" where
  "tcp_api_listen soc s =
     (if TCP_SOCKET_INVALID soc then Inr (-1, s) else
      bindr (tcp_lock s) (\<lambda>s.
      let cb = cb_table s (nat soc) in
      if \<not> cb_used cb \<or> cb_state cb \<noteq> CLOSED \<or> cb_port cb = 0 then Inr (-1, tcp_unlock s)
      else Inr (0, tcp_unlock (upd_cb (nat soc) (\<lambda>cb. cb\<lparr>cb_state := LISTEN\<rparr>) s))))"

definition tcp_accept_try :: "nat \<Rightarrow> 'a tcp_scheme \<Rightarrow> nat option option \<times> 'a tcp_scheme" where
  "tcp_accept_try i s =
     (if cb_state (cb_table s i) \<noteq> LISTEN then (Some None, s) else
      case cb_backlog (cb_table s i) of
        b # bs \<Rightarrow> (Some (Some b), upd_cb i (\<lambda>cb. cb\<lparr>cb_backlog := bs\<rparr>) s)
      | [] \<Rightarrow> (None, s))"

fun tcp_accept_wait ::
  "('a tcp_scheme \<Rightarrow> 'a tcp_scheme) list \<Rightarrow> nat \<Rightarrow> 'a tcp_scheme \<Rightarrow> (nat option \<times> 'a tcp_scheme) res" where
  "tcp_accept_wait [] i s =
     (case tcp_accept_try i s of (Some backlog, s) \<Rightarrow> Inr (backlog, s) | (None, s) \<Rightarrow> Inl Blocked)"
| "tcp_accept_wait (other # others) i s =
     (case tcp_accept_try i s of
        (Some backlog, s) \<Rightarrow> Inr (backlog, s)
      | (None, s) \<Rightarrow> bindr (cond_wait other s) (\<lambda>s. tcp_accept_wait others i s))"

definition tcp_api_accept ::
  "('a tcp_scheme \<Rightarrow> 'a tcp_scheme) list \<Rightarrow> int \<Rightarrow> 'a tcp_scheme \<Rightarrow> (int \<times> 'a tcp_scheme) res" where
  "tcp_api_accept others soc s =
     (if TCP_SOCKET_INVALID soc then Inr (-1, s) else
      bindr (tcp_lock s) (\<lambda>s.
      let cb = cb_table s (nat soc) in
      if \<not> cb_used cb \<or> cb_state cb \<noteq> LISTEN then Inr (-1, tcp_unlock s) else
      bindr (tcp_accept_wait others (nat soc) s) (\<lambda>(backlog, s).
      case backlog of
        None \<Rightarrow> Inr (-1, tcp_unlock s)
      | Some b \<Rightarrow> Inr (int b, tcp_unlock (upd_cb b (\<lambda>cb. cb\<lparr>cb_used := True\<rparr>) s)))))"

section \<open>Receiving\<close>

text \<open>The bytes come from the front of the window buffer; the rest moves up. The result carries the bytes copied.\<close>

definition tcp_recv_copy :: "nat \<Rightarrow> nat \<Rightarrow> 'a tcp_scheme \<Rightarrow> (int \<times> bytes \<times> 'a tcp_scheme) res" where
  "tcp_recv_copy i want s =
     (let cb = cb_table s i; avail = TCP_WINDOW_SIZE - unat (rcv_wnd cb); len = (if avail > want then want else avail) in
      bindr (mem_read (cb_window cb) 0 len) (\<lambda>buf.
      bindr (mem_read (cb_window cb) len (avail - len)) (\<lambda>tail.
      bindr (mem_write (cb_window cb) 0 tail) (\<lambda>window.
      Inr (int len, buf, upd_cb i (\<lambda>cb. cb\<lparr>cb_window := window, rcv_wnd := rcv_wnd cb + of_nat len\<rparr>) s)))))"

text \<open>One pass from \<open>TCP_RECEIVE_RETRY\<close>; \<open>None\<close> for a wait.\<close>

definition tcp_recv_try :: "nat \<Rightarrow> nat \<Rightarrow> 'a tcp_scheme \<Rightarrow> ((int \<times> bytes) option \<times> 'a tcp_scheme) res" where
  "tcp_recv_try i want s =
     (let cb = cb_table s i in
      if cb_state cb \<notin> {CLOSE_WAIT, ESTABLISHED, FIN_WAIT1, FIN_WAIT2} then Inr (Some (-1, []), s)
      else if TCP_WINDOW_SIZE - unat (rcv_wnd cb) = 0
      then Inr (if cb_state cb = CLOSE_WAIT then Some (-1, []) else None, s)
      else bindr (tcp_recv_copy i want s) (\<lambda>(len, buf, s). Inr (Some (len, buf), s)))"

fun tcp_recv_loop ::
  "('a tcp_scheme \<Rightarrow> 'a tcp_scheme) list \<Rightarrow> nat \<Rightarrow> nat \<Rightarrow> 'a tcp_scheme \<Rightarrow> (int \<times> bytes \<times> 'a tcp_scheme) res" where
  "tcp_recv_loop [] i want s =
     bindr (tcp_recv_try i want s) (\<lambda>(r, s). case r of Some (len, buf) \<Rightarrow> Inr (len, buf, s) | None \<Rightarrow> Inl Blocked)"
| "tcp_recv_loop (other # others) i want s =
     bindr (tcp_recv_try i want s) (\<lambda>(r, s).
     case r of
       Some (len, buf) \<Rightarrow> Inr (len, buf, s)
     | None \<Rightarrow> bindr (cond_wait other s) (\<lambda>s. tcp_recv_loop others i want s))"

definition tcp_api_recv ::
  "('a tcp_scheme \<Rightarrow> 'a tcp_scheme) list \<Rightarrow> int \<Rightarrow> nat \<Rightarrow> 'a tcp_scheme \<Rightarrow> (int \<times> bytes \<times> 'a tcp_scheme) res" where
  "tcp_api_recv others soc want s =
     (if TCP_SOCKET_INVALID soc then Inr (-1, [], s) else
      bindr (tcp_lock s) (\<lambda>s.
      if \<not> cb_used (cb_table s (nat soc)) then Inr (-1, [], tcp_unlock s) else
      bindr (tcp_recv_loop others (nat soc) want s) (\<lambda>(len, buf, s).
      Inr (len, buf, tcp_unlock s))))"

section \<open>Sending\<close>

text \<open>
  One pass from \<open>TCP_API_SEND_NEXT\<close>: the ways it can end are the error return, the failure of
  \<open>gettimeofday\<close>, nothing left to send, the wait for an acknowledgement, the failure of \<open>tcp_tx\<close>,
  and a segment of some size.
\<close>

datatype send_end = SendError | SendNoTime | SendDone | SendWait | SendFail | SendNext nat

definition tcp_send_room :: "u16 \<Rightarrow> nat \<Rightarrow> nat" where
  "tcp_send_room mtu len =
     (let sz = size_of_int (int (unat mtu) - IP_HDR_SIZE_MAX - 20) in if len < sz then len else sz)"

definition tcp_send_wnd :: "tcp_cb \<Rightarrow> u16" where
  "tcp_send_wnd cb = ucast (TCP_SND_BUF_SIZE - (snd_nxt cb - snd_una cb))"

definition tcp_send_pass ::
  "os \<Rightarrow> 'a tcp_scheme waits \<Rightarrow> nat \<Rightarrow> bytes \<Rightarrow> 'a tcp_scheme \<Rightarrow> (send_end \<times> 'a tcp_scheme) res" where
  "tcp_send_pass os wait i buf s =
     (let cb = cb_table s i in
      if cb_state cb \<notin> {CLOSE_WAIT, ESTABLISHED} then Inr (SendError, s) else
      let (now, s) = sys_timeofday os s in
      case now of
        None \<Rightarrow> Inr (SendNoTime, s)
      | Some now \<Rightarrow>
          if buf = [] then Inr (SendDone, s) else
          (case cb_iface cb of
             None \<Rightarrow> Inl NullDeref
           | Some n \<Rightarrow>
               bindr (netif_dev n s) (\<lambda>(_, dev).
               let room = tcp_send_room (nd_mtu dev) (length buf); wnd = tcp_send_wnd cb in
               if unat wnd < room \<and> wnd = 0 then Inr (SendWait, s) else
               let sz = (if unat wnd < room then unat wnd else room) in
               bindr (tcp_tx os wait i (snd_nxt cb) (rcv_nxt cb) (TCP_FLG_PSH OR TCP_FLG_ACK) now (take sz buf) s) (\<lambda>(r, s).
               if r = -1 then Inr (SendFail, s)
               else Inr (SendNext sz, upd_cb i (\<lambda>cb. cb\<lparr>cb_timeout := fst now + USER_TIMEOUT,
                           snd_nxt := snd_nxt cb + of_nat sz\<rparr>) s)))))"

text \<open>
  The passes. \<open>fuel\<close> bounds their number: every pass but a wait sends at least one byte, unless the
  MTU leaves no room at all. The failure of \<open>tcp_tx\<close> returns without releasing the mutex.
\<close>

fun tcp_send_loop ::
  "nat \<Rightarrow> os \<Rightarrow> 'a tcp_scheme waits \<Rightarrow> ('a tcp_scheme \<Rightarrow> 'a tcp_scheme) list \<Rightarrow> nat \<Rightarrow> bytes \<Rightarrow> nat \<Rightarrow> 'a tcp_scheme \<Rightarrow>
     (int \<times> 'a tcp_scheme) res" where
  "tcp_send_loop 0 os wait others i buf snt s = Inl NoReturn"
| "tcp_send_loop (Suc fuel) os wait others i buf snt s =
     bindr (tcp_send_pass os wait i buf s) (\<lambda>(out, s).
     case out of
       SendError \<Rightarrow> Inr (-1, tcp_unlock s)
     | SendNoTime \<Rightarrow> Inr (if snt = 0 then -1 else int snt, tcp_unlock s)
     | SendDone \<Rightarrow> Inr (int snt, tcp_unlock s)
     | SendWait \<Rightarrow>
         (case others of
            [] \<Rightarrow> Inl Blocked
          | other # rest \<Rightarrow> bindr (cond_wait other s) (\<lambda>s. tcp_send_loop fuel os wait rest i buf snt s))
     | SendFail \<Rightarrow> Inr (int snt, s)
     | SendNext sz \<Rightarrow>
         if drop sz buf \<noteq> [] then tcp_send_loop fuel os wait others i (drop sz buf) (snt + sz) s
         else Inr (int (snt + sz), tcp_unlock s))"

definition tcp_api_send ::
  "os \<Rightarrow> 'a tcp_scheme waits \<Rightarrow> ('a tcp_scheme \<Rightarrow> 'a tcp_scheme) list \<Rightarrow> int \<Rightarrow> bytes \<Rightarrow> 'a tcp_scheme \<Rightarrow>
     (int \<times> 'a tcp_scheme) res" where
  "tcp_api_send os wait others soc buf s =
     (if TCP_SOCKET_INVALID soc then Inr (-1, s) else
      bindr (tcp_lock s) (\<lambda>s.
      if \<not> cb_used (cb_table s (nat soc)) then Inr (-1, tcp_unlock s) else
      tcp_send_loop (Suc (length buf + length others)) os wait others (nat soc) buf 0 s))"

section \<open>Starting\<close>

definition tcp_init :: "os \<Rightarrow> 'a tcp_scheme \<Rightarrow> (int \<times> 'a tcp_scheme) res" where
  "tcp_init os s =
     bindr (ip_add_protocol os IP_PROTOCOL_TCP tcp_rx_handler (s\<lparr>tcp_mutex := False\<rparr>)) (\<lambda>(r, s).
     if r = -1 then Inr (-1, s) else
     let (r, s) = sys_call os s in Inr (if r = -1 then -1 else 0, s))"

end
