(* ===== verification/Tcpinv.thy ===== *)
theory Tcpinv
  imports Tcpapi
begin

unbundle bit_operations_syntax

text \<open>
  TCP as a state machine: the arrival of a segment, the rounds of the timer and the sections the
  calls of the application run under the mutex are the steps; an invariant of the table of control
  blocks holds in every state they reach.
\<close>

section \<open>The invariant\<close>

definition cbs_ok :: "(nat \<Rightarrow> tcp_cb) \<Rightarrow> bool" where
  "cbs_ok tbl \<longleftrightarrow>
     (\<forall>i. cb_ok (tbl i) \<and> cb_state (tbl i) \<noteq> LAST_ACK \<and> (\<forall>b \<in> set (cb_backlog (tbl i)). b < TCP_CB_TABLE_SIZE))"

lemma cbs_okD:
  assumes "cbs_ok tbl"
  shows "cb_ok (tbl i)" "cb_state (tbl i) \<noteq> LAST_ACK" "b \<in> set (cb_backlog (tbl i)) \<Longrightarrow> b < TCP_CB_TABLE_SIZE"
  using assms by (auto simp: cbs_ok_def)

lemma cbs_ok_upd:
  assumes "cbs_ok tbl" "cb_ok cb" "cb_state cb \<noteq> LAST_ACK" "set (cb_backlog cb) \<subseteq> set (cb_backlog (tbl i))"
  shows "cbs_ok (tbl(i := cb))"
  using assms by (auto simp: cbs_ok_def)

lemma seg_rel_cbs:
  assumes "seg_rel i s s'" "i < TCP_CB_TABLE_SIZE" "cbs_ok (cb_table s)"
  shows "cbs_ok (cb_table s')"
proof -
  have other: "other_rel i (cb_table s j) (cb_table s' j)" if "j \<noteq> i" for j
    using assms(1) that by (simp add: seg_rel_def)
  have "cb_ok (cb_table s' j) \<and> cb_state (cb_table s' j) \<noteq> LAST_ACK \<and>
      set (cb_backlog (cb_table s' j)) \<subseteq> insert i (set (cb_backlog (cb_table s j)))" for j
  proof (cases "j = i")
    case True
    have "tcp_moves\<^sup>*\<^sup>* (cb_state (cb_table s i)) (cb_state (cb_table s' i))" using assms(1) by (simp add: seg_rel_def)
    from moves_never [OF this] have "cb_state (cb_table s' i) \<noteq> LAST_ACK" using cbs_okD(2) [OF assms(3), of i] by auto
    then show ?thesis using assms(1) True cbs_okD(1) [OF assms(3), of i] by (simp add: seg_rel_def)
  next
    case False
    from other_relD [OF other [OF this]] show ?thesis using cbs_okD(1,2) [OF assms(3), of j] by simp
  qed
  then show ?thesis using assms(2,3) unfolding cbs_ok_def by blast
qed

lemma timer_rel_cbs:
  assumes "timer_rel i s s'" "cbs_ok (cb_table s)"
  shows "cbs_ok (cb_table s')"
proof -
  have t: "cb_table s' = (cb_table s)(i := cb_table s' i)" using assms(1) by (auto simp: timer_rel_def)
  have "cb_ok (cb_table s' i)" using assms(1) cbs_okD(1) [OF assms(2), of i] by (simp add: timer_rel_def)
  moreover have "cb_state (cb_table s' i) \<noteq> LAST_ACK" "cb_backlog (cb_table s' i) = cb_backlog (cb_table s i)"
    using assms(1) cbs_okD(2) [OF assms(2), of i] by (auto simp: timer_rel_def dest: tx_sameD(1) tx_sameD(12))
  ultimately show ?thesis using cbs_ok_upd [OF assms(2), of "cb_table s' i" i] by (subst t) simp
qed

section \<open>Every operation keeps it\<close>

lemma scan_results:
  assumes "tcp_rx_scan tbl iface src hdr is None None = (hit, free, lis)"
  shows "hit = Some i \<Longrightarrow> i \<in> set is" "hit = None \<Longrightarrow> free = Some i \<Longrightarrow> i \<in> set is \<and> IS_FREE_CB (tbl i)"
    "hit = None \<Longrightarrow> lis = Some i \<Longrightarrow> i \<in> set is \<and> cb_state (tbl i) = LISTEN"
proof -
  have f: "find (scan_hit tbl iface src hdr) is = hit" using scan_found [of tbl iface src hdr "is" None None] assms by simp
  then show "hit = Some i \<Longrightarrow> i \<in> set is" by (auto simp: find_Some_iff)
  show "hit = None \<Longrightarrow> free = Some i \<Longrightarrow> i \<in> set is \<and> IS_FREE_CB (tbl i)"
    "hit = None \<Longrightarrow> lis = Some i \<Longrightarrow> i \<in> set is \<and> cb_state (tbl i) = LISTEN"
    using scan_missed [of tbl iface src hdr "is" None None] f assms by (auto simp: find_Some_iff find_Some_iff2)
qed

lemma tcp_rx_new_cbs:
  assumes "cbs_ok (cb_table s)" "IS_FREE_CB (cb_table s i)" "\<And>l. lis = Some l \<Longrightarrow> cb_state (cb_table s l) = LISTEN"
  shows "cbs_ok (cb_table (tcp_rx_new i iface lis src sport s))"
proof -
  have "cb_ok (cb_table s i)" "cb_state (cb_table s i) = CLOSED" using assms cbs_okD(1) by (auto simp: IS_FREE_CB_def)
  then show ?thesis
    using assms(1,3) by (auto simp: tcp_rx_new_def cb_ok_def intro!: cbs_ok_upd split: option.splits)
qed

lemma segment_arrives_cbs:
  assumes "wait_keeps tcp_view wait" "cbs_ok (cb_table s)" "i < TCP_CB_TABLE_SIZE"
  shows "postr (tcp_event_segment_arrives os wait i hdr segment len s) (\<lambda>s'. cbs_ok (cb_table s'))"
  by (rule postr_mono [OF segment_arrives_rel [OF assms(1)]]) (use seg_rel_cbs assms in blast)

lemma tcp_lock_Inr: "tcp_lock s = Inr t \<longleftrightarrow> \<not> tcp_mutex s \<and> t = s\<lparr>tcp_mutex := True\<rparr>"
  by (auto simp: tcp_lock_def)

lemma tcp_unlock_simps [simp]: "cb_table (tcp_unlock s) = cb_table s" "tcp_mutex (tcp_unlock s) = False"
  by (simp_all add: tcp_unlock_def)

lemma tcp_rx_cbs:
  assumes w: "wait_keeps tcp_view wait" and ok: "cbs_ok (cb_table s)"
  shows "postr (tcp_rx os wait segment len src dst iface s) (\<lambda>s'. cbs_ok (cb_table s'))"
proof -
  have go: "postr (bindr (tcp_event_segment_arrives os wait i hdr segment len t) (\<lambda>s. Inr (tcp_unlock s))) (\<lambda>s'. cbs_ok (cb_table s'))"
    if "cbs_ok (cb_table t)" "i < TCP_CB_TABLE_SIZE" for i hdr t
    by (rule postr_bind_with [OF segment_arrives_cbs [OF w that]]) simp
  have "postr (case tcp_rx_scan (cb_table s) iface src hdr [0..<TCP_CB_TABLE_SIZE] None None of
         (Some i, _, _) \<Rightarrow>
           bindr (tcp_event_segment_arrives os wait i hdr segment len t) (\<lambda>s. Inr (tcp_unlock s))
       | (None, None, _) \<Rightarrow> Inr (tcp_unlock t)
       | (None, Some i, lcb) \<Rightarrow>
           bindr (tcp_event_segment_arrives os wait i hdr segment len (tcp_rx_new i iface lcb src (th_src hdr) t))
             (\<lambda>s. Inr (tcp_unlock s))) (\<lambda>s'. cbs_ok (cb_table s'))"
    if t: "cb_table t = cb_table s" for hdr t
  proof -
    obtain hit free lis where sc: "tcp_rx_scan (cb_table s) iface src hdr [0..<TCP_CB_TABLE_SIZE] None None = (hit, free, lis)"
      by (metis prod_cases3)
    note sc' = scan_results [OF sc]
    show ?thesis
      unfolding sc
      using sc' ok t by (auto split: option.split intro!: go tcp_rx_new_cbs)
  qed
  then show ?thesis
    unfolding tcp_rx_def Let_def by (auto intro!: postr_bindI simp: ok tcp_lock_Inr)
qed

lemma tcp_timer_loop_cbs:
  assumes w: "wait_keeps tcp_view wait"
  shows "cbs_ok (cb_table s) \<Longrightarrow> postr (tcp_timer_loop os wait now is s) (\<lambda>s'. cbs_ok (cb_table s'))"
proof (induction "is" arbitrary: s)
  case (Cons i "is")
  show ?case
    unfolding tcp_timer_loop.simps
    by (rule postr_bind_with [OF tcp_timer_cb_effect [OF w]]) (use Cons timer_rel_cbs in blast)
qed simp

lemma tcp_timer_round_cbs:
  assumes "wait_keeps tcp_view wait" "cbs_ok (cb_table s)"
  shows "postr (tcp_timer_round os wait ts s) (\<lambda>(ts', s'). cbs_ok (cb_table s'))"
  unfolding tcp_timer_round_def sys_timeofday_def Let_def prod.case
  by (rule postr_bind_with [OF tcp_timer_loop_cbs [OF assms(1)]]) (use assms(2) in simp_all)

lemma tcp_reply_cbs:
  assumes "wait_keeps tcp_view wait" "cbs_ok (cb_table s)" "i < TCP_CB_TABLE_SIZE"
  shows "postr (tcp_reply os wait i seq ack flg now s) (\<lambda>s'. cbs_ok (cb_table s') \<and> tx_same i s s')"
  by (rule postr_mono [OF tcp_reply_rel [OF assms(1)]]) (use seg_rel_cbs assms in blast)

lemma close_fin_cbs:
  assumes "wait_keeps tcp_view wait" "cbs_ok (cb_table s)" "i < TCP_CB_TABLE_SIZE" "st = FIN_WAIT1 \<or> st = CLOSING"
  shows "postr (tcp_close_fin os wait i now st s) (\<lambda>(r, s'). cbs_ok (cb_table s'))"
  unfolding tcp_close_fin_def
  by (rule postr_bind_with [OF tcp_reply_cbs [OF assms(1-3)]])
    (use assms(4) in \<open>auto intro!: cbs_ok_upd simp: cb_ok_def dest: cbs_okD(1)\<close>)

lemma close_cb_cbs:
  assumes "cbs_ok (cb_table s)"
  shows "cbs_ok (cb_table (tcp_close_cb i s))"
  using seg_rel_close [of i s] cbs_okD(1) [OF assms, of i] assms
  by (auto simp: seg_rel_def intro!: cbs_ok_upd)

lemma cb_ok_upds [simp]:
  "cb_ok (cb\<lparr>cb_used := u\<rparr>) = cb_ok cb" "cb_ok (cb\<lparr>cb_backlog := bs\<rparr>) = cb_ok cb" "cb_ok (cb\<lparr>cb_port := p\<rparr>) = cb_ok cb"
  by (simp_all add: cb_ok_def)

lemma unused_cbs: "cbs_ok (cb_table s) \<Longrightarrow> cbs_ok ((cb_table s)(i := (cb_table s i)\<lparr>cb_used := u\<rparr>))"
  by (rule cbs_ok_upd) (auto dest: cbs_okD(1) cbs_okD(2))

lemma popped_cbs:
  "cbs_ok (cb_table s) \<Longrightarrow> cb_backlog (cb_table s i) = b # bs \<Longrightarrow> cbs_ok ((cb_table s)(i := (cb_table s i)\<lparr>cb_backlog := bs\<rparr>))"
  by (rule cbs_ok_upd) (auto dest: cbs_okD(1) cbs_okD(2))

lemma tcp_close_cbs:
  assumes w: "wait_keeps tcp_view wait"
  shows "cbs_ok (cb_table s) \<Longrightarrow> i < TCP_CB_TABLE_SIZE \<Longrightarrow>
      postr (tcp_close fuel os wait i s) (\<lambda>(r, s'). cbs_ok (cb_table s'))"
    and "cbs_ok (cb_table s) \<Longrightarrow> i < TCP_CB_TABLE_SIZE \<Longrightarrow>
      postr (tcp_close_backlog fuel os wait i s) (\<lambda>s'. cbs_ok (cb_table s'))"
proof (induction fuel arbitrary: i s)
  case (Suc fuel)
  {
    case 1
    define t where "t = (upd_cb i (\<lambda>cb. cb\<lparr>cb_used := False\<rparr>) s)\<lparr>sys_tick := Suc (sys_tick s)\<rparr>"
    have t: "cbs_ok (cb_table t)" using unused_cbs [OF 1(1)] by (simp add: t_def)
    have lis: "postr (bindr (tcp_close_backlog fuel os wait i t) (\<lambda>s. Inr (0, tcp_close_cb i s))) (\<lambda>(r, s'). cbs_ok (cb_table s'))"
      by (rule postr_bind_with [OF Suc(2) [OF t 1(2)]]) (use close_cb_cbs in auto)
    show ?case
      using 1 t lis close_fin_cbs [OF w t 1(2)] close_cb_cbs [OF t]
      by (auto simp: Let_def sys_timeofday_def t_def [symmetric] split: option.split tcp_state.split)
  next
    case 2
    show ?case
    proof (cases "cb_backlog (cb_table s i)")
      case Nil
      then show ?thesis using 2 by simp
    next
      case (Cons b bs)
      define t where "t = upd_cb i (\<lambda>cb. cb\<lparr>cb_backlog := bs\<rparr>) s"
      have t: "cbs_ok (cb_table t)" using popped_cbs [OF 2(1) Cons] by (simp add: t_def)
      have b: "b < TCP_CB_TABLE_SIZE" using cbs_okD(3) [OF 2(1), of b i] Cons by simp
      have "postr (bindr (tcp_close fuel os wait b t) (\<lambda>(_, s). tcp_close_backlog fuel os wait i s)) (\<lambda>s'. cbs_ok (cb_table s'))"
        by (rule postr_bind_with [OF Suc(1) [OF t b]]) (use Suc(2) 2(2) in auto)
      then show ?thesis using Cons by (simp add: t_def)
    qed
  }
qed simp_all

lemma tcp_tx_cbs:
  assumes "wait_keeps tcp_view wait" "cbs_ok (cb_table s)" "i < TCP_CB_TABLE_SIZE"
  shows "postr (tcp_tx os wait i seq ack flg now buf s) (\<lambda>(r, s'). cbs_ok (cb_table s') \<and> tx_same i s s' \<and> tcp_mutex s' = tcp_mutex s)"
proof -
  have "cbs_ok (cb_table s') \<and> tx_same i s s' \<and> tcp_mutex s' = tcp_mutex s" if "tx_effect (os_endian os) i seq ack flg buf s s'" for s'
    using seg_rel_cbs [OF seg_rel_tx [OF that] assms(3,2)] tx_same_effect [OF that] that by (simp add: tx_effect_def)
  then show ?thesis
    by (intro postr_mono [OF tcp_tx_effect [OF assms(1)]]) auto
qed

lemma connect_port_cbs:
  assumes "tcp_connect_port os i s = (ok, s')" "cbs_ok (cb_table s)"
  shows "cbs_ok (cb_table s')" "cb_state (cb_table s' i) = cb_state (cb_table s i)" "tcp_mutex s' = tcp_mutex s"
  using assms cbs_okD(1,2) [OF assms(2), of i]
  by (auto simp: tcp_connect_port_def sys_time_def Let_def intro!: cbs_ok_upd split: if_splits option.splits)

lemma connect_start_cbs:
  assumes w: "wait_keeps tcp_view wait" and "cbs_ok (cb_table s)" "i < TCP_CB_TABLE_SIZE"
  shows "postr (tcp_connect_start os wait i addr port s) (\<lambda>(go, s'). cbs_ok (cb_table s'))"
proof -
  have call: "postr (bindr (tcp_tx os wait i iss 0 TCP_FLG_SYN now [] t) (\<lambda>(r, s).
          if r = -1 then Inr (False, tcp_unlock s)
          else Inr (True, upd_cb i (\<lambda>cb. cb\<lparr>snd_una := cb_iss cb, snd_nxt := cb_iss cb + 1,
                            cb_timeout := fst now + USER_TIMEOUT, cb_state := SYN_SENT\<rparr>) s))) (\<lambda>(go, s'). cbs_ok (cb_table s'))"
    if t: "cbs_ok (cb_table t)" "cb_state (cb_table t i) = CLOSED" for iss now t
  proof (rule postr_bind_with [OF tcp_tx_cbs [OF w t(1) assms(3)]], clarify)
    fix r u
    assume u: "cbs_ok (cb_table u)" "tx_same i t u"
    have "cb_ok (cb_table u i)" "cb_state (cb_table u i) = CLOSED"
      using cbs_okD(1) [OF u(1)] tx_sameD(1) [OF u(2)] t(2) by simp_all
    then show "postr (if r = -1 then Inr (False, tcp_unlock u)
          else Inr (True, upd_cb i (\<lambda>cb. cb\<lparr>snd_una := cb_iss cb, snd_nxt := cb_iss cb + 1,
                            cb_timeout := fst now + USER_TIMEOUT, cb_state := SYN_SENT\<rparr>) u)) (\<lambda>(go, s'). cbs_ok (cb_table s'))"
      using u(1) by (auto simp: cb_ok_def intro!: cbs_ok_upd)
  qed
  have start: "cbs_ok ((cb_table t)(i := (cb_table t i)\<lparr>peer_addr := a, peer_port := p, cb_iface := n, rcv_wnd := x, cb_iss := y\<rparr>))"
    "cbs_ok ((cb_table t)(i := (cb_table t i)\<lparr>peer_addr := a, peer_port := p, cb_iface := n\<rparr>))"
    if "cbs_ok (cb_table t)" for t a p n x y
    using cbs_okD(1,2) [OF that, of i] that by (auto simp: cb_ok_def intro!: cbs_ok_upd)
  show ?thesis
    unfolding tcp_connect_start_def sys_timeofday_def sys_random_def Let_def
    using assms(2) connect_port_cbs [of os i "s\<lparr>sys_tick := Suc (sys_tick s)\<rparr>"]
    by (auto intro!: call start split: option.split prod.split)
qed

lemma recv_cbs:
  assumes "cbs_ok (cb_table s)"
  shows "postr (tcp_recv_try i want s) (\<lambda>(r, s'). cbs_ok (cb_table s'))"
proof -
  have "cbs_ok ((cb_table s)(i := (cb_table s i)\<lparr>cb_window := window, rcv_wnd := n\<rparr>))"
    if "mem_write (cb_window (cb_table s i)) 0 xs = Inr window" for window xs n
    using length_mem_write [OF that] cbs_okD(1,2) [OF assms, of i] by (intro cbs_ok_upd [OF assms]) (auto simp: cb_ok_def)
  then show ?thesis
    unfolding tcp_recv_try_def tcp_recv_copy_def Let_def using assms by (auto intro!: postr_bindI simp: bindr_Inr_iff)
qed

lemma send_cbs:
  assumes w: "wait_keeps tcp_view wait" and "cbs_ok (cb_table s)" "i < TCP_CB_TABLE_SIZE"
  shows "postr (tcp_send_pass os wait i buf s) (\<lambda>(r, s'). cbs_ok (cb_table s'))"
proof -
  have "cbs_ok ((cb_table u)(i := (cb_table u i)\<lparr>cb_timeout := x, snd_nxt := y\<rparr>))" if "cbs_ok (cb_table u)" for u x y
    using cbs_okD(1,2) [OF that, of i] that by (auto simp: cb_ok_def intro!: cbs_ok_upd)
  then have "postr (bindr (tcp_tx os wait i seq ack flg now bs t) (\<lambda>(r, s).
       if r = -1 then Inr (SendFail, s)
       else Inr (SendNext k, upd_cb i (\<lambda>cb. cb\<lparr>cb_timeout := x, snd_nxt := snd_nxt cb + of_nat k\<rparr>) s))) (\<lambda>(r, s'). cbs_ok (cb_table s'))"
    if "cbs_ok (cb_table t)" for t seq ack flg now bs k x
    by (intro postr_bind_with [OF tcp_tx_cbs [OF w that assms(3)]]) auto
  moreover have "cbs_ok (cb_table (s\<lparr>sys_tick := k\<rparr>))" for k using assms(2) by simp
  ultimately show ?thesis
    unfolding tcp_send_pass_def sys_timeofday_def Let_def prod.case
    using assms(2) by (auto intro!: postr_bindI split: option.split)
qed

section \<open>The state machine\<close>

text \<open>
  A call that may wait contributes the sections between its waits. \<open>lower\<close> is a step of the layers
  below or of a thread that does not touch TCP.
\<close>

inductive tcp_step :: "os \<Rightarrow> 'a tcp_scheme waits \<Rightarrow> 'a tcp_scheme \<Rightarrow> 'a tcp_scheme \<Rightarrow> bool" for os wait where
  lower: "tcp_view s' = tcp_view s \<Longrightarrow> tcp_step os wait s s'"
| rx: "tcp_rx os wait segment len src dst iface s = Inr s' \<Longrightarrow> tcp_step os wait s s'"
| timer: "tcp_lock s = Inr t \<Longrightarrow> tcp_timer_round os wait ts t = Inr (ts', u) \<Longrightarrow> tcp_step os wait s (tcp_unlock u)"
| user_open: "tcp_api_open s = Inr (r, s') \<Longrightarrow> tcp_step os wait s s'"
| user_close: "tcp_api_close os wait soc s = Inr (r, s') \<Longrightarrow> tcp_step os wait s s'"
| user_bind: "tcp_api_bind (os_endian os) soc port s = Inr (r, s') \<Longrightarrow> tcp_step os wait s s'"
| user_listen: "tcp_api_listen soc s = Inr (r, s') \<Longrightarrow> tcp_step os wait s s'"
| user_connect: "i < TCP_CB_TABLE_SIZE \<Longrightarrow> tcp_lock s = Inr t \<Longrightarrow> tcp_connect_start os wait i addr port t = Inr (go, u) \<Longrightarrow>
    tcp_step os wait s (if go then tcp_unlock u else u)"
| user_accept: "i < TCP_CB_TABLE_SIZE \<Longrightarrow> tcp_lock s = Inr t \<Longrightarrow> tcp_accept_try i t = (r, u) \<Longrightarrow>
    tcp_step os wait s (tcp_unlock (case r of Some (Some b) \<Rightarrow> upd_cb b (\<lambda>cb. cb\<lparr>cb_used := True\<rparr>) u | _ \<Rightarrow> u))"
| user_recv: "i < TCP_CB_TABLE_SIZE \<Longrightarrow> tcp_lock s = Inr t \<Longrightarrow> tcp_recv_try i want t = Inr (r, u) \<Longrightarrow> tcp_step os wait s (tcp_unlock u)"
| user_send: "i < TCP_CB_TABLE_SIZE \<Longrightarrow> tcp_lock s = Inr t \<Longrightarrow> tcp_send_pass os wait i buf t = Inr (out, u) \<Longrightarrow>
    tcp_step os wait s (if out = SendFail then u else tcp_unlock u)"

lemma open_cbs: "cbs_ok (cb_table s) \<Longrightarrow> tcp_api_open s = Inr (r, s') \<Longrightarrow> cbs_ok (cb_table s')"
  by (auto simp: tcp_api_open_def bindr_Inr_iff tcp_lock_Inr unused_cbs split: option.splits)

lemma api_close_cbs:
  assumes "wait_keeps tcp_view wait" "cbs_ok (cb_table s)" "tcp_api_close os wait soc s = Inr (r, s')"
  shows "cbs_ok (cb_table s')"
proof (cases "TCP_SOCKET_INVALID soc")
  case True
  then show ?thesis using assms by (simp add: tcp_api_close_def)
next
  case False
  define t where "t = s\<lparr>tcp_mutex := True\<rparr>"
  obtain u where u: "tcp_close (close_fuel t) os wait (nat soc) t = Inr (r, u)" "s' = tcp_unlock u"
    using False assms(3) by (auto simp: tcp_api_close_def bindr_Inr_iff tcp_lock_Inr t_def)
  have "nat soc < TCP_CB_TABLE_SIZE" "cbs_ok (cb_table t)"
    using False assms(2) by (simp_all add: TCP_SOCKET_INVALID_def nat_less_iff t_def)
  from postrD [OF tcp_close_cbs(1) [OF assms(1) this(2,1)] u(1)] show ?thesis using u(2) by simp
qed

lemma bind_cbs:
  assumes "cbs_ok (cb_table s)" "tcp_api_bind e soc port s = Inr (r, s')"
  shows "cbs_ok (cb_table s')"
  using assms cbs_okD(1,2) [OF assms(1), of "nat soc"]
  by (auto simp: tcp_api_bind_def Let_def bindr_Inr_iff tcp_lock_Inr intro!: cbs_ok_upd split: if_splits)

lemma listen_cbs:
  assumes "cbs_ok (cb_table s)" "tcp_api_listen soc s = Inr (r, s')"
  shows "cbs_ok (cb_table s')"
  using assms cbs_okD(1,2) [OF assms(1), of "nat soc"]
  by (auto simp: tcp_api_listen_def Let_def bindr_Inr_iff tcp_lock_Inr cb_ok_def intro!: cbs_ok_upd split: if_splits)

lemma accept_cbs:
  assumes "cbs_ok (cb_table s)" "tcp_accept_try i s = (r, s')"
  shows "cbs_ok (cb_table s')"
  using assms popped_cbs [OF assms(1), of i] by (auto simp: tcp_accept_try_def split: if_splits list.splits)

lemma tcp_step_cbs:
  assumes "tcp_step os wait s s'" "wait_keeps tcp_view wait" "cbs_ok (cb_table s)"
  shows "cbs_ok (cb_table s')"
proof -
  have locked: "cbs_ok (cb_table t)" if "tcp_lock s = Inr t" for t using that assms(3) by (simp add: tcp_lock_Inr)
  from assms(1) show ?thesis
  proof cases
    case lower
    then show ?thesis using assms(3) by (simp add: tcp_view_eq)
  next
    case rx
    then show ?thesis using postrD [OF tcp_rx_cbs [OF assms(2,3)]] by blast
  next
    case (timer t ts ts' u)
    from postrD [OF tcp_timer_round_cbs [OF assms(2) locked [OF timer(2)]] timer(3)] timer(1) show ?thesis by simp
  next
    case user_close
    then show ?thesis using api_close_cbs [OF assms(2,3)] by blast
  next
    case (user_connect i t addr port go u)
    from postrD [OF connect_start_cbs [OF assms(2) locked [OF user_connect(3)] user_connect(2)] user_connect(4)] user_connect(1)
    show ?thesis by simp
  next
    case (user_accept i t r u)
    have "cbs_ok (cb_table u)" by (rule accept_cbs [OF locked [OF user_accept(3)] user_accept(4)])
    then show ?thesis using user_accept(1) unused_cbs by (auto split: option.split)
  next
    case (user_recv i t want r u)
    from postrD [OF recv_cbs [OF locked [OF user_recv(3)]] user_recv(4)] user_recv(1) show ?thesis by simp
  next
    case (user_send i t buf out u)
    from postrD [OF send_cbs [OF assms(2) locked [OF user_send(3)] user_send(2)] user_send(4)] user_send(1) show ?thesis by simp
  qed (use assms(3) open_cbs bind_cbs listen_cbs in blast)+
qed

lemma cbs_zero: "cbs_ok (\<lambda>_. tcp_cb_zero)"
  by (simp add: cbs_ok_def cb_ok_def tcp_cb_zero_def)

lemma tcp_reachable_cbs:
  assumes "(tcp_step os wait)\<^sup>*\<^sup>* s s'" "wait_keeps tcp_view wait" "cbs_ok (cb_table s)"
  shows "cbs_ok (cb_table s')"
  using assms(1) by induction (use assms(2,3) tcp_step_cbs in blast)+

end
