(* ===== verification/Tcpwire.thy ===== *)
theory Tcpwire
  imports Tcpinv
begin

unbundle bit_operations_syntax

text \<open>
  Segments between two hosts: what \<open>tcp_tx\<close> puts on the wire, and that the stack of the peer takes
  the same segment from the frame to \<open>tcp_rx\<close>.
\<close>

section \<open>From \<open>tcp_tx\<close> to the wire\<close>

definition tcp_segment :: "endian \<Rightarrow> u32 \<Rightarrow> u32 \<Rightarrow> tcp_hdr \<Rightarrow> bytes \<Rightarrow> bytes" where
  "tcp_segment e src dst hdr data = enc_tcp_hdr e (hdr\<lparr>th_sum := tcp_sum e src dst hdr data\<rparr>) @ data"

lemma length_tcp_segment [simp]: "length (tcp_segment e src dst hdr data) = 20 + length data"
  by (simp add: tcp_segment_def)

text \<open>A state in which one frame more has been written and the table of control blocks is \<open>tbl\<close>.\<close>

definition emits :: "int \<Rightarrow> bytes \<Rightarrow> (nat \<Rightarrow> tcp_cb) \<Rightarrow> 'a tcp_scheme \<Rightarrow> 'a tcp_scheme \<Rightarrow> bool" where
  "emits fd frame tbl s s' \<longleftrightarrow>
     (\<exists>t ret. s' = s\<lparr>sys_tick := t, sys_sent := sys_sent s @ [(fd, frame, ret)], ip_next_id := ip_next_id s + 1, cb_table := tbl\<rparr>)"

lemma emitsI:
  "s' = s\<lparr>sys_tick := t, sys_sent := sys_sent s @ [(fd, frame, ret)], ip_next_id := ip_next_id s + 1, cb_table := tbl\<rparr> \<Longrightarrow>
   emits fd frame tbl s s'"
  unfolding emits_def by blast

lemma emits_simps:
  assumes "emits fd frame tbl s s'"
  shows "cb_table s' = tbl" "tcp_mutex s' = tcp_mutex s" "same_net s s'" "arp_tbl s' = arp_tbl s" "protocols s' = protocols s"
    "protos s' = protos s" "default_netif s' = default_netif s" "ip_next_id s' = ip_next_id s + 1"
    "\<exists>ret. sys_sent s' = sys_sent s @ [(fd, frame, ret)]"
  using assms by (auto simp: emits_def same_net_def)

lemma ip_tx_sent:
  assumes "reaches s n peer self ha addr fd" "0 < length buf" "length buf \<le> 1480"
    and "\<forall>k. os_ret os k = int (14 + max 46 (20 + length buf))"
  shows "\<exists>s'. ip_tx os wait (Some n) 6 buf peer s = Inr (int (length buf), s') \<and>
    emits fd (tcp_frame (os_endian os) ha addr self peer (ip_next_id s) buf) (cb_table s) s s'"
proof -
  obtain r s' ret where t: "ip_tx os wait (Some n) 6 buf peer s = Inr (r, s')"
    "sends (s\<lparr>ip_next_id := ip_next_id s + 1\<rparr>) s'"
    "sys_sent s' = sys_sent s @ [(fd, tcp_frame (os_endian os) ha addr self peer (ip_next_id s) buf, ret)]"
    using ip_tx_one [OF assms(1-3)] by blast
  have "r = int (length buf)"
    using assms t(1) ip_tx_one_ok [of s n _ _ _ addr fd peer ha buf os wait 6] by (fastforce simp: reaches_def)
  moreover obtain k l where s': "s' = s\<lparr>ip_next_id := ip_next_id s + 1, sys_tick := k, sys_sent := sys_sent s @ l\<rparr>"
    using t(2) by (auto simp: sends_def)
  moreover have "emits fd (tcp_frame (os_endian os) ha addr self peer (ip_next_id s) buf) (cb_table s) s s'"
    by (rule emitsI [where t = k and ret = ret]) (use s' t(3) in simp)
  ultimately show ?thesis using t(1) by blast
qed

lemma tcp_tx_send_sent:
  assumes "reaches s n (peer_addr (cb_table s i)) self ha addr fd" "cb_iface (cb_table s i) = Some n" "length buf \<le> 1460"
    and "\<forall>k. os_ret os k = int (14 + max 46 (40 + length buf))"
  defines "e \<equiv> os_endian os" and "peer \<equiv> peer_addr (cb_table s i)"
  shows "\<exists>s'. tcp_tx_send os wait i False now hdr buf s = Inr (int (length buf), s') \<and>
    emits fd (tcp_frame e ha addr self peer (ip_next_id s) (tcp_segment e self peer hdr buf)) (cb_table s) s s'"
    and "cb_txq (cb_table s i) = q @ [en] \<Longrightarrow>
    \<exists>s'. tcp_tx_send os wait i True now hdr buf s = Inr (int (length buf), s') \<and>
    emits fd (tcp_frame e ha addr self peer (ip_next_id s) (tcp_segment e self peer hdr buf))
      ((cb_table s)(i := (cb_table s i)\<lparr>cb_txq := q @ [en\<lparr>tq_seg := hdr\<lparr>th_sum := tcp_sum e self peer hdr buf\<rparr>, tq_time := now\<rparr>],
         txq_snt := txq_snt (cb_table s i) + of_nat (length buf)\<rparr>)) s s'"
proof -
  obtain ni where ni: "net_ifs s n = Some ni" "unicast ni = self" using assms(1) by (auto simp: reaches_def)
  have tx: "\<exists>t'. ip_tx os wait (Some n) 6 (tcp_segment e self peer hdr buf) peer t = Inr (int (20 + length buf), t') \<and>
      emits fd (tcp_frame e ha addr self peer (ip_next_id t) (tcp_segment e self peer hdr buf)) (cb_table t) t t'"
    if "same_net s t" "arp_tbl t = arp_tbl s" for t :: "'a tcp_scheme"
    using ip_tx_sent [of t n peer self ha addr fd "tcp_segment e self peer hdr buf" os wait] assms(1,3,4) reaches_cong [OF that]
    by (simp add: e_def peer_def)
  have sum: "tcp_checksum e (unicast ni) peer (enc_tcp_hdr e hdr @ buf) (20 + length buf) = Inr (tcp_sum e self peer hdr buf)"
    using tcp_checksum_total ni by blast
  show "\<exists>s'. tcp_tx_send os wait i False now hdr buf s = Inr (int (length buf), s') \<and>
    emits fd (tcp_frame e ha addr self peer (ip_next_id s) (tcp_segment e self peer hdr buf)) (cb_table s) s s'"
    using tx [of s] ni(1) sum assms(2)
    by (auto simp: tcp_tx_send_def Let_def tcp_segment_def simp flip: e_def peer_def)
  assume q: "cb_txq (cb_table s i) = q @ [en]"
  define h where "h = hdr\<lparr>th_sum := tcp_sum e self peer hdr buf\<rparr>"
  define t where "t = upd_cb i (\<lambda>cb. cb\<lparr>cb_txq := upd_last (\<lambda>en. en\<lparr>tq_seg := h\<rparr>) (cb_txq cb)\<rparr>) s"
  obtain t' where t': "ip_tx os wait (Some n) 6 (tcp_segment e self peer hdr buf) peer t = Inr (int (20 + length buf), t')"
    "emits fd (tcp_frame e ha addr self peer (ip_next_id t) (tcp_segment e self peer hdr buf)) (cb_table t) t t'"
    using tx [of t] by (auto simp: t_def)
  define u where "u = upd_cb i (\<lambda>cb. cb\<lparr>cb_txq := upd_last (\<lambda>en. en\<lparr>tq_time := now\<rparr>) (cb_txq cb),
       txq_snt := txq_snt cb + of_nat (length buf)\<rparr>) t'"
  have run: "tcp_tx_send os wait i True now hdr buf s = Inr (int (length buf), u)"
    using t'(1) ni(1) sum assms(2)
    by (simp add: tcp_tx_send_def Let_def tcp_segment_def u_def flip: e_def peer_def h_def t_def)
  have "emits fd (tcp_frame e ha addr self peer (ip_next_id s) (tcp_segment e self peer hdr buf))
      ((cb_table s)(i := (cb_table s i)\<lparr>cb_txq := q @ [en\<lparr>tq_seg := h, tq_time := now\<rparr>],
         txq_snt := txq_snt (cb_table s i) + of_nat (length buf)\<rparr>)) s u"
  proof -
    obtain k ret where "t' = t\<lparr>sys_tick := k, sys_sent := sys_sent t @ [(fd, tcp_frame e ha addr self peer (ip_next_id t)
        (tcp_segment e self peer hdr buf), ret)], ip_next_id := ip_next_id t + 1, cb_table := cb_table t\<rparr>"
      using t'(2) unfolding emits_def by blast
    then show ?thesis by (intro emitsI [where t = k and ret = ret]) (simp add: u_def t_def upd_cb_def q)
  qed
  then show "\<exists>s'. tcp_tx_send os wait i True now hdr buf s = Inr (int (length buf), s') \<and>
    emits fd (tcp_frame e ha addr self peer (ip_next_id s) (tcp_segment e self peer hdr buf))
      ((cb_table s)(i := (cb_table s i)\<lparr>cb_txq := q @ [en\<lparr>tq_seg := hdr\<lparr>th_sum := tcp_sum e self peer hdr buf\<rparr>, tq_time := now\<rparr>],
         txq_snt := txq_snt (cb_table s i) + of_nat (length buf)\<rparr>)) s s'"
    using run by (auto simp: h_def)
qed

text \<open>A segment that is sent at once: a control segment, or one for which the send window has room.\<close>

lemma tcp_tx_sent:
  fixes s :: "'a tcp_scheme"
  assumes "reaches s n peer self ha addr fd" "cb_iface (cb_table s i) = Some n" "peer = peer_addr (cb_table s i)"
    and "length buf \<le> 1460" "\<forall>k. os_ret os k = int (14 + max 46 (40 + length buf))" "\<forall>k. os_malloc os k"
    and "\<not> (tx_queues flg buf \<and> tx_held (cb_table s i) flg buf)" "e = os_endian os"
    and "hdr = tcp_tx_hdr e (cb_table s i) seq ack flg"
  shows "\<exists>s'. tcp_tx os wait i seq ack flg now buf s = Inr (int (length buf), s') \<and>
    emits fd (tcp_frame e ha addr self peer (ip_next_id s) (tcp_segment e self peer hdr buf))
      (if tx_queues flg buf then (cb_table s)(i := (cb_table s i)\<lparr>
           cb_txq := cb_txq (cb_table s i) @ [\<lparr>tq_seg = hdr\<lparr>th_sum := tcp_sum e self peer hdr buf\<rparr>, tq_data = buf,
             tq_len = of_nat (20 + length buf), tq_time = now\<rparr>],
           txq_snt := txq_snt (cb_table s i) + of_nat (length buf)\<rparr>)
       else cb_table s) s s'"
proof (cases "tx_queues flg buf")
  case False
  define t where "t = tx_ticked 1 s"
  have t: "cb_table t = cb_table s" "reaches t n peer self ha addr fd"
    using assms(1) reaches_cong [of s t] by (simp_all add: t_def)
  obtain s' where "tcp_tx_send os wait i False now hdr buf t = Inr (int (length buf), s')"
    "emits fd (tcp_frame e ha addr self peer (ip_next_id t) (tcp_segment e self peer hdr buf)) (cb_table t) t s'"
    using tcp_tx_send_sent(1) [of t n i self ha addr fd buf os wait now hdr] t assms(2-5,8) by auto
  moreover from this(2) have "emits fd (tcp_frame e ha addr self peer (ip_next_id s) (tcp_segment e self peer hdr buf)) (cb_table s) s s'"
    by (auto simp: emits_def t_def tx_ticked_def)
  ultimately show ?thesis using False assms(6,8,9) by (auto simp: tcp_tx_eq Let_def t_def)
next
  case True
  define en where "en = \<lparr>tq_seg = hdr, tq_data = buf, tq_len = of_nat (20 + length buf), tq_time = (0, 0)\<rparr>"
  define t where "t = tx_queued i hdr buf s"
  have t: "cb_table t = (cb_table s)(i := (cb_table s i)\<lparr>cb_txq := cb_txq (cb_table s i) @ [en]\<rparr>)" "ip_next_id t = ip_next_id s"
    by (simp_all add: t_def tx_queued_def en_def)
  have r: "reaches t n peer self ha addr fd" using assms(1) reaches_cong [of s t] by (simp add: t_def tx_queued_def)
  obtain s' where s': "tcp_tx_send os wait i True now hdr buf t = Inr (int (length buf), s')"
    "emits fd (tcp_frame e ha addr self peer (ip_next_id t) (tcp_segment e self peer hdr buf))
      ((cb_table t)(i := (cb_table t i)\<lparr>cb_txq := cb_txq (cb_table s i) @ [en\<lparr>tq_seg := hdr\<lparr>th_sum := tcp_sum e self peer hdr buf\<rparr>,
         tq_time := now\<rparr>], txq_snt := txq_snt (cb_table t i) + of_nat (length buf)\<rparr>)) t s'"
    using tcp_tx_send_sent(2) [of t n i self ha addr fd buf os "cb_txq (cb_table s i)" en wait now hdr] r assms(2-5,8) by (auto simp: t(1))
  from s'(2) obtain k ret where "s' = t\<lparr>sys_tick := k, sys_sent := sys_sent t @ [(fd, tcp_frame e ha addr self peer (ip_next_id t)
        (tcp_segment e self peer hdr buf), ret)], ip_next_id := ip_next_id t + 1,
      cb_table := ((cb_table t)(i := (cb_table t i)\<lparr>cb_txq := cb_txq (cb_table s i) @ [en\<lparr>tq_seg := hdr\<lparr>th_sum := tcp_sum e self peer hdr buf\<rparr>,
         tq_time := now\<rparr>], txq_snt := txq_snt (cb_table t i) + of_nat (length buf)\<rparr>))\<rparr>"
    unfolding emits_def by blast
  then have "emits fd (tcp_frame e ha addr self peer (ip_next_id s) (tcp_segment e self peer hdr buf))
      ((cb_table s)(i := (cb_table s i)\<lparr>
           cb_txq := cb_txq (cb_table s i) @ [\<lparr>tq_seg = hdr\<lparr>th_sum := tcp_sum e self peer hdr buf\<rparr>, tq_data = buf,
             tq_len = of_nat (20 + length buf), tq_time = now\<rparr>],
           txq_snt := txq_snt (cb_table s i) + of_nat (length buf)\<rparr>)) s s'"
    by (intro emitsI [where t = k and ret = ret]) (simp add: t_def tx_queued_def tx_ticked_def upd_cb_def en_def del: of_nat_add)
  then show ?thesis using True s'(1) assms(6,7,8,9) by (auto simp: tcp_tx_eq Let_def t_def simp del: of_nat_add)
qed

section \<open>From the wire to \<open>tcp_rx\<close>\<close>

text \<open>
  A host that takes segments for the address \<open>self\<close>: its device \<open>d\<close> has the hardware address \<open>ha\<close> and
  carries the interface \<open>n\<close>, and IP and TCP are registered.
\<close>

definition tcp_host :: "'a tcp_scheme \<Rightarrow> nat \<Rightarrow> nat \<Rightarrow> u32 \<Rightarrow> bytes \<Rightarrow> bool" where
  "tcp_host t d n self ha \<longleftrightarrow>
     (\<exists>dev. net_devs t d = Some dev \<and> take 6 (nd_addr dev) = ha) \<and> length ha = 6 \<and> protos_distinct t \<and>
     find_proto t 0x0800 = Some ip_rx_handler \<and> netdev_get_netif d 2 t = Inr (Some n) \<and>
     (\<exists>ni. net_ifs t n = Some ni \<and> unicast ni = self) \<and>
     find (\<lambda>q. ipp_type q = 6) (protocols t) = Some \<lparr>ipp_type = 6, ipp_handler = tcp_rx_handler\<rparr>"

abbreviation receive :: "os \<Rightarrow> 'a tcp_scheme waits \<Rightarrow> nat \<Rightarrow> bytes \<Rightarrow> 'a tcp_scheme \<Rightarrow> 'a tcp_scheme res" where
  "receive os wait d frame t \<equiv> ethernet_rx (os_endian os) (proto_call os (ip_call os wait)) d frame t"

lemma tcp_frame_rx:
  assumes "tcp_host t d n self ha" "length addr = 6" "length segment \<le> 1480"
  shows "receive os wait d (tcp_frame (os_endian os) ha addr src self ident segment) t =
    tcp_rx os wait (segment @ replicate (26 - length segment) 0) (length segment) src self n t"
proof -
  let ?pk = "ip_packet (os_endian os) 6 src self ident 0 segment"
  obtain dev ni where h: "net_devs t d = Some dev" "take 6 (nd_addr dev) = ha" "length ha = 6" "protos_distinct t"
    "find_proto t 0x0800 = Some ip_rx_handler" "netdev_get_netif d 2 t = Inr (Some n)" "net_ifs t n = Some ni" "unicast ni = self"
    "find (\<lambda>q. ipp_type q = 6) (protocols t) = Some \<lparr>ipp_type = 6, ipp_handler = tcp_rx_handler\<rparr>"
    using assms(1) by (auto simp: tcp_host_def)
  have "receive os wait d (tcp_frame (os_endian os) ha addr src self ident segment) t =
      ip_rx os (ip_call os wait) (eth_pad ?pk) d t"
    using h by (simp add: tcp_frame_def ethernet_rx_frame [OF h(1,3) assms(2)] netdev_rx_handler_find proto_call_def)
  also have "\<dots> = tcp_rx os wait (segment @ replicate (46 - length ?pk) 0) (length segment) src self n t"
    unfolding eth_pad_append using h assms(3) by (subst ip_rx_whole [OF h(6,7)]) (auto simp: ip_call_def)
  finally show ?thesis by simp
qed

end
