(* ===== verification/Tcpopen.thy ===== *)
theory Tcpopen
  imports Tcpwire
begin

unbundle bit_operations_syntax

text \<open>
  Opening a connection: the three-way handshake between two hosts, from \<open>tcp_api_connect\<close> on one to
  \<open>tcp_api_accept\<close> on the other, through all layers of both stacks.
\<close>

section \<open>A valid segment arrives\<close>

text \<open>The system answers: memory is available, the clock runs, a short frame is written whole.\<close>

definition os_fine :: "os \<Rightarrow> timeval \<Rightarrow> bool" where
  "os_fine os now \<longleftrightarrow> (\<forall>k. os_malloc os k) \<and> (\<forall>k. os_timeofday os k = Some now) \<and> (\<forall>k. os_ret os k = 60)"

lemma tcp_rx_valid:
  assumes "net_ifs t n = Some ni" "unicast ni = self" "\<not> tcp_mutex t" "th_sum hdr = 0" "20 + length data \<le> 65535"
    and "e = os_endian os" "h = hdr\<lparr>th_sum := tcp_sum e src self hdr data\<rparr>" "segment = tcp_segment e src self hdr data @ pad"
  shows "tcp_rx os wait segment (20 + length data) src self n t =
    (case tcp_rx_scan (cb_table t) n src h [0..<TCP_CB_TABLE_SIZE] None None of
       (Some i, _, _) \<Rightarrow>
         bindr (tcp_event_segment_arrives os wait i h segment (20 + length data) (t\<lparr>tcp_mutex := True\<rparr>)) (\<lambda>s. Inr (tcp_unlock s))
     | (None, None, _) \<Rightarrow> Inr (tcp_unlock (t\<lparr>tcp_mutex := True\<rparr>))
     | (None, Some i, lcb) \<Rightarrow>
         bindr (tcp_event_segment_arrives os wait i h segment (20 + length data)
                  (tcp_rx_new i n lcb src (th_src h) (t\<lparr>tcp_mutex := True\<rparr>)))
           (\<lambda>s. Inr (tcp_unlock s)))"
proof -
  have "tcp_checksum e src self segment (20 + length data) = Inr 0"
    using tcp_checksum_accepted [OF assms(4,5), of self self e src pad] by (simp add: assms(8) tcp_segment_def)
  moreover have "mem_read segment 0 20 = Inr (enc_tcp_hdr e h)"
    by (simp add: assms(7,8) tcp_segment_def mem_read_def)
  moreover have dec: "dec_tcp_hdr e (enc_tcp_hdr e h) = h" by (simp add: tcpf.dec_enc)
  ultimately show ?thesis
    using assms(1-3) unfolding tcp_rx_def Let_def assms(6) [symmetric]
    by (simp add: tcp_lock_def) (simp add: dec split: option.split prod.split)
qed

lemma scan_cong:
  assumes "th_src h' = th_src h" "th_dst h' = th_dst h"
  shows "tcp_rx_scan tbl n src h' is fcb lcb = tcp_rx_scan tbl n src h is fcb lcb"
  using assms by (induction "is" arbitrary: fcb lcb) (simp_all add: Let_def)

text \<open>The first match in the order of the table.\<close>

lemma scan_hitI:
  assumes "i < k" "scan_hit tbl n src h i" "\<And>j. j < k \<Longrightarrow> j \<noteq> i \<Longrightarrow> \<not> scan_hit tbl n src h j"
  shows "\<exists>f l. tcp_rx_scan tbl n src h [0..<k] None None = (Some i, f, l)"
proof -
  have "find (scan_hit tbl n src h) [0..<k] = Some i"
    using assms by (auto simp: find_Some_iff intro!: exI [of _ i])
  then show ?thesis
    using scan_found [of tbl n src h "[0..<k]" None None] by (metis prod.collapse)
qed

lemma find_first:
  assumes "i < k" "P i" "\<And>j. j < k \<Longrightarrow> j \<noteq> i \<Longrightarrow> \<not> P j"
  shows "find P [0..<k] = Some i"
  using assms by (auto simp: find_Some_iff intro!: exI [of _ i])

section \<open>The events of the handshake\<close>

text \<open>The flags of the three segments.\<close>

lemma flags_set [simp]:
  "TCP_FLG_ISSET 0x02 TCP_FLG_SYN" "\<not> TCP_FLG_ISSET 0x02 TCP_FLG_RST" "\<not> TCP_FLG_ISSET 0x02 TCP_FLG_ACK"
  "\<not> TCP_FLG_ISSET 0x02 TCP_FLG_FIN" "\<not> TCP_FLG_ISSET 0x02 TCP_FLG_URG" "\<not> TCP_FLG_ISSET 0x02 TCP_FLG_PSH"
  "TCP_FLG_ISSET 0x12 TCP_FLG_SYN" "\<not> TCP_FLG_ISSET 0x12 TCP_FLG_RST" "TCP_FLG_ISSET 0x12 TCP_FLG_ACK"
  "\<not> TCP_FLG_ISSET 0x12 TCP_FLG_FIN" "\<not> TCP_FLG_ISSET 0x12 TCP_FLG_URG" "\<not> TCP_FLG_ISSET 0x12 TCP_FLG_PSH"
  "\<not> TCP_FLG_ISSET 0x10 TCP_FLG_SYN" "\<not> TCP_FLG_ISSET 0x10 TCP_FLG_RST" "TCP_FLG_ISSET 0x10 TCP_FLG_ACK"
  "\<not> TCP_FLG_ISSET 0x10 TCP_FLG_FIN" "\<not> TCP_FLG_ISSET 0x10 TCP_FLG_URG" "\<not> TCP_FLG_ISSET 0x10 TCP_FLG_PSH"
  by (simp_all add: TCP_FLG_ISSET_def)

lemma data_len_control: "th_off h = 0x50 \<Longrightarrow> TCP_DATA_LEN h 20 = 0"
  by (simp add: TCP_DATA_LEN_def TCP_HDR_LEN_def)

lemma tcp_reply_sent:
  fixes s :: "'a tcp_scheme"
  assumes "reaches s n peer self ha addr fd" "cb_iface (cb_table s i) = Some n" "peer = peer_addr (cb_table s i)"
    and "os_fine os t" "\<not> (tx_queues flg [] \<and> tx_held (cb_table s i) flg [])" "e = os_endian os"
    and "hdr = tcp_tx_hdr e (cb_table s i) seq ack flg"
  shows "\<exists>s'. tcp_reply os wait i seq ack flg now s = Inr s' \<and>
    emits fd (tcp_frame e ha addr self peer (ip_next_id s) (tcp_segment e self peer hdr []))
      (if tx_queues flg [] then (cb_table s)(i := (cb_table s i)\<lparr>
           cb_txq := cb_txq (cb_table s i) @ [\<lparr>tq_seg = hdr\<lparr>th_sum := tcp_sum e self peer hdr []\<rparr>, tq_data = [], tq_len = 20, tq_time = now\<rparr>]\<rparr>)
       else cb_table s) s s'"
proof -
  have os: "\<forall>k. os_malloc os k" "\<forall>k. os_ret os k = int (14 + max 46 (40 + length ([] :: bytes)))"
    using assms(4) by (simp_all add: os_fine_def)
  have b: "length ([] :: bytes) \<le> 1460" by simp
  show ?thesis
    using tcp_tx_sent [OF assms(1-3) b os(2,1) assms(5-7), of wait now] by (auto simp: tcp_reply_def)
qed

lemma listen_syn_run:
  fixes s :: "'a tcp_scheme"
  assumes "reaches s n peer self ha addr fd" "cb_iface (cb_table s i) = Some n" "peer = peer_addr (cb_table s i)"
    and "os_fine os now" "cb_txq (cb_table s i) = []" "cb_state (cb_table s i) = LISTEN" "e = os_endian os"
    and "th_flg h = 0x02" "th_off h = 0x50" "seq = ntoh32 e (th_seq h)" "iss = os_random os (Suc (sys_tick s))"
  shows "\<exists>s' hdr en. tcp_event_segment_arrives os wait i h segment 20 s = Inr s' \<and>
    emits fd (tcp_frame e ha addr self peer (ip_next_id s) (tcp_segment e self peer hdr [])) (cb_table s') s s' \<and>
    hdr = tcp_tx_hdr e ((cb_table s i)\<lparr>rcv_wnd := of_nat TCP_WINDOW_SIZE\<rparr>) iss (seq + 1) 0x12 \<and>
    cb_table s' = (cb_table s)(i := (cb_table s i)\<lparr>rcv_wnd := of_nat TCP_WINDOW_SIZE, rcv_nxt := seq + 1, cb_irs := seq, cb_iss := iss,
      cb_txq := [en], snd_nxt := iss + 1, snd_una := iss, cb_timeout := fst now + USER_TIMEOUT, cb_state := SYN_RCVD\<rparr>)"
proof -
  define t where "t = upd_cb i (\<lambda>cb. cb\<lparr>rcv_wnd := of_nat TCP_WINDOW_SIZE, rcv_nxt := seq + 1, cb_irs := seq, cb_iss := iss\<rparr>)
     (s\<lparr>sys_tick := Suc (Suc (sys_tick s))\<rparr>)"
  define hdr where "hdr = tcp_tx_hdr e (cb_table t i) iss (seq + 1) 0x12"
  have q: "tx_queues 0x12 []" by (simp add: tx_queues_def)
  have "same_net s t" unfolding t_def same_net_upd_cb by (simp add: same_net_def)
  then have r: "reaches t n peer self ha addr fd" using assms(1) reaches_cong [of s t] by (simp add: t_def)
  have held: "\<not> tx_held (cb_table t i) 0x12 []" using assms(5) by (simp add: tx_held_def txq_unsent_def t_def)
  obtain u where u: "tcp_reply os wait i iss (seq + 1) 0x12 now t = Inr u"
    "emits fd (tcp_frame e ha addr self peer (ip_next_id t) (tcp_segment e self peer hdr []))
      ((cb_table t)(i := (cb_table t i)\<lparr>
           cb_txq := cb_txq (cb_table t i) @ [\<lparr>tq_seg = hdr\<lparr>th_sum := tcp_sum e self peer hdr []\<rparr>, tq_data = [], tq_len = 20, tq_time = now\<rparr>]\<rparr>)) t u"
    using tcp_reply_sent [OF r, of i os now "0x12" e hdr iss "seq + 1" wait now] assms(2-5,7) q held by (auto simp: hdr_def t_def)
  define s' where "s' = upd_cb i (\<lambda>cb. cb\<lparr>snd_nxt := cb_iss cb + 1, snd_una := cb_iss cb,
                cb_timeout := fst now + USER_TIMEOUT, cb_state := SYN_RCVD\<rparr>) u"
  have listen: "tcp_listen_syn os wait i h now (s\<lparr>sys_tick := Suc (sys_tick s)\<rparr>) = Inr s'"
    using u(1) assms(7,10,11) by (simp add: tcp_listen_syn_def sys_random_def Let_def s'_def t_def)
  have st: "cb_state (cb_table s' i) = SYN_RCVD" by (simp add: s'_def)
  have rest: "tcp_seg_data os wait i h segment 0 now s' = Inr s'"
    using st assms(8) by (simp add: tcp_seg_data_def tcp_seg_urg_def tcp_seg_text_def tcp_seg_fin_def)
  have run: "tcp_event_segment_arrives os wait i h segment 20 s = Inr s'"
    using assms(4,6,8) listen rest
    by (simp add: tcp_event_segment_arrives_def sys_timeofday_def os_fine_def tcp_seg_listen_def data_len_control [OF assms(9)])
  obtain k ret where k: "u = t\<lparr>sys_tick := k, sys_sent := sys_sent t @ [(fd, tcp_frame e ha addr self peer (ip_next_id t)
       (tcp_segment e self peer hdr []), ret)], ip_next_id := ip_next_id t + 1, cb_table := (cb_table t)(i := (cb_table t i)\<lparr>
           cb_txq := cb_txq (cb_table t i) @ [\<lparr>tq_seg = hdr\<lparr>th_sum := tcp_sum e self peer hdr []\<rparr>, tq_data = [], tq_len = 20, tq_time = now\<rparr>]\<rparr>)\<rparr>"
    using u(2) unfolding emits_def by blast
  have em: "emits fd (tcp_frame e ha addr self peer (ip_next_id s) (tcp_segment e self peer hdr [])) (cb_table s') s s'"
    by (rule emitsI [where t = k and ret = ret]) (simp add: s'_def k t_def upd_cb_def)
  have tbl: "cb_table s' = (cb_table s)(i := (cb_table s i)\<lparr>rcv_wnd := of_nat TCP_WINDOW_SIZE, rcv_nxt := seq + 1, cb_irs := seq, cb_iss := iss,
      cb_txq := [\<lparr>tq_seg = hdr\<lparr>th_sum := tcp_sum e self peer hdr []\<rparr>, tq_data = [], tq_len = 20, tq_time = now\<rparr>],
      snd_nxt := iss + 1, snd_una := iss, cb_timeout := fst now + USER_TIMEOUT, cb_state := SYN_RCVD\<rparr>)"
    by (simp add: s'_def k t_def assms(5))
  have "hdr = tcp_tx_hdr e ((cb_table s i)\<lparr>rcv_wnd := of_nat TCP_WINDOW_SIZE\<rparr>) iss (seq + 1) 0x12"
    by (simp add: hdr_def t_def tcp_tx_hdr_def)
  then show ?thesis using run em tbl by blast
qed

lemma syn_rcvd_ack_run:
  fixes s :: "'a tcp_scheme"
  assumes "cb = cb_table s i" "cb_state cb = SYN_RCVD" "cb_parent cb = Some l" "l \<noteq> i" "os_fine os now" "e = os_endian os"
    and "th_flg h = 0x10" "th_off h = 0x50" "ntoh32 e (th_seq h) = rcv_nxt cb" "ntoh32 e (th_ack h) = snd_nxt cb"
    and "rcv_wnd cb = 0xffff" "rcv_nxt cb < rcv_nxt cb + 0xffff" "snd_una cb < snd_nxt cb"
  shows "\<exists>s' w. tcp_event_segment_arrives os wait i h segment 20 s = Inr s' \<and> sys_sent s' = sys_sent s \<and> tcp_mutex s' = tcp_mutex s \<and>
    cb_table s' = (cb_table s)(l := (cb_table s l)\<lparr>cb_backlog := cb_backlog (cb_table s l) @ [i]\<rparr>,
      i := w\<lparr>cb_state := ESTABLISHED, snd_una := snd_nxt cb, cb_timeout := fst now + USER_TIMEOUT\<rparr>) \<and>
    snd_nxt w = snd_nxt cb \<and> rcv_nxt w = rcv_nxt cb \<and> cb_used w = cb_used cb \<and> cb_port w = cb_port cb \<and>
    peer_addr w = peer_addr cb \<and> peer_port w = peer_port cb \<and> rcv_wnd w = rcv_wnd cb"
proof -
  define t where "t = tcp_seg_established os i (s\<lparr>sys_tick := Suc (sys_tick s)\<rparr>)"
  have t: "cb_table t = (cb_table s)(l := (cb_table s l)\<lparr>cb_backlog := cb_backlog (cb_table s l) @ [i]\<rparr>,
      i := cb\<lparr>cb_state := ESTABLISHED\<rparr>)" "sys_sent t = sys_sent s" "tcp_mutex t = tcp_mutex s"
    using assms(1,3-5) by (auto simp: t_def tcp_seg_established_def sys_malloc_def os_fine_def Let_def)
  define w where "w = ack_of_fin (snd_nxt cb) (ack_update (rcv_nxt cb) (snd_nxt cb) (ntoh16 e (th_win h)) now (cb\<lparr>cb_state := ESTABLISHED\<rparr>))"
  define s' where "s' = upd_cb i (\<lambda>cb. ack_of_fin (ntoh32 e (th_ack h)) (ack_update (ntoh32 e (th_seq h)) (ntoh32 e (th_ack h)) (ntoh16 e (th_win h)) now cb)) t"
  have s': "cb_table s' = (cb_table s)(l := (cb_table s l)\<lparr>cb_backlog := cb_backlog (cb_table s l) @ [i]\<rparr>, i := w)"
    "sys_sent s' = sys_sent s" "tcp_mutex s' = tcp_mutex s"
    using t assms(9,10) by (simp_all add: s'_def w_def)
  have w: "cb_state w = ESTABLISHED" "snd_una w = snd_nxt cb" "cb_timeout w = fst now + USER_TIMEOUT"
    "snd_nxt w = snd_nxt cb" "rcv_nxt w = rcv_nxt cb" "cb_used w = cb_used cb" "cb_port w = cb_port cb"
    "peer_addr w = peer_addr cb" "peer_port w = peer_port cb" "rcv_wnd w = rcv_wnd cb"
    using assms(13) by (simp_all add: w_def ack_of_fin_def ack_update_def Let_def)
  have "tcp_acceptable e cb h 0" using assms(9,11,12) by (simp add: tcp_acceptable_def Let_def)
  then have chk: "tcp_seg_check os wait i h 0 now (s\<lparr>sys_tick := Suc (sys_tick s)\<rparr>) = Inr (True, s\<lparr>sys_tick := Suc (sys_tick s)\<rparr>)"
    using assms(1,2,6,7) by (simp add: tcp_seg_check_def)
  have ack: "tcp_seg_ack os wait i h now (s\<lparr>sys_tick := Suc (sys_tick s)\<rparr>) = Inr (True, s')"
    using assms(1,2,6,7,10) less_imp_le [OF assms(13)] t(1) by (simp add: tcp_seg_ack_def tcp_seg_ack_open_def Let_def t_def [symmetric] s'_def)
  have rest: "tcp_seg_data os wait i h segment 0 now s' = Inr s'"
    using w(1) assms(7) by (simp add: tcp_seg_data_def tcp_seg_urg_def tcp_seg_text_def tcp_seg_fin_def s')
  have "tcp_event_segment_arrives os wait i h segment 20 s = Inr s'"
    using assms(1,2,5) chk ack rest
    by (simp add: tcp_event_segment_arrives_def sys_timeofday_def os_fine_def tcp_seg_open_def data_len_control [OF assms(8)])
  moreover have "w = w\<lparr>cb_state := ESTABLISHED, snd_una := snd_nxt cb, cb_timeout := fst now + USER_TIMEOUT\<rparr>"
    using w(1-3) by (cases w) simp
  ultimately show ?thesis using s' w(4-) by (intro exI [of _ s'] exI [of _ w]) simp
qed

lemma syn_sent_run:
  fixes s :: "'a tcp_scheme"
  assumes "reaches s n peer self ha addr fd" "cb_iface (cb_table s i) = Some n" "peer = peer_addr (cb_table s i)"
    and "cb = cb_table s i" "cb_state cb = SYN_SENT" "os_fine os now" "e = os_endian os"
    and "th_flg h = 0x12" "th_off h = 0x50" "seq = ntoh32 e (th_seq h)" "ntoh32 e (th_ack h) = snd_nxt cb"
    and "snd_una cb = cb_iss cb" "cb_iss cb < snd_nxt cb"
  shows "\<exists>s' hdr. tcp_event_segment_arrives os wait i h segment 20 s = Inr s' \<and>
    emits fd (tcp_frame e ha addr self peer (ip_next_id s) (tcp_segment e self peer hdr [])) (cb_table s') s s' \<and>
    hdr = tcp_tx_hdr e cb (snd_nxt cb) (seq + 1) 0x10 \<and>
    cb_table s' = (cb_table s)(i := cb\<lparr>rcv_nxt := seq + 1, cb_irs := seq, snd_una := snd_nxt cb,
      cb_timeout := fst now + USER_TIMEOUT, cb_state := ESTABLISHED\<rparr>)"
proof -
  define t where "t = upd_cb i (\<lambda>cb. cb\<lparr>rcv_nxt := seq + 1, cb_irs := seq, snd_una := snd_nxt cb,
      cb_timeout := fst now + USER_TIMEOUT, cb_state := ESTABLISHED\<rparr>) (s\<lparr>sys_tick := Suc (sys_tick s)\<rparr>)"
  define hdr where "hdr = tcp_tx_hdr e (cb_table t i) (snd_nxt cb) (seq + 1) 0x10"
  have "same_net s t" unfolding t_def same_net_upd_cb by (simp add: same_net_def)
  then have r: "reaches t n peer self ha addr fd" using assms(1) reaches_cong [of s t] by (simp add: t_def)
  have q: "\<not> tx_queues 0x10 []" by (simp add: tx_queues_def)
  obtain s' where s': "tcp_reply os wait i (snd_nxt cb) (seq + 1) 0x10 now t = Inr s'"
    "emits fd (tcp_frame e ha addr self peer (ip_next_id t) (tcp_segment e self peer hdr [])) (cb_table t) t s'"
    using tcp_reply_sent [OF r, of i os now "0x10" e hdr "snd_nxt cb" "seq + 1" wait now] assms(2,3,6,7) q
    by (auto simp: hdr_def t_def)
  have run: "tcp_event_segment_arrives os wait i h segment 20 s = Inr s'"
    using s'(1) assms(4-8,10-13) less_imp_le [OF assms(13)] not_le [of "snd_nxt cb" "cb_iss cb"]
    by (simp add: tcp_event_segment_arrives_def sys_timeofday_def os_fine_def tcp_seg_syn_sent_def tcp_syn_sent_syn_def
        data_len_control [OF assms(9)] Let_def t_def upd_cb_def)
  obtain k ret where k: "s' = t\<lparr>sys_tick := k, sys_sent := sys_sent t @ [(fd, tcp_frame e ha addr self peer (ip_next_id t)
       (tcp_segment e self peer hdr []), ret)], ip_next_id := ip_next_id t + 1, cb_table := cb_table t\<rparr>"
    using s'(2) unfolding emits_def by blast
  have "emits fd (tcp_frame e ha addr self peer (ip_next_id s) (tcp_segment e self peer hdr [])) (cb_table s') s s'"
    by (rule emitsI [where t = k and ret = ret]) (simp add: k t_def upd_cb_def)
  moreover have "hdr = tcp_tx_hdr e cb (snd_nxt cb) (seq + 1) 0x10" by (simp add: hdr_def t_def tcp_tx_hdr_def assms(4))
  moreover have "cb_table s' = (cb_table s)(i := cb\<lparr>rcv_nxt := seq + 1, cb_irs := seq, snd_una := snd_nxt cb,
      cb_timeout := fst now + USER_TIMEOUT, cb_state := ESTABLISHED\<rparr>)" by (simp add: k t_def assms(4))
  ultimately show ?thesis using run by blast
qed

lemma connect_start_run:
  fixes s :: "'a tcp_scheme"
  assumes "reaches s n peer self ha addr fd" "default_netif s = Some n" "cb = cb_table s i" "cb_used cb" "cb_state cb = CLOSED"
    and "cb_port cb \<noteq> 0" "cb_txq cb = []" "os_fine os now" "e = os_endian os" "iss = os_random os (Suc (sys_tick s))"
  shows "\<exists>s' hdr en. tcp_connect_start os wait i peer port s = Inr (True, s') \<and>
    emits fd (tcp_frame e ha addr self peer (ip_next_id s) (tcp_segment e self peer hdr [])) (cb_table s') s s' \<and>
    hdr = tcp_tx_hdr e (cb\<lparr>peer_port := hton16 e port, rcv_wnd := of_nat TCP_WINDOW_SIZE\<rparr>) iss 0 0x02 \<and>
    cb_table s' = (cb_table s)(i := cb\<lparr>peer_addr := peer, peer_port := hton16 e port, cb_iface := Some n,
      rcv_wnd := of_nat TCP_WINDOW_SIZE, cb_iss := iss, cb_txq := [en], snd_una := iss, snd_nxt := iss + 1,
      cb_timeout := fst now + USER_TIMEOUT, cb_state := SYN_SENT\<rparr>)"
proof -
  define t where "t = upd_cb i (\<lambda>cb. cb\<lparr>peer_addr := peer, peer_port := hton16 e port, cb_iface := Some n,
      rcv_wnd := of_nat TCP_WINDOW_SIZE, cb_iss := iss\<rparr>) (s\<lparr>sys_tick := Suc (Suc (sys_tick s))\<rparr>)"
  define hdr where "hdr = tcp_tx_hdr e (cb_table t i) iss 0 0x02"
  have "same_net s t" unfolding t_def same_net_upd_cb by (simp add: same_net_def)
  then have r: "reaches t n peer self ha addr fd" using assms(1) reaches_cong [of s t] by (simp add: t_def)
  have q: "tx_queues 0x02 []" "\<not> tx_held (cb_table t i) 0x02 []"
    using assms(3,7) by (simp_all add: tx_queues_def tx_held_def txq_unsent_def t_def)
  have os: "\<forall>k. os_malloc os k" "\<forall>k. os_ret os k = int (14 + max 46 (40 + length ([] :: bytes)))" "length ([] :: bytes) \<le> 1460"
    using assms(8) by (simp_all add: os_fine_def)
  have iface: "cb_iface (cb_table t i) = Some n" "peer = peer_addr (cb_table t i)" by (simp_all add: t_def)
  obtain u where u: "tcp_tx os wait i iss 0 0x02 now [] t = Inr (0, u)"
    "emits fd (tcp_frame e ha addr self peer (ip_next_id t) (tcp_segment e self peer hdr []))
      ((cb_table t)(i := (cb_table t i)\<lparr>
           cb_txq := cb_txq (cb_table t i) @ [\<lparr>tq_seg = hdr\<lparr>th_sum := tcp_sum e self peer hdr []\<rparr>, tq_data = [], tq_len = 20, tq_time = now\<rparr>]\<rparr>)) t u"
    using tcp_tx_sent [OF r iface os(3,2,1) _ assms(9) hdr_def, of wait now] q by auto
  define s' where "s' = upd_cb i (\<lambda>cb. cb\<lparr>snd_una := cb_iss cb, snd_nxt := cb_iss cb + 1,
                            cb_timeout := fst now + USER_TIMEOUT, cb_state := SYN_SENT\<rparr>) u"
  have run: "tcp_connect_start os wait i peer port s = Inr (True, s')"
    using u(1) assms(2-6,8-10)
    by (simp add: tcp_connect_start_def sys_timeofday_def os_fine_def tcp_connect_port_def ip_netif_by_peer_def sys_random_def
        Let_def s'_def t_def upd_cb_def)
  obtain k ret where k: "u = t\<lparr>sys_tick := k, sys_sent := sys_sent t @ [(fd, tcp_frame e ha addr self peer (ip_next_id t)
       (tcp_segment e self peer hdr []), ret)], ip_next_id := ip_next_id t + 1, cb_table := (cb_table t)(i := (cb_table t i)\<lparr>
           cb_txq := cb_txq (cb_table t i) @ [\<lparr>tq_seg = hdr\<lparr>th_sum := tcp_sum e self peer hdr []\<rparr>, tq_data = [], tq_len = 20, tq_time = now\<rparr>]\<rparr>)\<rparr>"
    using u(2) unfolding emits_def by blast
  have em: "emits fd (tcp_frame e ha addr self peer (ip_next_id s) (tcp_segment e self peer hdr [])) (cb_table s') s s'"
    by (rule emitsI [where t = k and ret = ret]) (simp add: s'_def k t_def upd_cb_def)
  have tbl: "cb_table s' = (cb_table s)(i := cb\<lparr>peer_addr := peer, peer_port := hton16 e port, cb_iface := Some n,
      rcv_wnd := of_nat TCP_WINDOW_SIZE, cb_iss := iss,
      cb_txq := [\<lparr>tq_seg = hdr\<lparr>th_sum := tcp_sum e self peer hdr []\<rparr>, tq_data = [], tq_len = 20, tq_time = now\<rparr>],
      snd_una := iss, snd_nxt := iss + 1, cb_timeout := fst now + USER_TIMEOUT, cb_state := SYN_SENT\<rparr>)"
    using assms(3,7) by (simp add: s'_def k t_def)
  have "hdr = tcp_tx_hdr e (cb\<lparr>peer_port := hton16 e port, rcv_wnd := of_nat TCP_WINDOW_SIZE\<rparr>) iss 0 0x02"
    by (simp add: hdr_def t_def tcp_tx_hdr_def assms(3))
  then show ?thesis using run em tbl by blast
qed

section \<open>The server\<close>

text \<open>No block but \<open>k\<close> is in use for the port.\<close>

definition port_only :: "(nat \<Rightarrow> tcp_cb) \<Rightarrow> nat \<Rightarrow> u16 \<Rightarrow> bool" where
  "port_only tbl k port \<longleftrightarrow> (\<forall>j < TCP_CB_TABLE_SIZE. j \<noteq> k \<longrightarrow> IS_FREE_CB (tbl j) \<or> cb_port (tbl j) \<noteq> port)"

lemma emits_locked:
  assumes "emits fd frame tbl (s\<lparr>tcp_mutex := True\<rparr>) u" "\<not> tcp_mutex s"
  shows "emits fd frame tbl s (tcp_unlock u)"
proof -
  obtain t ret where "u = s\<lparr>tcp_mutex := True, sys_tick := t, sys_sent := sys_sent s @ [(fd, frame, ret)], ip_next_id := ip_next_id s + 1,
      cb_table := tbl\<rparr>"
    using assms(1) by (auto simp: emits_def)
  then show ?thesis using assms(2) by (intro emitsI [where t = t and ret = ret]) (simp add: tcp_unlock_def)
qed

lemma emits_upd: "emits fd frame tbl (upd_cb i f s) u = emits fd frame tbl s u"
  by (simp add: emits_def upd_cb_def)

lemma tcp_host_cong:
  "same_net s s' \<Longrightarrow> protocols s' = protocols s \<Longrightarrow> tcp_host s' d n self ha = tcp_host s d n self ha"
  by (simp add: tcp_host_def same_net_def protos_distinct_def find_proto_def netdev_get_netif_def)

lemma server_syn:
  fixes s :: "'a tcp_scheme"
  assumes host: "tcp_host s d n self ha" "reaches s n peer self ha' ha fd" "\<not> tcp_mutex s"
    and lis: "l < TCP_CB_TABLE_SIZE" "cb_state (cb_table s l) = LISTEN" "cb_iface (cb_table s l) = None" "cb_port (cb_table s l) = th_dst hdr"
      "peer_addr (cb_table s l) \<noteq> peer" "port_only (cb_table s) l (th_dst hdr)"
    and free: "find (\<lambda>i. IS_FREE_CB (cb_table s i)) [0..<TCP_CB_TABLE_SIZE] = Some f" "cb_txq (cb_table s f) = []"
    and hdr: "th_sum hdr = 0" "th_flg hdr = 0x02" "th_off hdr = 0x50" "seq = ntoh32 e (th_seq hdr)"
    and os: "os_fine os now" "e = os_endian os" "iss = os_random os (Suc (sys_tick s))" "length ha' = 6"
  shows "\<exists>s' hdr' en. receive os wait d (tcp_frame e ha ha' peer self ident (tcp_segment e peer self hdr [])) s = Inr s' \<and>
    emits fd (tcp_frame e ha' ha self peer (ip_next_id s) (tcp_segment e self peer hdr' [])) (cb_table s') s s' \<and>
    hdr' = \<lparr>th_src = th_dst hdr, th_dst = th_src hdr, th_seq = hton32 e iss, th_ack = hton32 e (seq + 1), th_off = 0x50,
       th_flg = 0x12, th_win = hton16 e 0xffff, th_sum = 0, th_urg = 0\<rparr> \<and>
    cb_table s' = (cb_table s)(f := (cb_table s f)\<lparr>cb_port := th_dst hdr, cb_parent := Some l, cb_iface := Some n,
      peer_addr := peer, peer_port := th_src hdr, rcv_wnd := 0xffff, rcv_nxt := seq + 1, cb_irs := seq, cb_iss := iss,
      cb_txq := [en], snd_nxt := iss + 1, snd_una := iss, cb_timeout := fst now + USER_TIMEOUT, cb_state := SYN_RCVD\<rparr>)"
proof -
  define h where "h = hdr\<lparr>th_sum := tcp_sum e peer self hdr []\<rparr>"
  have h: "th_src h = th_src hdr" "th_dst h = th_dst hdr" "th_flg h = 0x02" "th_off h = 0x50" "seq = ntoh32 e (th_seq h)"
    using hdr by (simp_all add: h_def)
  obtain ni where ni: "net_ifs s n = Some ni" "unicast ni = self" using host(1) by (auto simp: tcp_host_def)
  have ha: "length ha = 6" using host(1) by (simp add: tcp_host_def)
  have lf: "\<not> IS_FREE_CB (cb_table s l)" using lis(2) by (simp add: IS_FREE_CB_def)
  have none: "find (scan_hit (cb_table s) n peer h) [0..<TCP_CB_TABLE_SIZE] = None"
    using lis(5,6) lf by (auto simp: find_None_iff scan_hit_def cb_for_port_def cb_for_peer_def port_only_def h)
  have "find (\<lambda>i. cb_for_port n (th_dst h) (cb_table s i) \<and> cb_state (cb_table s i) = LISTEN) [0..<TCP_CB_TABLE_SIZE] = Some l"
    using lis lf by (intro find_first) (auto simp: cb_for_port_def port_only_def h)
  with scan_missed [OF none, of None None] free(1)
  have scan: "tcp_rx_scan (cb_table s) n peer h [0..<TCP_CB_TABLE_SIZE] None None = (None, Some f, Some l)" by simp
  define t where "t = tcp_rx_new f n (Some l) peer (th_src h) (s\<lparr>tcp_mutex := True\<rparr>)"
  have t: "cb_table t = (cb_table s)(f := (cb_table s f)\<lparr>cb_state := LISTEN, cb_port := th_dst hdr, cb_parent := Some l, cb_iface := Some n,
      peer_addr := peer, peer_port := th_src hdr\<rparr>)" "sys_tick t = sys_tick s" "ip_next_id t = ip_next_id s"
    using lis(2,4) by (simp_all add: t_def tcp_rx_new_def h)
  have "same_net s t" unfolding t_def tcp_rx_new_def same_net_upd_cb by (simp add: same_net_def)
  then have r: "reaches t n peer self ha' ha fd" using host(2) reaches_cong [of s t] by (simp add: t_def tcp_rx_new_def)
  define seg where "seg = tcp_segment e peer self hdr [] @ replicate 6 0"
  have f: "cb_iface (cb_table t f) = Some n" "peer = peer_addr (cb_table t f)" "cb_txq (cb_table t f) = []" "cb_state (cb_table t f) = LISTEN"
    using free(2) by (simp_all add: t(1))
  have iss: "iss = os_random os (Suc (sys_tick t))" using os(3) by (simp add: t(2))
  obtain u hdr' en where u: "tcp_event_segment_arrives os wait f h seg 20 t = Inr u"
    "emits fd (tcp_frame e ha' ha self peer (ip_next_id t) (tcp_segment e self peer hdr' [])) (cb_table u) t u"
    "hdr' = tcp_tx_hdr e ((cb_table t f)\<lparr>rcv_wnd := of_nat TCP_WINDOW_SIZE\<rparr>) iss (seq + 1) 0x12"
    "cb_table u = (cb_table t)(f := (cb_table t f)\<lparr>rcv_wnd := of_nat TCP_WINDOW_SIZE, rcv_nxt := seq + 1, cb_irs := seq, cb_iss := iss,
      cb_txq := [en], snd_nxt := iss + 1, snd_una := iss, cb_timeout := fst now + USER_TIMEOUT, cb_state := SYN_RCVD\<rparr>)"
    using listen_syn_run [OF r f(1,2) os(1) f(3,4) os(2) h(3-5) iss, of wait seg] by blast
  have "receive os wait d (tcp_frame e ha ha' peer self ident (tcp_segment e peer self hdr [])) s =
      tcp_rx os wait seg 20 peer self n s"
    using tcp_frame_rx [OF host(1) os(4), of "tcp_segment e peer self hdr []" os wait peer ident] by (simp add: os(2) seg_def)
  moreover have "tcp_rx os wait seg (20 + length ([] :: bytes)) peer self n s = Inr (tcp_unlock u)"
    by (subst tcp_rx_valid [OF ni host(3) hdr(1) _ os(2) h_def seg_def]) (simp_all add: scan u(1) flip: t_def)
  ultimately have rx: "receive os wait d (tcp_frame e ha ha' peer self ident (tcp_segment e peer self hdr [])) s = Inr (tcp_unlock u)"
    by simp
  have em: "emits fd (tcp_frame e ha' ha self peer (ip_next_id s) (tcp_segment e self peer hdr' [])) (cb_table u) s (tcp_unlock u)"
    using u(2) emits_locked [OF _ host(3)] unfolding t_def tcp_rx_new_def emits_upd by simp
  have hd: "hdr' = \<lparr>th_src = th_dst hdr, th_dst = th_src hdr, th_seq = hton32 e iss, th_ack = hton32 e (seq + 1), th_off = 0x50,
       th_flg = 0x12, th_win = hton16 e 0xffff, th_sum = 0, th_urg = 0\<rparr>"
    using u(3) t(1) by (simp add: tcp_tx_hdr_def)
  show ?thesis
    using rx em hd u(4) t(1) by (intro exI [of _ "tcp_unlock u"] exI [of _ hdr'] exI [of _ en]) simp
qed

lemma rx_hit_eq:
  assumes host: "tcp_host s d n self ha" "\<not> tcp_mutex s" "length ha' = 6"
    and hit: "i < TCP_CB_TABLE_SIZE" "scan_hit (cb_table s) n peer hdr i"
      "\<And>j. j < TCP_CB_TABLE_SIZE \<Longrightarrow> j \<noteq> i \<Longrightarrow> \<not> scan_hit (cb_table s) n peer hdr j"
    and hdr: "th_sum hdr = 0" "e = os_endian os" "h = hdr\<lparr>th_sum := tcp_sum e peer self hdr data\<rparr>" "length data \<le> 1460"
    and seg: "segment = tcp_segment e peer self hdr data @ replicate (6 - length data) 0"
  shows "receive os wait d (tcp_frame e ha ha' peer self ident (tcp_segment e peer self hdr data)) s =
    bindr (tcp_event_segment_arrives os wait i h segment (20 + length data) (s\<lparr>tcp_mutex := True\<rparr>)) (\<lambda>u. Inr (tcp_unlock u))"
proof -
  obtain ni where ni: "net_ifs s n = Some ni" "unicast ni = self" using host(1) by (auto simp: tcp_host_def)
  obtain f l where scan: "tcp_rx_scan (cb_table s) n peer h [0..<TCP_CB_TABLE_SIZE] None None = (Some i, f, l)"
    using scan_hitI [OF hit] scan_cong [of h hdr "cb_table s" n peer] hdr(3) by auto
  have "receive os wait d (tcp_frame e ha ha' peer self ident (tcp_segment e peer self hdr data)) s =
      tcp_rx os wait segment (20 + length data) peer self n s"
    using tcp_frame_rx [OF host(1,3), of "tcp_segment e peer self hdr data" os wait peer ident] hdr(4) by (simp add: hdr(2) seg)
  also have "\<dots> = bindr (tcp_event_segment_arrives os wait i h segment (20 + length data) (s\<lparr>tcp_mutex := True\<rparr>)) (\<lambda>u. Inr (tcp_unlock u))"
    by (subst tcp_rx_valid [OF ni host(2) hdr(1) _ hdr(2,3) seg]) (use hdr(4) in \<open>simp_all add: scan\<close>)
  finally show ?thesis .
qed

lemma rx_hit_data:
  assumes "tcp_host s d n self ha" "\<not> tcp_mutex s" "length ha' = 6"
    and "i < TCP_CB_TABLE_SIZE" "scan_hit (cb_table s) n peer hdr i"
      "\<And>j. j < TCP_CB_TABLE_SIZE \<Longrightarrow> j \<noteq> i \<Longrightarrow> \<not> scan_hit (cb_table s) n peer hdr j"
    and "th_sum hdr = 0" "e = os_endian os" "h = hdr\<lparr>th_sum := tcp_sum e peer self hdr data\<rparr>" "length data \<le> 1460"
    and "segment = tcp_segment e peer self hdr data @ replicate (6 - length data) 0"
    and "tcp_event_segment_arrives os wait i h segment (20 + length data) (s\<lparr>tcp_mutex := True\<rparr>) = Inr u"
  shows "receive os wait d (tcp_frame e ha ha' peer self ident (tcp_segment e peer self hdr data)) s = Inr (tcp_unlock u)"
  using rx_hit_eq [OF assms(1-11), of wait ident] assms(12) by simp

lemma rx_hit:
  assumes "tcp_host s d n self ha" "\<not> tcp_mutex s" "length ha' = 6"
    and "i < TCP_CB_TABLE_SIZE" "scan_hit (cb_table s) n peer hdr i"
      "\<And>j. j < TCP_CB_TABLE_SIZE \<Longrightarrow> j \<noteq> i \<Longrightarrow> \<not> scan_hit (cb_table s) n peer hdr j"
    and "th_sum hdr = 0" "e = os_endian os" "h = hdr\<lparr>th_sum := tcp_sum e peer self hdr []\<rparr>"
    and "segment = tcp_segment e peer self hdr [] @ replicate 6 0"
    and "tcp_event_segment_arrives os wait i h segment 20 (s\<lparr>tcp_mutex := True\<rparr>) = Inr u"
  shows "receive os wait d (tcp_frame e ha ha' peer self ident (tcp_segment e peer self hdr [])) s = Inr (tcp_unlock u)"
  using rx_hit_data [OF assms(1-9), of segment wait u ident] assms(10,11) by simp

lemma server_ack:
  fixes s :: "'a tcp_scheme"
  assumes host: "tcp_host s d n self ha" "\<not> tcp_mutex s" "length ha' = 6"
    and cb: "cb = cb_table s f" "f < TCP_CB_TABLE_SIZE" "cb_state cb = SYN_RCVD" "cb_parent cb = Some l" "l \<noteq> f" "cb_iface cb = Some n"
      "cb_port cb = th_dst hdr" "peer_addr cb = peer" "peer_port cb = th_src hdr" "rcv_wnd cb = 0xffff"
      "rcv_nxt cb < rcv_nxt cb + 0xffff" "snd_una cb < snd_nxt cb"
    and others: "\<And>j. j < TCP_CB_TABLE_SIZE \<Longrightarrow> j \<noteq> f \<Longrightarrow> \<not> scan_hit (cb_table s) n peer hdr j"
    and hdr: "th_sum hdr = 0" "th_flg hdr = 0x10" "th_off hdr = 0x50" "ntoh32 e (th_seq hdr) = rcv_nxt cb" "ntoh32 e (th_ack hdr) = snd_nxt cb"
    and os: "os_fine os now" "e = os_endian os"
  shows "\<exists>s' w. receive os wait d (tcp_frame e ha ha' peer self ident (tcp_segment e peer self hdr [])) s = Inr s' \<and>
    sys_sent s' = sys_sent s \<and> \<not> tcp_mutex s' \<and>
    cb_table s' = (cb_table s)(l := (cb_table s l)\<lparr>cb_backlog := cb_backlog (cb_table s l) @ [f]\<rparr>,
      f := w\<lparr>cb_state := ESTABLISHED, snd_una := snd_nxt cb, cb_timeout := fst now + USER_TIMEOUT\<rparr>) \<and>
    snd_nxt w = snd_nxt cb \<and> rcv_nxt w = rcv_nxt cb"
proof -
  define h where "h = hdr\<lparr>th_sum := tcp_sum e peer self hdr []\<rparr>"
  have h: "th_flg h = 0x10" "th_off h = 0x50" "ntoh32 e (th_seq h) = rcv_nxt cb" "ntoh32 e (th_ack h) = snd_nxt cb"
    using hdr by (simp_all add: h_def)
  define seg where "seg = tcp_segment e peer self hdr [] @ replicate 6 0"
  have cb': "cb = cb_table (s\<lparr>tcp_mutex := True\<rparr>) f" using cb(1) by simp
  obtain u w where u: "tcp_event_segment_arrives os wait f h seg 20 (s\<lparr>tcp_mutex := True\<rparr>) = Inr u"
    "sys_sent u = sys_sent s" "cb_table u = (cb_table s)(l := (cb_table s l)\<lparr>cb_backlog := cb_backlog (cb_table s l) @ [f]\<rparr>,
      f := w\<lparr>cb_state := ESTABLISHED, snd_una := snd_nxt cb, cb_timeout := fst now + USER_TIMEOUT\<rparr>)"
    "snd_nxt w = snd_nxt cb" "rcv_nxt w = rcv_nxt cb"
    using syn_rcvd_ack_run [OF cb' cb(3-5) os(1,2) h cb(10-12), of wait seg] by auto
  have hit: "scan_hit (cb_table s) n peer hdr f"
    using cb by (simp add: scan_hit_def cb_for_port_def cb_for_peer_def IS_FREE_CB_def)
  from rx_hit [OF host cb(2) hit others hdr(1) os(2) h_def seg_def u(1)] show ?thesis
    using u(2-5) by (intro exI [of _ "tcp_unlock u"] exI [of _ w]) (simp add: tcp_unlock_def)
qed

lemma accept_run:
  assumes "l < TCP_CB_TABLE_SIZE" "cb_used (cb_table s l)" "cb_state (cb_table s l) = LISTEN" "cb_backlog (cb_table s l) = f # bs" "\<not> tcp_mutex s"
    and "f \<noteq> l"
  shows "\<exists>s'. tcp_api_accept others (int l) s = Inr (int f, s') \<and>
    cb_table s' = (cb_table s)(l := (cb_table s l)\<lparr>cb_backlog := bs\<rparr>, f := (cb_table s f)\<lparr>cb_used := True\<rparr>) \<and> \<not> tcp_mutex s'"
proof -
  have "\<not> TCP_SOCKET_INVALID (int l)" using assms(1) by (simp add: TCP_SOCKET_INVALID_def)
  then show ?thesis
    using assms(2-6) by (cases others) (auto simp: tcp_api_accept_def tcp_lock_def tcp_accept_try_def Let_def)
qed

section \<open>The client\<close>

text \<open>A frame that arrives while the client waits.\<close>

definition deliver :: "os \<Rightarrow> 'a tcp_scheme waits \<Rightarrow> nat \<Rightarrow> bytes \<Rightarrow> 'a tcp_scheme \<Rightarrow> 'a tcp_scheme" where
  "deliver os wait d frame s = (case receive os wait d frame s of Inr s' \<Rightarrow> s' | Inl _ \<Rightarrow> s)"

lemma client_syn_ack:
  fixes s :: "'a tcp_scheme"
  assumes host: "tcp_host s d n self ha" "reaches s n peer self ha' ha fd" "\<not> tcp_mutex s" "length ha' = 6"
    and cb: "cb = cb_table s i" "i < TCP_CB_TABLE_SIZE" "cb_state cb = SYN_SENT" "cb_iface cb = Some n" "peer_addr cb = peer"
      "cb_port cb = th_dst hdr" "peer_port cb = th_src hdr" "port_only (cb_table s) i (th_dst hdr)"
      "snd_una cb = cb_iss cb" "cb_iss cb < snd_nxt cb"
    and hdr: "th_sum hdr = 0" "th_flg hdr = 0x12" "th_off hdr = 0x50" "seq = ntoh32 e (th_seq hdr)" "ntoh32 e (th_ack hdr) = snd_nxt cb"
    and os: "os_fine os now" "e = os_endian os"
  shows "\<exists>s' hdr'. receive os wait d (tcp_frame e ha ha' peer self ident (tcp_segment e peer self hdr [])) s = Inr s' \<and>
    emits fd (tcp_frame e ha' ha self peer (ip_next_id s) (tcp_segment e self peer hdr' [])) (cb_table s') s s' \<and>
    hdr' = tcp_tx_hdr e cb (snd_nxt cb) (seq + 1) 0x10 \<and>
    cb_table s' = (cb_table s)(i := cb\<lparr>rcv_nxt := seq + 1, cb_irs := seq, snd_una := snd_nxt cb,
      cb_timeout := fst now + USER_TIMEOUT, cb_state := ESTABLISHED\<rparr>)"
proof -
  define h where "h = hdr\<lparr>th_sum := tcp_sum e peer self hdr []\<rparr>"
  have h: "th_flg h = 0x12" "th_off h = 0x50" "seq = ntoh32 e (th_seq h)" "ntoh32 e (th_ack h) = snd_nxt cb"
    using hdr by (simp_all add: h_def)
  define seg where "seg = tcp_segment e peer self hdr [] @ replicate 6 0"
  define t where "t = s\<lparr>tcp_mutex := True\<rparr>"
  have t: "cb = cb_table t i" "cb_iface (cb_table t i) = Some n" "peer = peer_addr (cb_table t i)" "ip_next_id t = ip_next_id s"
    "cb_table t = cb_table s"
    using cb(1,4,5) by (simp_all add: t_def)
  have r: "reaches t n peer self ha' ha fd" using host(2) reaches_cong [of s t] by (simp add: t_def same_net_def)
  obtain u hdr' where u: "tcp_event_segment_arrives os wait i h seg 20 t = Inr u"
    "emits fd (tcp_frame e ha' ha self peer (ip_next_id t) (tcp_segment e self peer hdr' [])) (cb_table u) t u"
    "hdr' = tcp_tx_hdr e cb (snd_nxt cb) (seq + 1) 0x10"
    "cb_table u = (cb_table t)(i := cb\<lparr>rcv_nxt := seq + 1, cb_irs := seq, snd_una := snd_nxt cb,
      cb_timeout := fst now + USER_TIMEOUT, cb_state := ESTABLISHED\<rparr>)"
    using syn_sent_run [OF r t(2,3,1) cb(3) os h cb(9,10), of wait seg] by blast
  have hit: "scan_hit (cb_table s) n peer hdr i"
    using cb by (simp add: scan_hit_def cb_for_port_def cb_for_peer_def IS_FREE_CB_def)
  have others: "\<not> scan_hit (cb_table s) n peer hdr j" if "j < TCP_CB_TABLE_SIZE" "j \<noteq> i" for j
    using cb(8) that by (auto simp: port_only_def scan_hit_def cb_for_port_def)
  have "receive os wait d (tcp_frame e ha ha' peer self ident (tcp_segment e peer self hdr [])) s = Inr (tcp_unlock u)"
    by (rule rx_hit [OF host(1,3,4) cb(2) hit others hdr(1) os(2) h_def seg_def u(1) [unfolded t_def]])
  then show ?thesis
    using emits_locked [OF u(2) [unfolded t_def] host(3)] u(3,4) t(5)
    by (intro exI [of _ "tcp_unlock u"] exI [of _ hdr']) simp
qed

lemma client_connect:
  fixes s :: "'a tcp_scheme"
  assumes host: "tcp_host s d n self ha" "reaches s n peer self ha' ha fd" "default_netif s = Some n" "\<not> tcp_mutex s" "length ha' = 6"
    and cb: "cb = cb_table s i" "i < TCP_CB_TABLE_SIZE" "cb_used cb" "cb_state cb = CLOSED" "cb_port cb \<noteq> 0" "cb_txq cb = []"
      "port_only (cb_table s) i (cb_port cb)"
    and os: "os_fine os now" "e = os_endian os" "iss = os_random os (Suc (sys_tick s))" "iss < iss + 1"
    and hdr: "th_sum hdr = 0" "th_flg hdr = 0x12" "th_off hdr = 0x50" "seq = ntoh32 e (th_seq hdr)" "ntoh32 e (th_ack hdr) = iss + 1"
      "th_src hdr = hton16 e port" "th_dst hdr = cb_port cb"
  shows "\<exists>s' ret ret' syn ack.
    tcp_api_connect os wait [deliver os wait d (tcp_frame e ha ha' peer self ident (tcp_segment e peer self hdr []))] (int i) peer port s =
      Inr (0, s') \<and>
    sys_sent s' = sys_sent s @
      [(fd, tcp_frame e ha' ha self peer (ip_next_id s) (tcp_segment e self peer syn []), ret),
       (fd, tcp_frame e ha' ha self peer (ip_next_id s + 1) (tcp_segment e self peer ack []), ret')] \<and>
    syn = \<lparr>th_src = cb_port cb, th_dst = hton16 e port, th_seq = hton32 e iss, th_ack = hton32 e 0, th_off = 0x50,
       th_flg = 0x02, th_win = hton16 e 0xffff, th_sum = 0, th_urg = 0\<rparr> \<and>
    ack = \<lparr>th_src = cb_port cb, th_dst = hton16 e port, th_seq = hton32 e (iss + 1), th_ack = hton32 e (seq + 1), th_off = 0x50,
       th_flg = 0x10, th_win = hton16 e 0xffff, th_sum = 0, th_urg = 0\<rparr> \<and>
    \<not> tcp_mutex s' \<and> cb_state (cb_table s' i) = ESTABLISHED \<and> snd_nxt (cb_table s' i) = iss + 1 \<and>
    snd_una (cb_table s' i) = iss + 1 \<and> rcv_nxt (cb_table s' i) = seq + 1 \<and>
    snd_wnd (cb_table s' i) = snd_wnd cb \<and> cb_used (cb_table s' i) \<and> cb_iface (cb_table s' i) = Some n \<and> same_net s s'"
proof -
  define F where "F = tcp_frame e ha ha' peer self ident (tcp_segment e peer self hdr [])"
  define t where "t = s\<lparr>tcp_mutex := True\<rparr>"
  have t: "cb = cb_table t i" "default_netif t = Some n" "ip_next_id t = ip_next_id s" "sys_sent t = sys_sent s" "sys_tick t = sys_tick s"
    "cb_table t = cb_table s"
    using cb(1) host(3) by (simp_all add: t_def)
  have r: "reaches t n peer self ha' ha fd" using host(2) reaches_cong [of s t] by (simp add: t_def same_net_def)
  obtain u syn en where u: "tcp_connect_start os wait i peer port t = Inr (True, u)"
    "emits fd (tcp_frame e ha' ha self peer (ip_next_id t) (tcp_segment e self peer syn [])) (cb_table u) t u"
    "syn = tcp_tx_hdr e (cb\<lparr>peer_port := hton16 e port, rcv_wnd := of_nat TCP_WINDOW_SIZE\<rparr>) iss 0 0x02"
    "cb_table u = (cb_table t)(i := cb\<lparr>peer_addr := peer, peer_port := hton16 e port, cb_iface := Some n,
      rcv_wnd := of_nat TCP_WINDOW_SIZE, cb_iss := iss, cb_txq := [en], snd_una := iss, snd_nxt := iss + 1,
      cb_timeout := fst now + USER_TIMEOUT, cb_state := SYN_SENT\<rparr>)"
    using connect_start_run [OF r t(2,1) cb(3-6) os(1,2), of iss wait port] os(3) t(5) by auto
  define v where "v = tcp_unlock u"
  have v: "emits fd (tcp_frame e ha' ha self peer (ip_next_id s) (tcp_segment e self peer syn [])) (cb_table u) s v"
    using emits_locked [OF u(2) [unfolded t_def] host(4)] by (simp add: v_def)
  note vs = emits_simps [OF v]
  have vh: "tcp_host v d n self ha" "reaches v n peer self ha' ha fd" "\<not> tcp_mutex v"
    using host(1,2,4) tcp_host_cong [OF vs(3,5)] reaches_cong [OF vs(3,4)] vs(2) by simp_all
  define cb1 where "cb1 = cb_table v i"
  have c1: "cb_state cb1 = SYN_SENT" "cb_iface cb1 = Some n" "peer_addr cb1 = peer" "cb_port cb1 = th_dst hdr" "peer_port cb1 = th_src hdr"
    "snd_una cb1 = cb_iss cb1" "cb_iss cb1 < snd_nxt cb1" "snd_nxt cb1 = iss + 1" "rcv_wnd cb1 = 0xffff"
    using os(4) hdr(6,7) by (simp_all add: cb1_def vs(1) u(4))
  have po: "port_only (cb_table v) i (th_dst hdr)" using cb(7) hdr(7) by (simp add: vs(1) u(4) t(6) port_only_def)
  have a: "ntoh32 e (th_ack hdr) = snd_nxt cb1" using hdr(5) c1(8) by simp
  obtain w ack where w: "receive os wait d F v = Inr w"
    "emits fd (tcp_frame e ha' ha self peer (ip_next_id v) (tcp_segment e self peer ack [])) (cb_table w) v w"
    "ack = tcp_tx_hdr e cb1 (snd_nxt cb1) (seq + 1) 0x10"
    "cb_table w = (cb_table v)(i := cb1\<lparr>rcv_nxt := seq + 1, cb_irs := seq, snd_una := snd_nxt cb1,
      cb_timeout := fst now + USER_TIMEOUT, cb_state := ESTABLISHED\<rparr>)"
    using client_syn_ack [OF vh host(5) cb1_def cb(2) c1(1-5) po c1(6,7) hdr(1-4) a os(1,2), of wait ident] unfolding F_def by blast
  note ws = emits_simps [OF w(2)]
  have wait: "tcp_connect_wait [deliver os wait d F] i u = Inr (w\<lparr>tcp_mutex := True\<rparr>)"
    using w(1) ws(2) vs(2) host(4) by (simp add: u(4) w(4) cond_wait_def deliver_def tcp_lock_def flip: v_def)
  have "\<not> TCP_SOCKET_INVALID (int i)" using cb(2) by (simp add: TCP_SOCKET_INVALID_def)
  then have run: "tcp_api_connect os wait [deliver os wait d F] (int i) peer port s = Inr (0, tcp_unlock (w\<lparr>tcp_mutex := True\<rparr>))"
    using u(1) wait host(4) by (simp add: tcp_api_connect_def tcp_lock_def flip: t_def)
  have "syn = \<lparr>th_src = cb_port cb, th_dst = hton16 e port, th_seq = hton32 e iss, th_ack = hton32 e 0, th_off = 0x50,
       th_flg = 0x02, th_win = hton16 e 0xffff, th_sum = 0, th_urg = 0\<rparr>"
    "ack = \<lparr>th_src = cb_port cb, th_dst = hton16 e port, th_seq = hton32 e (iss + 1), th_ack = hton32 e (seq + 1), th_off = 0x50,
       th_flg = 0x10, th_win = hton16 e 0xffff, th_sum = 0, th_urg = 0\<rparr>"
    using u(3) w(3) c1 hdr(6,7) by (simp_all add: tcp_tx_hdr_def)
  moreover obtain ret ret' where "sys_sent w = sys_sent s @
      [(fd, tcp_frame e ha' ha self peer (ip_next_id s) (tcp_segment e self peer syn []), ret),
       (fd, tcp_frame e ha' ha self peer (ip_next_id s + 1) (tcp_segment e self peer ack []), ret')]"
    using vs(8,9) ws(9) by auto
  moreover have "same_net s (tcp_unlock (w\<lparr>tcp_mutex := True\<rparr>))"
    using same_net_trans [OF vs(3) ws(3)] by (simp add: tcp_unlock_def same_net_def)
  moreover have "snd_wnd cb1 = snd_wnd cb" "cb_used cb1" using cb(3) by (simp_all add: cb1_def vs(1) u(4))
  ultimately show ?thesis
    using run c1(2,8) unfolding F_def [symmetric]
    by (intro exI [of _ "tcp_unlock (w\<lparr>tcp_mutex := True\<rparr>)"] exI [of _ ret] exI [of _ ret'] exI [of _ syn] exI [of _ ack])
      (simp add: tcp_unlock_def w(4))
qed

section \<open>Both together\<close>

text \<open>The handshake, for the property below and for the users of a connection.\<close>

lemma handshake_run:
  fixes a :: "'a tcp_scheme" and b :: "'b tcp_scheme"
  assumes client: "tcp_host a da na ipa haa" "reaches a na ipb ipa hab haa fda" "default_netif a = Some na" "\<not> tcp_mutex a"
    and cb: "cb = cb_table a i" "i < TCP_CB_TABLE_SIZE" "cb_used cb" "cb_state cb = CLOSED" "cb_port cb \<noteq> 0" "cb_txq cb = []"
      "port_only (cb_table a) i (cb_port cb)"
    and server: "tcp_host b db nb ipb hab" "reaches b nb ipa ipb haa hab fdb" "\<not> tcp_mutex b"
    and lis: "l < TCP_CB_TABLE_SIZE" "cb_state (cb_table b l) = LISTEN" "cb_iface (cb_table b l) = None" "cb_port (cb_table b l) = hton16 e port"
      "peer_addr (cb_table b l) \<noteq> ipa" "port_only (cb_table b) l (hton16 e port)" "cb_used (cb_table b l)" "cb_backlog (cb_table b l) = []"
    and free: "find (\<lambda>i. IS_FREE_CB (cb_table b i)) [0..<TCP_CB_TABLE_SIZE] = Some f" "cb_txq (cb_table b f) = []"
    and osa: "os_fine osa ta" "e = os_endian osa" "issa = os_random osa (Suc (sys_tick a))" "issa < issa + 1" "issa + 1 < issa + 1 + 0xffff"
    and osb: "os_fine osb tb" "e = os_endian osb" "issb = os_random osb (Suc (sys_tick b))" "issb < issb + 1"
  shows "\<exists>a' b1 b2 b3 syn synack ack r1 r2 r3.
    receive osb waitb db syn b = Inr b1 \<and> sys_sent b1 = sys_sent b @ [(fdb, synack, r2)] \<and>
    tcp_api_connect osa waita [deliver osa waita da synack] (int i) ipb port a = Inr (0, a') \<and>
    sys_sent a' = sys_sent a @ [(fda, syn, r1), (fda, ack, r3)] \<and>
    receive osb waitb db ack b1 = Inr b2 \<and> tcp_api_accept [] (int l) b2 = Inr (int f, b3) \<and>
    cb_state (cb_table a' i) = ESTABLISHED \<and> cb_state (cb_table b3 f) = ESTABLISHED \<and> cb_used (cb_table b3 f) \<and>
    snd_nxt (cb_table a' i) = rcv_nxt (cb_table b3 f) \<and> snd_nxt (cb_table b3 f) = rcv_nxt (cb_table a' i)"
proof -
  have haa: "length haa = 6" "length hab = 6" using client(1) server(1) by (simp_all add: tcp_host_def)
  define syn where "syn = \<lparr>th_src = cb_port cb, th_dst = hton16 e port, th_seq = hton32 e issa, th_ack = hton32 e 0, th_off = 0x50,
       th_flg = 0x02, th_win = hton16 e 0xffff, th_sum = 0, th_urg = 0\<rparr>"
  define synack where "synack = \<lparr>th_src = hton16 e port, th_dst = cb_port cb, th_seq = hton32 e issb, th_ack = hton32 e (issa + 1),
       th_off = 0x50, th_flg = 0x12, th_win = hton16 e 0xffff, th_sum = 0, th_urg = 0\<rparr>"
  define ack where "ack = \<lparr>th_src = cb_port cb, th_dst = hton16 e port, th_seq = hton32 e (issa + 1), th_ack = hton32 e (issb + 1), th_off = 0x50,
       th_flg = 0x10, th_win = hton16 e 0xffff, th_sum = 0, th_urg = 0\<rparr>"
  have syn: "th_sum syn = 0" "th_flg syn = 0x02" "th_off syn = 0x50" "issa = ntoh32 e (th_seq syn)" by (simp_all add: syn_def)
  have lis': "cb_port (cb_table b l) = th_dst syn" "port_only (cb_table b) l (th_dst syn)" using lis(4,6) by (simp_all add: syn_def)
  define F1 where "F1 = tcp_frame e hab haa ipa ipb (ip_next_id a) (tcp_segment e ipa ipb syn [])"
  define F2 where "F2 = tcp_frame e haa hab ipb ipa (ip_next_id b) (tcp_segment e ipb ipa synack [])"
  define F3 where "F3 = tcp_frame e hab haa ipa ipb (ip_next_id a + 1) (tcp_segment e ipa ipb ack [])"
  obtain b1 en where b1: "receive osb waitb db F1 b = Inr b1" "emits fdb F2 (cb_table b1) b b1"
    "cb_table b1 = (cb_table b)(f := (cb_table b f)\<lparr>cb_port := hton16 e port, cb_parent := Some l, cb_iface := Some nb,
      peer_addr := ipa, peer_port := cb_port cb, rcv_wnd := 0xffff, rcv_nxt := issa + 1, cb_irs := issa, cb_iss := issb,
      cb_txq := [en], snd_nxt := issb + 1, snd_una := issb, cb_timeout := fst tb + USER_TIMEOUT, cb_state := SYN_RCVD\<rparr>)"
    using server_syn [OF server(1,2,3) lis(1-3) lis'(1) lis(5) lis'(2) free syn osb(1-3) haa(1), of waitb "ip_next_id a"]
    by (auto simp: F1_def F2_def synack_def syn_def)
  note b1s = emits_simps [OF b1(2)]
  have synack: "th_sum synack = 0" "th_flg synack = 0x12" "th_off synack = 0x50" "issb = ntoh32 e (th_seq synack)"
    "ntoh32 e (th_ack synack) = issa + 1" "th_src synack = hton16 e port" "th_dst synack = cb_port cb" by (simp_all add: synack_def)
  obtain a' r1 r3 where a': "tcp_api_connect osa waita [deliver osa waita da F2] (int i) ipb port a = Inr (0, a')"
    "sys_sent a' = sys_sent a @ [(fda, F1, r1), (fda, F3, r3)]"
    "cb_state (cb_table a' i) = ESTABLISHED" "snd_nxt (cb_table a' i) = issa + 1" "rcv_nxt (cb_table a' i) = issb + 1"
    using client_connect [OF client haa(2) cb osa(1-4) synack, of waita "ip_next_id b"]
    by (auto simp: F1_def F2_def F3_def syn_def ack_def)
  have fl: "f \<noteq> l" "f < TCP_CB_TABLE_SIZE" using free(1) lis(2) by (auto simp: find_Some_iff IS_FREE_CB_def)
  have b1h: "tcp_host b1 db nb ipb hab" "\<not> tcp_mutex b1"
    using server(1,3) tcp_host_cong [OF b1s(3,5)] b1s(2) by simp_all
  have none: "\<not> scan_hit (cb_table b1) nb ipa ack j" if "j < TCP_CB_TABLE_SIZE" "j \<noteq> f" for j
    using that lis(5,6) by (auto simp: b1(3) scan_hit_def cb_for_port_def cb_for_peer_def port_only_def ack_def)
  obtain r2 where r2: "sys_sent b1 = sys_sent b @ [(fdb, F2, r2)]" using b1s(9) by blast
  define v where "v = cb_table b1 f"
  have v: "cb_state v = SYN_RCVD" "cb_parent v = Some l" "l \<noteq> f" "cb_iface v = Some nb" "cb_port v = th_dst ack" "peer_addr v = ipa"
    "peer_port v = th_src ack" "rcv_wnd v = 0xffff" "rcv_nxt v < rcv_nxt v + 0xffff" "snd_una v < snd_nxt v"
    "ntoh32 e (th_seq ack) = rcv_nxt v" "ntoh32 e (th_ack ack) = snd_nxt v" "snd_nxt v = issb + 1" "rcv_nxt v = issa + 1"
    using fl(1) osa(5) osb(4) by (simp_all add: v_def b1(3) ack_def)
  have ack: "th_sum ack = 0" "th_flg ack = 0x10" "th_off ack = 0x50" by (simp_all add: ack_def)
  obtain b2 w where b2: "receive osb waitb db F3 b1 = Inr b2" "\<not> tcp_mutex b2"
    "cb_table b2 = (cb_table b1)(l := (cb_table b1 l)\<lparr>cb_backlog := cb_backlog (cb_table b1 l) @ [f]\<rparr>,
      f := w\<lparr>cb_state := ESTABLISHED, snd_una := issb + 1, cb_timeout := fst tb + USER_TIMEOUT\<rparr>)"
    "snd_nxt w = issb + 1" "rcv_nxt w = issa + 1"
    using server_ack [OF b1h haa(1) v_def fl(2) v(1-10) none ack v(11,12) osb(1,2), of waitb "ip_next_id a + 1"]
    unfolding v(13,14) F3_def by blast
  obtain b3 where b3: "tcp_api_accept [] (int l) b2 = Inr (int f, b3)" "cb_table b3 f = (cb_table b2 f)\<lparr>cb_used := True\<rparr>"
    using accept_run [of l b2 f "[]" "[]"] lis fl b2(2) by (auto simp: b2(3) b1(3))
  have "cb_state (cb_table b3 f) = ESTABLISHED" "cb_used (cb_table b3 f)"
    "snd_nxt (cb_table a' i) = rcv_nxt (cb_table b3 f)" "snd_nxt (cb_table b3 f) = rcv_nxt (cb_table a' i)"
    using a'(4,5) by (simp_all add: b3(2) b2(3-5))
  then show ?thesis using b1(1) r2 a'(1-3) b2(1) b3(1) by blast
qed

text \<open>
  Property C1: the three-way handshake between two hosts, through every layer of both stacks. A
  host calls \<open>tcp_api_connect\<close> on a bound socket; another listens on the port; each knows the other's
  hardware address, the systems answer and the initial sequence numbers are not about to wrap. Then
  the frame the client writes (SYN), received by the server's Ethernet layer, makes the server write
  one frame (SYN and ACK); when that frame reaches the client while it waits, the call returns 0 and
  the client has written one more frame (ACK); and when that reaches the server, \<open>tcp_api_accept\<close>
  on the listener returns at once with a socket. Both control blocks are then ESTABLISHED, and each
  side expects the sequence number that the other will send next.
\<close>

theorem tcp_three_way_handshake:
  fixes a :: "'a tcp_scheme" and b :: "'b tcp_scheme"
  assumes client: "tcp_host a da na ipa haa" "reaches a na ipb ipa hab haa fda" "default_netif a = Some na" "\<not> tcp_mutex a"
    and cb: "cb = cb_table a i" "i < TCP_CB_TABLE_SIZE" "cb_used cb" "cb_state cb = CLOSED" "cb_port cb \<noteq> 0" "cb_txq cb = []"
      "port_only (cb_table a) i (cb_port cb)"
    and server: "tcp_host b db nb ipb hab" "reaches b nb ipa ipb haa hab fdb" "\<not> tcp_mutex b"
    and lis: "l < TCP_CB_TABLE_SIZE" "cb_state (cb_table b l) = LISTEN" "cb_iface (cb_table b l) = None" "cb_port (cb_table b l) = hton16 e port"
      "peer_addr (cb_table b l) \<noteq> ipa" "port_only (cb_table b) l (hton16 e port)" "cb_used (cb_table b l)" "cb_backlog (cb_table b l) = []"
    and free: "find (\<lambda>i. IS_FREE_CB (cb_table b i)) [0..<TCP_CB_TABLE_SIZE] = Some f" "cb_txq (cb_table b f) = []"
    and osa: "os_fine osa ta" "e = os_endian osa" "issa = os_random osa (Suc (sys_tick a))" "issa < issa + 1" "issa + 1 < issa + 1 + 0xffff"
    and osb: "os_fine osb tb" "e = os_endian osb" "issb = os_random osb (Suc (sys_tick b))" "issb < issb + 1"
  shows "\<exists>a' b1 b2 b3 syn synack ack r1 r2 r3.
    receive osb waitb db syn b = Inr b1 \<and> sys_sent b1 = sys_sent b @ [(fdb, synack, r2)] \<and>
    tcp_api_connect osa waita [deliver osa waita da synack] (int i) ipb port a = Inr (0, a') \<and>
    sys_sent a' = sys_sent a @ [(fda, syn, r1), (fda, ack, r3)] \<and>
    receive osb waitb db ack b1 = Inr b2 \<and> tcp_api_accept [] (int l) b2 = Inr (int f, b3) \<and>
    cb_state (cb_table a' i) = ESTABLISHED \<and> cb_state (cb_table b3 f) = ESTABLISHED \<and> cb_used (cb_table b3 f) \<and>
    snd_nxt (cb_table a' i) = rcv_nxt (cb_table b3 f) \<and> snd_nxt (cb_table b3 f) = rcv_nxt (cb_table a' i)"
  by (rule handshake_run [OF assms])

lemma find_least: "i < k \<Longrightarrow> P i \<Longrightarrow> \<forall>j < i. \<not> P j \<Longrightarrow> find P [0..<k] = Some i"
  by (auto simp: find_Some_iff intro!: exI [of _ i])

lemma tcp_start_host:
  assumes "length addr = 6" "if_family n = NETIF_FAMILY_IPV4"
  shows "tcp_host (tcp_start d (plain_dev addr fd) i n peer tbl) d i (unicast n) addr"
  using assms by (simp add: tcp_host_def plain_dev_def protos_distinct_def find_proto_def netdev_get_netif_def)

text \<open>A client with a bound socket and a server with a listener on port 20000.\<close>

definition client_example :: tcp where
  "client_example = tcp_start 3 (plain_dev [2, 0, 0, 0, 0, 1] 7) 4 (plain_netif 5) (Some (6, [2, 0, 0, 0, 0, 9]))
     ((\<lambda>_. tcp_cb_zero)(1 := tcp_cb_zero\<lparr>cb_used := True, cb_port := 77\<rparr>))"

definition server_example :: tcp where
  "server_example = tcp_start 2 (plain_dev [2, 0, 0, 0, 0, 9] 8) 9 (plain_netif 6) (Some (5, [2, 0, 0, 0, 0, 1]))
     ((\<lambda>_. tcp_cb_zero)(0 := tcp_cb_zero\<lparr>cb_used := True, cb_state := LISTEN, cb_port := hton16 Little 20000\<rparr>))"

lemma example_hosts:
  "tcp_host client_example 3 4 5 [2, 0, 0, 0, 0, 1]" "reaches client_example 4 6 5 [2, 0, 0, 0, 0, 9] [2, 0, 0, 0, 0, 1] 7"
  "default_netif client_example = Some 4" "\<not> tcp_mutex client_example"
  "tcp_host server_example 2 9 6 [2, 0, 0, 0, 0, 9]" "reaches server_example 9 5 6 [2, 0, 0, 0, 0, 1] [2, 0, 0, 0, 0, 9] 8"
  "\<not> tcp_mutex server_example"
  using tcp_start_host [of "[2, 0, 0, 0, 0, 1]" "plain_netif 5"] tcp_start_host [of "[2, 0, 0, 0, 0, 9]" "plain_netif 6"]
    tcp_start_reaches [of "[2, 0, 0, 0, 0, 1]" "[2, 0, 0, 0, 0, 9]" 6 3 7 4 "plain_netif 5"]
    tcp_start_reaches [of "[2, 0, 0, 0, 0, 9]" "[2, 0, 0, 0, 0, 1]" 5 2 8 9 "plain_netif 6"]
  by (simp_all add: client_example_def server_example_def ETHERNET_ADDR_ANY_def plain_netif_def)

lemma example_tables:
  "cb_table client_example = (\<lambda>_. tcp_cb_zero)(1 := tcp_cb_zero\<lparr>cb_used := True, cb_port := 77\<rparr>)"
  "cb_table server_example = (\<lambda>_. tcp_cb_zero)(0 := tcp_cb_zero\<lparr>cb_used := True, cb_state := LISTEN, cb_port := hton16 Little 20000\<rparr>)"
  by (simp_all add: client_example_def server_example_def)

lemma cb_zero_simps [simp]:
  "\<not> cb_used tcp_cb_zero" "cb_state tcp_cb_zero = CLOSED" "cb_txq tcp_cb_zero = []" "cb_port tcp_cb_zero = 0" "cb_iface tcp_cb_zero = None"
  "peer_addr tcp_cb_zero = 0" "cb_backlog tcp_cb_zero = []" "IS_FREE_CB tcp_cb_zero" "snd_wnd tcp_cb_zero = 0" "cb_ok tcp_cb_zero"
  by (simp_all add: tcp_cb_zero_def IS_FREE_CB_def cb_ok_def)

theorem tcp_three_way_handshake_witness:
  "\<exists>a' b1 b2 b3 syn synack ack r1 r2 r3.
    receive (plain_os 50 60) (\<lambda>_. []) 2 syn server_example = Inr b1 \<and> sys_sent b1 = [(8, synack, r2)] \<and>
    tcp_api_connect (plain_os 50 60) (\<lambda>_. []) [deliver (plain_os 50 60) (\<lambda>_. []) 3 synack] 1 6 20000 client_example = Inr (0, a') \<and>
    sys_sent a' = [(7, syn, r1), (7, ack, r3)] \<and>
    receive (plain_os 50 60) (\<lambda>_. []) 2 ack b1 = Inr b2 \<and> tcp_api_accept [] 0 b2 = Inr (1, b3) \<and>
    cb_state (cb_table a' 1) = ESTABLISHED \<and> cb_state (cb_table b3 1) = ESTABLISHED"
proof -
  let ?os = "plain_os 50 60" and ?w = "(\<lambda>_. []) :: tcp waits"
  have cb: "(1 :: nat) < 128" "cb_used (cb_table client_example 1)" "cb_state (cb_table client_example 1) = CLOSED"
    "cb_port (cb_table client_example 1) \<noteq> 0" "cb_txq (cb_table client_example 1) = []"
    "port_only (cb_table client_example) 1 (cb_port (cb_table client_example 1))"
    by (simp_all add: example_tables port_only_def)
  have lis: "(0 :: nat) < 128" "cb_state (cb_table server_example 0) = LISTEN" "cb_iface (cb_table server_example 0) = None"
    "cb_port (cb_table server_example 0) = hton16 Little 20000" "peer_addr (cb_table server_example 0) \<noteq> 5"
    "port_only (cb_table server_example) 0 (hton16 Little 20000)" "cb_used (cb_table server_example 0)" "cb_backlog (cb_table server_example 0) = []"
    by (simp_all add: example_tables port_only_def)
  have free: "find (\<lambda>i. IS_FREE_CB (cb_table server_example i)) [0..<128] = Some 1" "cb_txq (cb_table server_example 1) = []"
    by (rule find_least) (simp_all add: example_tables IS_FREE_CB_def)
  have os: "os_fine ?os (50, 0)" "Little = os_endian ?os" "(1000 :: u32) < 1000 + 1" "(1000 + 1 :: u32) < 1000 + 1 + 0xffff"
    "1000 = os_random ?os (Suc (sys_tick client_example))" "1000 = os_random ?os (Suc (sys_tick server_example))"
    by (simp_all add: os_fine_def)
  have sent: "sys_sent client_example = []" "sys_sent server_example = []" by (simp_all add: client_example_def server_example_def)
  from tcp_three_way_handshake [OF example_hosts(1-4) refl cb example_hosts(5-7) lis free os(1,2,5,3,4) os(1,2,6,3), of ?w ?w]
  show ?thesis unfolding sent by simp blast
qed

end
