(* ===== verification/Tcpreach.thy ===== *)
theory Tcpreach
  imports Tcpopen
begin

text \<open>
  What holds in every state the TCP layer can reach from its start, and what follows for lost
  segments of a handshake.
\<close>

section \<open>Reachable states\<close>

text \<open>
  Property C3: from the start, where all control blocks are zero, no sequence of arriving segments,
  rounds of the timer, calls of the application and steps of the layers below leads to a state in
  which a block is in LAST_ACK, has a window buffer of the wrong size or a queued segment whose
  length is not recorded, has a send window before the first acknowledgement, or queues a block
  outside the table in its backlog. So the branch of the segment handler for LAST_ACK is dead code.
\<close>

theorem tcp_reachable_invariant:
  assumes "(tcp_step os wait)\<^sup>*\<^sup>* s s'" "cb_table s = (\<lambda>_. tcp_cb_zero)" "wait_keeps tcp_view wait"
  shows "cb_state (cb_table s' i) \<noteq> LAST_ACK \<and> length (cb_window (cb_table s' i)) = TCP_WINDOW_SIZE \<and>
    (\<forall>en \<in> set (cb_txq (cb_table s' i)). tq_len en = of_nat (20 + length (tq_data en))) \<and>
    (cb_state (cb_table s' i) \<in> {CLOSED, LISTEN, SYN_SENT, SYN_RCVD} \<longrightarrow> snd_wnd (cb_table s' i) = 0) \<and>
    (\<forall>b \<in> set (cb_backlog (cb_table s' i)). b < TCP_CB_TABLE_SIZE)"
proof -
  have "cbs_ok (cb_table s')" by (rule tcp_reachable_cbs [OF assms(1,3)]) (simp add: assms(2) cbs_zero)
  then show ?thesis by (auto simp: cbs_ok_def cb_ok_def txq_entry_ok_def early_def)
qed

lemma open_run:
  assumes "find (\<lambda>i. IS_FREE_CB (cb_table s i)) [0..<TCP_CB_TABLE_SIZE] = Some i" "\<not> tcp_mutex s"
  shows "tcp_api_open s = Inr (int i, tcp_unlock (upd_cb i (\<lambda>cb. cb\<lparr>cb_used := True\<rparr>) (s\<lparr>tcp_mutex := True\<rparr>)))"
  unfolding tcp_api_open_def tcp_lock_def using assms by simp

lemma bind_run:
  assumes "i < TCP_CB_TABLE_SIZE" "\<forall>j < TCP_CB_TABLE_SIZE. cb_port (cb_table s j) \<noteq> hton16 e port" "cb_used (cb_table s i)"
    and "cb_state (cb_table s i) = CLOSED" "\<not> tcp_mutex s"
  shows "tcp_api_bind e (int i) port s = Inr (0, tcp_unlock (upd_cb i (\<lambda>cb. cb\<lparr>cb_port := hton16 e port\<rparr>) (s\<lparr>tcp_mutex := True\<rparr>)))"
proof -
  have "\<not> list_ex (\<lambda>j. cb_port (cb_table (s\<lparr>tcp_mutex := True\<rparr>) j) = hton16 e port) [0..<TCP_CB_TABLE_SIZE]"
    unfolding list_ex_iff using assms(2) by auto
  then show ?thesis
    unfolding tcp_api_bind_def tcp_lock_def Let_def using assms by (simp add: TCP_SOCKET_INVALID_def)
qed

text \<open>A run: a socket is opened, bound and connected.\<close>

definition start_example :: tcp where
  "start_example = tcp_start 3 (plain_dev [2, 0, 0, 0, 0, 1] 7) 4 (plain_netif 5) (Some (6, [2, 0, 0, 0, 0, 9])) (\<lambda>_. tcp_cb_zero)"

lemma connect_example:
  "\<exists>s'. (tcp_step (plain_os 50 60) (\<lambda>_. []))\<^sup>*\<^sup>* start_example s' \<and> cb_state (cb_table s' 0) = SYN_SENT \<and>
    length (cb_txq (cb_table s' 0)) = 1 \<and> cb_iface (cb_table s' 0) = Some 4 \<and> net_ifs s' 4 = net_ifs start_example 4 \<and>
    snd_una (cb_table s' 0) \<noteq> snd_nxt (cb_table s' 0) \<and> cb_timeout (cb_table s' 0) = 70"
proof -
  let ?os = "plain_os 50 60" and ?w = "(\<lambda>_. []) :: tcp waits"
  let ?z = "tcp_cb_zero\<lparr>cb_used := True, cb_port := hton16 Little 20000\<rparr>"
  have p: "hton16 Little 20000 \<noteq> 0" "0 \<noteq> hton16 Little 20000" by (simp, subst eq_commute, simp)
  define s1 where "s1 = tcp_unlock (upd_cb 0 (\<lambda>cb. cb\<lparr>cb_used := True\<rparr>) (start_example\<lparr>tcp_mutex := True\<rparr>))"
  have "find (\<lambda>i. IS_FREE_CB (cb_table start_example i)) [0..<128] = Some 0" by (rule find_least) (simp_all add: start_example_def)
  from open_run [OF this] have "tcp_api_open start_example = Inr (0, s1)" by (simp add: s1_def start_example_def)
  then have 1: "tcp_step ?os ?w start_example s1" by (rule tcp_step.user_open)
  define s2 where "s2 = tcp_unlock (upd_cb 0 (\<lambda>cb. cb\<lparr>cb_port := hton16 Little 20000\<rparr>) (s1\<lparr>tcp_mutex := True\<rparr>))"
  have "tcp_api_bind (os_endian ?os) 0 20000 s1 = Inr (0, s2)"
    using bind_run [of 0 s1 Little 20000] p by (simp add: s1_def s2_def start_example_def)
  then have 2: "tcp_step ?os ?w s1 s2" by (rule tcp_step.user_bind)
  define t where "t = s2\<lparr>tcp_mutex := True\<rparr>"
  have t: "cb_table t = (\<lambda>_. tcp_cb_zero)(0 := ?z)" "default_netif t = Some 4" "net_ifs t = net_ifs start_example"
    by (simp_all add: t_def s2_def s1_def start_example_def tcp_unlock_def)
  have "reaches start_example 4 6 5 [2, 0, 0, 0, 0, 9] [2, 0, 0, 0, 0, 1] 7"
    using tcp_start_reaches [of "[2, 0, 0, 0, 0, 1]" "[2, 0, 0, 0, 0, 9]" 6 3 7 4 "plain_netif 5"]
    by (simp add: start_example_def ETHERNET_ADDR_ANY_def plain_netif_def)
  moreover have "same_net start_example t" "arp_tbl t = arp_tbl start_example"
    by (simp_all add: t_def s2_def s1_def tcp_unlock_def same_net_def upd_cb_def)
  ultimately have r: "reaches t 4 6 5 [2, 0, 0, 0, 0, 9] [2, 0, 0, 0, 0, 1] 7" using reaches_cong by blast
  have cb: "?z = cb_table t 0" "cb_used ?z" "cb_state ?z = CLOSED" "cb_port ?z \<noteq> 0" "cb_txq ?z = []" "os_fine ?os (50, 0)" "Little = os_endian ?os"
    using p by (simp_all add: t(1) os_fine_def)
  obtain u hdr en where u: "tcp_connect_start ?os ?w 0 6 80 t = Inr (True, u)" "emits 7 hdr (cb_table u) t u"
    "cb_table u = (cb_table t)(0 := ?z\<lparr>peer_addr := 6, peer_port := hton16 Little 80, cb_iface := Some 4,
      rcv_wnd := of_nat TCP_WINDOW_SIZE, cb_iss := os_random ?os (Suc (sys_tick t)), cb_txq := [en], snd_una := os_random ?os (Suc (sys_tick t)),
      snd_nxt := os_random ?os (Suc (sys_tick t)) + 1, cb_timeout := fst (50 :: int, 0 :: int) + USER_TIMEOUT, cb_state := SYN_SENT\<rparr>)"
    using connect_start_run [OF r t(2) cb refl, of ?w 80] by blast
  have "tcp_lock s2 = Inr t" by (simp add: tcp_lock_def s2_def t_def)
  then have 3: "tcp_step ?os ?w s2 (tcp_unlock u)"
    using tcp_step.user_connect [of 0 s2 t ?os ?w 6 80 True u] u(1) by simp
  have "net_ifs u = net_ifs t" using emits_simps(3) [OF u(2)] by (simp add: same_net_def)
  moreover have "(tcp_step ?os ?w)\<^sup>*\<^sup>* start_example (tcp_unlock u)"
    using 1 2 3 by (meson converse_rtranclp_into_rtranclp rtranclp.rtrancl_refl)
  ultimately show ?thesis
    using u(3) t(3)
    by (intro exI [of _ "tcp_unlock u"]) (simp add: tcp_unlock_def)
qed

theorem tcp_reachable_invariant_witness:
  "\<exists>s'. (tcp_step (plain_os 50 60) (\<lambda>_. []))\<^sup>*\<^sup>* start_example s' \<and> cb_state (cb_table s' 0) = SYN_SENT \<and> snd_wnd (cb_table s' 0) = 0 \<and>
     length (cb_window (cb_table s' 0)) = 65535"
proof -
  obtain s' where s': "(tcp_step (plain_os 50 60) (\<lambda>_. []))\<^sup>*\<^sup>* start_example s'" "cb_state (cb_table s' 0) = SYN_SENT"
    using connect_example by blast
  then show ?thesis
    using tcp_reachable_invariant [OF s'(1) _ wait_keeps_none, of 0] by (auto simp: start_example_def)
qed

section \<open>Lost segments of a handshake\<close>

lemma timer_txq_idle:
  assumes "snd_wnd (cb_table s i) = 0" "tcp_timer_txq os wait i self peer now ahead q s = Inr (q', s')"
  shows "sys_sent s' = sys_sent s \<and> set q' \<subseteq> set q"
  using assms
proof (induction q arbitrary: ahead s q')
  case (Cons en q)
  show ?case
  proof (cases "snd_una (cb_table s i) \<le> ntoh32 (os_endian os) (th_seq (tq_seg en))")
    case True
    have "\<not> tcp_timer_due (cb_table s i) ahead now en" using Cons.prems(1) by (simp add: tcp_timer_due_def)
    then obtain r where "tcp_timer_txq os wait i self peer now ((ahead + TCP_DATA_LEN (tq_seg en) (unat (tq_len en))) mod 2 ^ 64) q s = Inr (r, s')"
      "q' = en # r"
      using Cons.prems(2) True by (auto simp: Let_def bindr_Inr_iff)
    then show ?thesis using Cons.IH [OF Cons.prems(1)] by fastforce
  next
    case False
    define t where "t = upd_cb i (\<lambda>cb. cb\<lparr>txq_snt := txq_snt cb - of_nat (TCP_DATA_LEN (tq_seg en) (unat (tq_len en)))\<rparr>) s"
    have "tcp_timer_txq os wait i self peer now ahead q t = Inr (q', s')" using Cons.prems(2) False by (simp add: Let_def t_def)
    from Cons.IH [OF _ this] show ?thesis using Cons.prems(1) by (auto simp: t_def)
  qed
qed simp

lemma timer_cb_idle: "snd_wnd (cb_table s i) = 0 \<Longrightarrow> tcp_timer_cb os wait now i s = Inr s' \<Longrightarrow> sys_sent s' = sys_sent s"
  by (auto dest!: timer_txq_idle simp: tcp_timer_cb_def Let_def bindr_Inr_iff tcp_close_cb_def tcp_txq_clear_all_def
      split: if_splits option.splits)

text \<open>
  Property C35: a segment of the handshake is never sent again. In every reachable state, when the
  timer looks at a block that is in SYN_SENT or SYN_RCVD, it writes nothing to any device, however
  long ago the SYN was sent: the send window is still zero, and the walk only sends what lies in the
  window. The connection is either left as it is or, at the user timeout, closed.
\<close>

theorem tcp_handshake_never_resent:
  assumes "(tcp_step os wait)\<^sup>*\<^sup>* s s'" "cb_table s = (\<lambda>_. tcp_cb_zero)" "wait_keeps tcp_view wait"
    and "cb_state (cb_table s' i) \<in> {SYN_SENT, SYN_RCVD}" "tcp_timer_cb os wait now i s' = Inr s''"
  shows "sys_sent s'' = sys_sent s' \<and>
    (cb_state (cb_table s'' i) = cb_state (cb_table s' i) \<or>
     cb_state (cb_table s'' i) = CLOSED \<and> cb_timeout (cb_table s' i) < fst now)"
proof -
  have "cbs_ok (cb_table s')" by (rule tcp_reachable_cbs [OF assms(1,3)]) (simp add: assms(2) cbs_zero)
  from cbs_okD(1) [OF this, of i] have w: "snd_wnd (cb_table s' i) = 0" using assms(4) by (auto simp: cb_ok_def)
  have "sys_sent s'' = sys_sent s'" by (rule timer_cb_idle [OF w assms(5)])
  moreover have "timed now (cb_table s' i) (cb_table s'' i)" using tcp_timer_cb_turn(2) [OF assms(3,5)] by (simp add: turned_def)
  ultimately show ?thesis by (auto simp: timed_def tcp_timer_expired_def)
qed

theorem tcp_handshake_never_resent_witness:
  "\<exists>s' s''. (tcp_step (plain_os 50 60) (\<lambda>_. []))\<^sup>*\<^sup>* start_example s' \<and> cb_state (cb_table s' 0) = SYN_SENT \<and>
     length (cb_txq (cb_table s' 0)) = 1 \<and> tcp_timer_cb (plain_os 50 60) (\<lambda>_. []) (1000, 0) 0 s' = Inr s'' \<and> sys_sent s'' = sys_sent s'"
proof -
  obtain s' where s': "(tcp_step (plain_os 50 60) (\<lambda>_. []))\<^sup>*\<^sup>* start_example s'" "cb_state (cb_table s' 0) = SYN_SENT"
    "length (cb_txq (cb_table s' 0)) = 1" "snd_una (cb_table s' 0) \<noteq> snd_nxt (cb_table s' 0)" "cb_timeout (cb_table s' 0) = 70"
    using connect_example by blast
  have run: "tcp_timer_cb (plain_os 50 60) (\<lambda>_. []) (1000, 0) 0 s' = Inr (tcp_close_cb 0 s')"
    using s'(2-5) by (simp add: tcp_timer_cb_def tcp_timer_expired_def)
  have "sys_sent (tcp_close_cb 0 s') = sys_sent s'"
    using tcp_handshake_never_resent [OF s'(1) _ wait_keeps_none _ run] s'(2) by (simp add: start_example_def)
  then show ?thesis using s'(1-3) run by blast
qed

end
