(* ===== verification/Tcpstream.thy ===== *)
theory Tcpstream
  imports Tcpreach
begin

unbundle bit_operations_syntax

text \<open>
  The receive side as a byte stream: what \<open>tcp_api_recv\<close> returns is, in order and without loss, the
  text of the segments the handler takes.
\<close>

section \<open>Byte streams\<close>

text \<open>A run that takes bytes in and gives bytes out.\<close>

inductive stream_run :: "('s \<Rightarrow> bytes \<Rightarrow> bytes \<Rightarrow> 's \<Rightarrow> bool) \<Rightarrow> 's \<Rightarrow> bytes \<Rightarrow> bytes \<Rightarrow> 's \<Rightarrow> bool" for step where
  stop: "stream_run step s [] [] s"
| go: "step s i out t \<Longrightarrow> stream_run step t ins outs u \<Longrightarrow> stream_run step s (i @ ins) (out @ outs) u"

locale byte_stream =
  fixes content :: "'s \<Rightarrow> bytes" and step :: "'s \<Rightarrow> bytes \<Rightarrow> bytes \<Rightarrow> 's \<Rightarrow> bool" and inv :: "'s \<Rightarrow> bool"
  assumes step_inv: "inv s \<Longrightarrow> step s i out t \<Longrightarrow> inv t"
    and step_content: "inv s \<Longrightarrow> step s i out t \<Longrightarrow> content s @ i = out @ content t"
begin

lemma run_content: "stream_run step s ins outs t \<Longrightarrow> inv s \<Longrightarrow> content s @ ins = outs @ content t"
proof (induction rule: stream_run.induct)
  case (go s i out t ins outs u)
  have "content s @ i @ ins = out @ content t @ ins" using step_content [OF go.prems go.hyps(1)] by (metis append.assoc)
  then show ?case using go.IH step_inv [OF go.prems go.hyps(1)] by simp
qed simp

end

section \<open>The window buffer\<close>

definition rcv_data :: "tcp_cb \<Rightarrow> bytes" where
  "rcv_data cb = take (TCP_WINDOW_SIZE - unat (rcv_wnd cb)) (cb_window cb)"

lemma rcv_data_cong: "cb_window cb' = cb_window cb \<Longrightarrow> rcv_wnd cb' = rcv_wnd cb \<Longrightarrow> rcv_data cb' = rcv_data cb"
  by (simp add: rcv_data_def)

lemma unat_u16_diff: "n \<le> unat (w :: u16) \<Longrightarrow> unat (w - of_nat n) = unat w - n"
  using unat_u16_less [of w] by (subst unat_sub) (simp_all add: word_le_nat_alt unat_of_nat_u16)

lemma window_put:
  assumes "length (cb_window cb) = TCP_WINDOW_SIZE" "mem_write (cb_window cb) (TCP_WINDOW_SIZE - unat (rcv_wnd cb)) dat = Inr window"
  shows "length dat \<le> unat (rcv_wnd cb)"
    "rcv_data (cb\<lparr>cb_window := window, rcv_nxt := n, rcv_wnd := rcv_wnd cb - of_nat (length dat)\<rparr>) = rcv_data cb @ dat"
proof -
  let ?k = "TCP_WINDOW_SIZE - unat (rcv_wnd cb)"
  have w: "?k + length dat \<le> TCP_WINDOW_SIZE" "window = take ?k (cb_window cb) @ dat @ drop (?k + length dat) (cb_window cb)"
    using assms by (simp_all add: mem_write_Inr_iff)
  then show le: "length dat \<le> unat (rcv_wnd cb)" using unat_u16_less [of "rcv_wnd cb"] by linarith
  have "TCP_WINDOW_SIZE - (unat (rcv_wnd cb) - length dat) = ?k + length dat"
    using le unat_u16_less [of "rcv_wnd cb"] by linarith
  then show "rcv_data (cb\<lparr>cb_window := window, rcv_nxt := n, rcv_wnd := rcv_wnd cb - of_nat (length dat)\<rparr>) = rcv_data cb @ dat"
    using w assms(1) unat_u16_diff [OF le] by (simp add: rcv_data_def)
qed

lemma window_get:
  assumes "length (cb_window (cb_table s i)) = TCP_WINDOW_SIZE"
  shows "\<exists>w. tcp_recv_copy i want s = Inr (int (min want (length (rcv_data (cb_table s i)))), take want (rcv_data (cb_table s i)),
      upd_cb i (\<lambda>cb. w) s) \<and> rcv_data w = drop want (rcv_data (cb_table s i)) \<and>
    (\<exists>win wnd. w = (cb_table s i)\<lparr>cb_window := win, rcv_wnd := wnd\<rparr> \<and> unat (rcv_wnd (cb_table s i)) \<le> unat wnd) \<and>
    cb_state w = cb_state (cb_table s i) \<and> (cb_ok (cb_table s i) \<longrightarrow> cb_ok w)"
proof -
  define cb where "cb = cb_table s i"
  define avail where "avail = TCP_WINDOW_SIZE - unat (rcv_wnd cb)"
  define len where "len = (if avail > want then want else avail)"
  have a: "avail \<le> TCP_WINDOW_SIZE" "len \<le> avail" "length (cb_window cb) = TCP_WINDOW_SIZE" "len = min want avail"
    using assms by (simp_all add: avail_def len_def cb_def)
  have d: "rcv_data cb = take avail (cb_window cb)" "length (rcv_data cb) = avail" using a by (simp_all add: rcv_data_def avail_def)
  define tl where "tl = take (avail - len) (drop len (cb_window cb))"
  define window where "window = tl @ drop (avail - len) (cb_window cb)"
  have m: "mem_read (cb_window cb) 0 len = Inr (take len (cb_window cb))" "mem_read (cb_window cb) len (avail - len) = Inr tl"
    "mem_write (cb_window cb) 0 tl = Inr window" "length tl = avail - len"
    using a by (simp_all add: mem_read_def mem_write_def tl_def window_def)
  define w where "w = cb\<lparr>cb_window := window, rcv_wnd := rcv_wnd cb + of_nat len\<rparr>"
  have run: "tcp_recv_copy i want s = Inr (int len, take len (cb_window cb), upd_cb i (\<lambda>cb. w) s)"
    unfolding tcp_recv_copy_def Let_def cb_def [symmetric] avail_def [symmetric] len_def [symmetric]
    by (simp add: m upd_cb_def w_def flip: cb_def)
  have u: "unat (rcv_wnd cb + of_nat len) = unat (rcv_wnd cb) + len"
    using a(2) unat_u16_less [of "rcv_wnd cb"] by (intro unat_u16_add) (simp add: avail_def)
  have "TCP_WINDOW_SIZE - unat (rcv_wnd w) = avail - len" using u by (simp add: w_def avail_def)
  then have "rcv_data w = tl" using m(4) by (simp add: rcv_data_def w_def window_def)
  also have "\<dots> = drop want (rcv_data cb)" using a(1,3) by (auto simp: tl_def d(1) drop_take len_def)
  finally have r: "rcv_data w = drop want (rcv_data cb)" .
  have "take len (cb_window cb) = take want (rcv_data cb)" using a(4) by (simp add: d(1) min.commute)
  moreover have "cb_ok w" if "cb_ok cb" using that a(1-3) m(4) by (simp add: cb_ok_def w_def window_def)
  moreover have "\<exists>win wnd. w = cb\<lparr>cb_window := win, rcv_wnd := wnd\<rparr> \<and> unat (rcv_wnd cb) \<le> unat wnd"
    by (intro exI [of _ window] exI [of _ "rcv_wnd cb + of_nat len"]) (simp add: w_def u)
  moreover have "cb_state w = cb_state cb" by (simp add: w_def)
  ultimately show ?thesis using run r d(2) a(4) unfolding cb_def [symmetric] by (intro exI [of _ w]) simp
qed

section \<open>What a segment does to the window\<close>

text \<open>The text a segment adds to the window of block \<open>i\<close>.\<close>

definition tcp_taken :: "os \<Rightarrow> nat \<Rightarrow> tcp_hdr \<Rightarrow> bytes \<Rightarrow> nat \<Rightarrow> 'a tcp_scheme \<Rightarrow> bytes" where
  "tcp_taken os i hdr segment len s =
     (let e = os_endian os; cb = cb_table s i; plen = TCP_DATA_LEN hdr len in
      if os_timeofday os (sys_tick s) \<noteq> None \<and> cb_state cb \<in> {ESTABLISHED, FIN_WAIT1, FIN_WAIT2} \<and>
         tcp_acceptable e cb hdr plen \<and> \<not> TCP_FLG_ISSET (th_flg hdr) TCP_FLG_RST \<and> \<not> TCP_FLG_ISSET (th_flg hdr) TCP_FLG_SYN \<and>
         (TCP_FLG_ISSET (th_flg hdr) TCP_FLG_ACK \<longrightarrow> ntoh32 e (th_ack hdr) \<le> snd_nxt cb) \<and>
         ntoh32 e (th_seq hdr) = rcv_nxt cb
      then take plen (drop (TCP_HDR_LEN hdr) segment) else [])"

text \<open>States in which the handler goes through the checks for an open connection.\<close>

definition streaming :: "tcp_state \<Rightarrow> bool" where
  "streaming st \<longleftrightarrow> st \<notin> {CLOSED, LISTEN, SYN_SENT, SYN_RCVD, LAST_ACK}"

definition window_kept :: "nat \<Rightarrow> 'a tcp_scheme \<Rightarrow> 'a tcp_scheme \<Rightarrow> bool" where
  "window_kept i s t \<longleftrightarrow> cb_window (cb_table t i) = cb_window (cb_table s i) \<and> rcv_wnd (cb_table t i) = rcv_wnd (cb_table s i)"

lemma window_kept_refl [simp]: "window_kept i s s" "window_kept i s (s\<lparr>sys_tick := n\<rparr>)"
  by (simp_all add: window_kept_def)

lemma window_kept_trans: "window_kept i s t \<Longrightarrow> window_kept i t u \<Longrightarrow> window_kept i s u"
  by (simp add: window_kept_def)

lemma window_kept_data: "window_kept i s t \<Longrightarrow> rcv_data (cb_table t i) = rcv_data (cb_table s i)"
  by (simp add: window_kept_def rcv_data_def)

lemma reply_kept:
  assumes "wait_keeps tcp_view wait" "tcp_reply os wait i seq ack flg now s = Inr t"
  shows "window_kept i s t"
  using tcp_reply_relD(2) [OF assms] by (simp add: window_kept_def tx_sameD)

lemma check_kept:
  assumes w: "wait_keeps tcp_view wait" and st: "cb_state (cb_table s i) \<notin> {CLOSED, LISTEN, SYN_SENT}"
    and run: "tcp_seg_check os wait i hdr plen now s = Inr (go, t)"
  shows "go \<longleftrightarrow> tcp_acceptable (os_endian os) (cb_table s i) hdr plen \<and> \<not> TCP_FLG_ISSET (th_flg hdr) TCP_FLG_RST \<and>
      \<not> TCP_FLG_ISSET (th_flg hdr) TCP_FLG_SYN"
    "go \<Longrightarrow> t = s" "cb_state (cb_table t i) \<noteq> CLOSED \<Longrightarrow> window_kept i s t"
  using run st by (auto simp: tcp_seg_check_def Let_def bindr_Inr_iff split: if_splits dest: reply_kept [OF w])

definition taking :: "tcp_state \<Rightarrow> bool" where
  "taking st \<longleftrightarrow> st \<in> {ESTABLISHED, FIN_WAIT1, FIN_WAIT2}"

lemma ack_of_fin_taking [simp]: "taking (cb_state (ack_of_fin a cb)) \<longleftrightarrow> taking (cb_state cb)"
  by (simp add: ack_of_fin_def taking_def)

lemma ack_open_kept:
  assumes w: "wait_keeps tcp_view wait" and run: "tcp_seg_ack_open os wait i hdr now s = Inr (go, t)"
  shows "window_kept i s t \<and> rcv_nxt (cb_table t i) = rcv_nxt (cb_table s i) \<and>
    (taking (cb_state (cb_table t i)) \<longleftrightarrow> taking (cb_state (cb_table s i))) \<and>
    (go \<longleftrightarrow> ntoh32 (os_endian os) (th_ack hdr) \<le> snd_nxt (cb_table s i))"
proof (cases "ntoh32 (os_endian os) (th_ack hdr) \<le> snd_nxt (cb_table s i)")
  case True
  let ?ack = "ntoh32 (os_endian os) (th_ack hdr)"
  show ?thesis
  proof (cases "snd_una (cb_table s i) \<le> ?ack")
    case una: True
    have "tcp_seg_ack_open os wait i hdr now s = Inr (True, upd_cb i (\<lambda>cb. ack_of_fin ?ack
        (ack_update (ntoh32 (os_endian os) (th_seq hdr)) ?ack (ntoh16 (os_endian os) (th_win hdr)) now cb)) s)"
      using una True by (simp add: tcp_seg_ack_open_def Let_def)
    then have "t = upd_cb i (\<lambda>cb. ack_of_fin ?ack
        (ack_update (ntoh32 (os_endian os) (th_seq hdr)) ?ack (ntoh16 (os_endian os) (th_win hdr)) now cb)) s" "go"
      using run by simp_all
    then show ?thesis using True by (simp add: window_kept_def)
  next
    case False
    moreover have "\<not> snd_nxt (cb_table s i) < ?ack" using True by (simp add: not_less)
    ultimately have "tcp_seg_ack_open os wait i hdr now s = Inr (True, upd_cb i (ack_of_fin ?ack) s)"
      by (simp add: tcp_seg_ack_open_def Let_def)
    then have "t = upd_cb i (ack_of_fin ?ack) s" "go" using run by simp_all
    then show ?thesis using True by (simp add: window_kept_def)
  qed
next
  case False
  then have "snd_nxt (cb_table s i) < ntoh32 (os_endian os) (th_ack hdr)" by (simp add: not_le)
  with False have "bindr (tcp_reply os wait i (snd_nxt (cb_table s i)) (rcv_nxt (cb_table s i)) TCP_FLG_ACK now s) (\<lambda>s. Inr (False, s)) = Inr (go, t)"
    using run by (simp add: tcp_seg_ack_open_def Let_def)
  then have "tcp_reply os wait i (snd_nxt (cb_table s i)) (rcv_nxt (cb_table s i)) TCP_FLG_ACK now s = Inr t" "\<not> go"
    by (simp_all add: bindr_Inr_iff)
  note r = this
  show ?thesis
    using False r(2) reply_kept [OF w r(1)] tx_sameD(1,6) [OF tcp_reply_relD(2) [OF w r(1)]] by simp
qed

lemma ack_kept:
  assumes w: "wait_keeps tcp_view wait" and st: "streaming (cb_state (cb_table s i))"
    and run: "tcp_seg_ack os wait i hdr now s = Inr (go, t)"
  shows "window_kept i s t" "rcv_nxt (cb_table t i) = rcv_nxt (cb_table s i)"
    "taking (cb_state (cb_table t i)) \<longleftrightarrow> taking (cb_state (cb_table s i))"
    "taking (cb_state (cb_table s i)) \<Longrightarrow>
       go \<longleftrightarrow> (TCP_FLG_ISSET (th_flg hdr) TCP_FLG_ACK \<longrightarrow> ntoh32 (os_endian os) (th_ack hdr) \<le> snd_nxt (cb_table s i))"
proof -
  have "t = s \<and> go \<and> (\<not> TCP_FLG_ISSET (th_flg hdr) TCP_FLG_ACK \<or> \<not> taking (cb_state (cb_table s i))) \<or>
    tcp_seg_ack_open os wait i hdr now s = Inr (go, t) \<and> TCP_FLG_ISSET (th_flg hdr) TCP_FLG_ACK"
    using run st by (auto simp: tcp_seg_ack_def Let_def streaming_def taking_def split: if_splits tcp_state.splits)
  then have "window_kept i s t \<and> rcv_nxt (cb_table t i) = rcv_nxt (cb_table s i) \<and>
    (taking (cb_state (cb_table t i)) \<longleftrightarrow> taking (cb_state (cb_table s i))) \<and> (taking (cb_state (cb_table s i)) \<longrightarrow>
       (go \<longleftrightarrow> (TCP_FLG_ISSET (th_flg hdr) TCP_FLG_ACK \<longrightarrow> ntoh32 (os_endian os) (th_ack hdr) \<le> snd_nxt (cb_table s i))))"
    using ack_open_kept [OF w, of os i hdr now s go t] by auto
  then show "window_kept i s t" "rcv_nxt (cb_table t i) = rcv_nxt (cb_table s i)"
    "taking (cb_state (cb_table t i)) \<longleftrightarrow> taking (cb_state (cb_table s i))"
    "taking (cb_state (cb_table s i)) \<Longrightarrow>
       go \<longleftrightarrow> (TCP_FLG_ISSET (th_flg hdr) TCP_FLG_ACK \<longrightarrow> ntoh32 (os_endian os) (th_ack hdr) \<le> snd_nxt (cb_table s i))"
    by simp_all
qed

lemma urg_kept:
  "window_kept i s (tcp_seg_urg e i hdr s)" "cb_state (cb_table (tcp_seg_urg e i hdr s) i) = cb_state (cb_table s i)"
  "rcv_nxt (cb_table (tcp_seg_urg e i hdr s) i) = rcv_nxt (cb_table s i)"
  by (simp_all add: tcp_seg_urg_def window_kept_def upd_cb_def)

lemma fin_kept:
  assumes "wait_keeps tcp_view wait" "tcp_seg_fin os wait i hdr now s = Inr t"
  shows "window_kept i s t"
proof -
  have "window_kept i s t"
    if "tcp_reply os wait i q a TCP_FLG_ACK now (upd_cb i (\<lambda>cb. cb\<lparr>rcv_nxt := n\<rparr>) s) = Inr u" "t = upd_cb i (fin_state now) u" for q a n u
    using reply_kept [OF assms(1) that(1)] that(2)
    by (auto simp: window_kept_def upd_cb_def fin_state_def split: tcp_state.split)
  then show ?thesis using assms(2)
    by (auto simp: tcp_seg_fin_def Let_def bindr_Inr_iff split: if_splits)
qed

lemma text_taken:
  assumes w: "wait_keeps tcp_view wait" and len: "length (cb_window (cb_table s i)) = TCP_WINDOW_SIZE"
    and run: "tcp_seg_text os wait i hdr segment plen now s = Inr t"
  shows "rcv_data (cb_table t i) = rcv_data (cb_table s i) @
    (if taking (cb_state (cb_table s i)) \<and> ntoh32 (os_endian os) (th_seq hdr) = rcv_nxt (cb_table s i)
     then take plen (drop (TCP_HDR_LEN hdr) segment) else [])"
proof (cases "taking (cb_state (cb_table s i)) \<and> plen > 0 \<and> ntoh32 (os_endian os) (th_seq hdr) = rcv_nxt (cb_table s i)")
  case True
  then obtain dat window n where p: "mem_read segment (TCP_HDR_LEN hdr) plen = Inr dat"
      "mem_write (cb_window (cb_table s i)) (TCP_WINDOW_SIZE - unat (rcv_wnd (cb_table s i))) dat = Inr window"
      and r: "tcp_reply os wait i (snd_nxt (cb_table s i)) n TCP_FLG_ACK now
        (upd_cb i (\<lambda>cb. cb\<lparr>cb_window := window, rcv_nxt := n, rcv_wnd := rcv_wnd cb - of_nat plen\<rparr>) s) = Inr t"
    using run by (auto simp: tcp_seg_text_def Let_def bindr_Inr_iff taking_def)
  have t: "dat = take plen (drop (TCP_HDR_LEN hdr) segment)" "length dat = plen"
    using p(1) by (auto simp: mem_read_def split: if_splits)
  show ?thesis using window_kept_data [OF reply_kept [OF w r]] window_put(2) [OF len p(2), of n] t True by (simp add: upd_cb_def)
next
  case False
  then have "t = s \<or> (\<exists>a. tcp_reply os wait i (snd_nxt (cb_table s i)) a TCP_FLG_ACK now s = Inr t)"
    using run by (auto simp: tcp_seg_text_def Let_def taking_def split: if_splits)
  then have "rcv_data (cb_table t i) = rcv_data (cb_table s i)" by (auto intro: window_kept_data reply_kept [OF w])
  then show ?thesis using False by auto
qed

lemma moves_streaming: "tcp_moves\<^sup>*\<^sup>* st st' \<Longrightarrow> streaming st \<Longrightarrow> st' \<noteq> CLOSED \<Longrightarrow> streaming st'"
proof (induction rule: rtranclp_induct)
  case (step y z)
  then show ?case by (cases "y = CLOSED") (auto elim!: tcp_moves.cases simp: streaming_def)
qed simp

lemma data_taken:
  assumes w: "wait_keeps tcp_view wait" and len: "length (cb_window (cb_table s i)) = TCP_WINDOW_SIZE"
    and run: "tcp_seg_data os wait i hdr segment plen now s = Inr t"
  shows "rcv_data (cb_table t i) = rcv_data (cb_table s i) @
    (if taking (cb_state (cb_table s i)) \<and> ntoh32 (os_endian os) (th_seq hdr) = rcv_nxt (cb_table s i)
     then take plen (drop (TCP_HDR_LEN hdr) segment) else [])"
proof -
  let ?u = "tcp_seg_urg (os_endian os) i hdr s"
  obtain v where v: "tcp_seg_text os wait i hdr segment plen now ?u = Inr v" "tcp_seg_fin os wait i hdr now v = Inr t"
    using run by (auto simp: tcp_seg_data_def bindr_Inr_iff)
  have "length (cb_window (cb_table ?u i)) = TCP_WINDOW_SIZE" using urg_kept(1) [of i s "os_endian os" hdr] len by (simp add: window_kept_def)
  from text_taken [OF w this v(1)] window_kept_data [OF fin_kept [OF w v(2)]] show ?thesis
    by (simp add: urg_kept window_kept_data [OF urg_kept(1)])
qed

lemma arrives_taken:
  assumes w: "wait_keeps tcp_view wait" and st: "streaming (cb_state (cb_table s i))" and ok: "cb_ok (cb_table s i)"
    and run: "tcp_event_segment_arrives os wait i hdr segment len s = Inr t" and up: "cb_state (cb_table t i) \<noteq> CLOSED"
  shows "rcv_data (cb_table t i) = rcv_data (cb_table s i) @ tcp_taken os i hdr segment len s"
proof (cases "os_timeofday os (sys_tick s)")
  case None
  then have "t = s\<lparr>sys_tick := Suc (sys_tick s)\<rparr>"
    using run by (simp add: tcp_event_segment_arrives_def sys_timeofday_def)
  with None show ?thesis by (simp add: tcp_taken_def)
next
  case (Some now)
  define a where "a = s\<lparr>sys_tick := Suc (sys_tick s)\<rparr>"
  have cb: "cb_table a = cb_table s" by (simp add: a_def)
  let ?plen = "TCP_DATA_LEN hdr len"
  have "bindr (tcp_seg_open os wait i hdr ?plen now a)
      (\<lambda>(go, s). if go then tcp_seg_data os wait i hdr segment ?plen now s else Inr s) = Inr t"
    using run st Some unfolding a_def
    by (cases "cb_state (cb_table s i)") (simp_all add: tcp_event_segment_arrives_def sys_timeofday_def streaming_def Let_def)
  then obtain go b where b: "tcp_seg_open os wait i hdr ?plen now a = Inr (go, b)"
      "(if go then tcp_seg_data os wait i hdr segment ?plen now b else Inr b) = Inr t"
    by (auto simp: bindr_Inr_iff)
  then obtain ok1 c where c: "tcp_seg_check os wait i hdr ?plen now a = Inr (ok1, c)"
      "(if ok1 then tcp_seg_ack os wait i hdr now c else Inr (False, c)) = Inr (go, b)"
    by (auto simp: tcp_seg_open_def bindr_Inr_iff)
  have "cb_state (cb_table a i) \<notin> {CLOSED, LISTEN, SYN_SENT}" using st by (auto simp: cb streaming_def)
  note ck = check_kept [OF w this c(1)]
  show ?thesis
  proof (cases ok1)
    case False
    then have "b = c" "t = c" using b c by auto
    moreover have "tcp_taken os i hdr segment len s = []" using False ck(1) by (auto simp: tcp_taken_def Let_def cb)
    ultimately show ?thesis using ck(3) up by (simp add: cb window_kept_data [of i a c])
  next
    case True
    then have ca: "c = a" "tcp_seg_ack os wait i hdr now a = Inr (go, b)" using ck(2) c by auto
    have "streaming (cb_state (cb_table a i))" using st by (simp add: cb)
    note ak = ack_kept [OF w this ca(2)]
    have len: "length (cb_window (cb_table b i)) = TCP_WINDOW_SIZE" using ak(1) ok by (simp add: window_kept_def cb cb_ok_def)
    have taken: "tcp_taken os i hdr segment len s = (if go \<and> taking (cb_state (cb_table s i)) \<and>
        ntoh32 (os_endian os) (th_seq hdr) = rcv_nxt (cb_table s i) then take ?plen (drop (TCP_HDR_LEN hdr) segment) else [])"
      using True ck(1) ak(4) Some by (auto simp: tcp_taken_def Let_def taking_def cb)
    show ?thesis
    proof (cases go)
      case True
      then show ?thesis
        using data_taken [OF w len, of os hdr segment ?plen now t] b(2) taken ak(2,3) window_kept_data [OF ak(1)] by (simp add: cb)
    next
      case False
      then show ?thesis using b(2) taken window_kept_data [OF ak(1)] by (simp add: cb)
    qed
  qed
qed

section \<open>The receive stream\<close>

text \<open>
  A step of the stream of block \<open>i\<close>: a segment is handled and leaves the connection open, or the user
  receives.
\<close>

inductive stream_step :: "os \<Rightarrow> 'a tcp_scheme waits \<Rightarrow> nat \<Rightarrow> 'a tcp_scheme \<Rightarrow> bytes \<Rightarrow> bytes \<Rightarrow> 'a tcp_scheme \<Rightarrow> bool" for os wait i where
  segment: "tcp_event_segment_arrives os wait i hdr segment len s = Inr t \<Longrightarrow> cb_state (cb_table t i) \<noteq> CLOSED \<Longrightarrow>
    stream_step os wait i s (tcp_taken os i hdr segment len s) [] t"
| receive: "tcp_recv_try i want s = Inr (Some (n, buf), t) \<Longrightarrow> stream_step os wait i s [] buf t"

definition stream_ok :: "'a tcp_scheme waits \<Rightarrow> nat \<Rightarrow> 'a tcp_scheme \<Rightarrow> bool" where
  "stream_ok wait i s \<longleftrightarrow> wait_keeps tcp_view wait \<and> cb_ok (cb_table s i) \<and> streaming (cb_state (cb_table s i))"

lemma recv_try_get:
  assumes "cb_ok (cb_table s i)" "tcp_recv_try i want s = Inr (Some (n, buf), t)"
  shows "rcv_data (cb_table s i) = buf @ rcv_data (cb_table t i)" "cb_ok (cb_table t i)"
    "cb_state (cb_table t i) = cb_state (cb_table s i)"
proof -
  obtain w where w: "tcp_recv_copy i want s = Inr (int (min want (length (rcv_data (cb_table s i)))),
      take want (rcv_data (cb_table s i)), upd_cb i (\<lambda>cb. w) s)"
      "rcv_data w = drop want (rcv_data (cb_table s i))" "cb_state w = cb_state (cb_table s i)" "cb_ok w"
    using window_get [of s i want] assms(1) by (auto simp: cb_ok_def [of "cb_table s i"])
  have "buf = [] \<and> t = s \<or> buf = take want (rcv_data (cb_table s i)) \<and> t = upd_cb i (\<lambda>cb. w) s"
    using assms(2) w(1) by (auto simp: tcp_recv_try_def Let_def split: if_splits)
  then show "rcv_data (cb_table s i) = buf @ rcv_data (cb_table t i)" "cb_ok (cb_table t i)"
    "cb_state (cb_table t i) = cb_state (cb_table s i)"
    using w assms(1) by auto
qed

interpretation rx_stream: byte_stream "\<lambda>s. rcv_data (cb_table s i)" "stream_step os wait i" "stream_ok wait i" for os wait i
proof unfold_locales
  fix s t :: "'a tcp_scheme" and ins out
  assume ok: "stream_ok wait i s" and step: "stream_step os wait i s ins out t"
  from step show "stream_ok wait i t"
  proof cases
    case (segment hdr seg len)
    have "seg_rel i s t" using postrD [OF segment_arrives_rel segment(3)] ok by (simp add: stream_ok_def)
    then show ?thesis using ok segment(4) moves_streaming by (auto simp: stream_ok_def seg_rel_def)
  next
    case (receive want n)
    then show ?thesis using ok recv_try_get(2,3) [of s i want n out t] by (auto simp: stream_ok_def)
  qed
  from step show "rcv_data (cb_table s i) @ ins = out @ rcv_data (cb_table t i)"
  proof cases
    case (segment hdr seg len)
    then show ?thesis using ok arrives_taken [of wait s i os hdr seg len t] by (auto simp: stream_ok_def)
  next
    case (receive want n)
    then show ?thesis using ok recv_try_get(1) by (auto simp: stream_ok_def)
  qed
qed

end
