(* ===== verification/Tcpdata.thy ===== *)
theory Tcpdata
  imports Tcpstream
begin

unbundle bit_operations_syntax

text \<open>
  Data between two hosts: \<open>tcp_api_send\<close> on one, \<open>tcp_api_recv\<close> on the other and the acknowledgement
  back, through all layers of both stacks.
\<close>

section \<open>A data segment arrives\<close>

lemma ack_update_peer [simp]:
  "peer_addr (ack_update seq ack win now cb) = peer_addr cb" "peer_port (ack_update seq ack win now cb) = peer_port cb"
  "cb_port (ack_update seq ack win now cb) = cb_port cb" "txq_snt (ack_update seq ack win now cb) = txq_snt cb"
  by (simp_all add: ack_update_def Let_def)

lemma ack_of_fin_established [simp]: "cb_state cb = ESTABLISHED \<Longrightarrow> ack_of_fin ack cb = cb"
  by (simp add: ack_of_fin_def)

lemma flags_push [simp]:
  "\<not> TCP_FLG_ISSET 0x18 TCP_FLG_SYN" "\<not> TCP_FLG_ISSET 0x18 TCP_FLG_RST" "TCP_FLG_ISSET 0x18 TCP_FLG_ACK"
  "\<not> TCP_FLG_ISSET 0x18 TCP_FLG_FIN" "\<not> TCP_FLG_ISSET 0x18 TCP_FLG_URG" "TCP_FLG_ISSET 0x18 TCP_FLG_PSH"
  by (simp_all add: TCP_FLG_ISSET_def)

text \<open>The checks and the ACK field of a segment in order, for an established connection.\<close>

lemma established_open_run:
  fixes s :: "'a tcp_scheme"
  assumes "cb = cb_table s i" "cb_state cb = ESTABLISHED" "e = os_endian os"
    and "th_flg h \<in> {0x10, 0x18}" "ntoh32 e (th_seq h) = rcv_nxt cb" "ack = ntoh32 e (th_ack h)"
    and "0 < rcv_wnd cb" "rcv_nxt cb < rcv_nxt cb + ucast (rcv_wnd cb)" "snd_una cb \<le> ack" "ack \<le> snd_nxt cb"
  shows "tcp_seg_open os wait i h plen now s = Inr (True, upd_cb i (\<lambda>_. ack_update (rcv_nxt cb) ack (ntoh16 e (th_win h)) now cb) s)"
proof -
  have "tcp_acceptable e cb h plen" using assms(5,7,8) by (simp add: tcp_acceptable_def Let_def)
  then have "tcp_seg_check os wait i h plen now s = Inr (True, s)"
    using assms(1,3,4) by (auto simp: tcp_seg_check_def Let_def)
  moreover have "tcp_seg_ack os wait i h now s = Inr (True, upd_cb i (\<lambda>_. ack_update (rcv_nxt cb) ack (ntoh16 e (th_win h)) now cb) s)"
    using assms by (auto simp: tcp_seg_ack_def tcp_seg_ack_open_def Let_def upd_cb_def)
  ultimately show ?thesis by (simp add: tcp_seg_open_def)
qed

lemma data_run:
  fixes s :: "'a tcp_scheme"
  assumes "reaches s n peer self ha addr fd" "cb = cb_table s i" "cb_iface cb = Some n" "peer = peer_addr cb" "os_fine os now"
    and "cb_state cb = ESTABLISHED" "length (cb_window cb) = TCP_WINDOW_SIZE" "e = os_endian os"
    and "th_flg h = 0x18" "th_off h = 0x50" "ntoh32 e (th_seq h) = rcv_nxt cb" "ack = ntoh32 e (th_ack h)"
    and "0 < length data" "length data \<le> unat (rcv_wnd cb)" "rcv_nxt cb < rcv_nxt cb + ucast (rcv_wnd cb)"
    and "snd_una cb \<le> ack" "ack \<le> snd_nxt cb" "segment = hb @ data @ pad" "length hb = 20"
  shows "\<exists>s' w hdr. tcp_event_segment_arrives os wait i h segment (20 + length data) s = Inr s' \<and>
    emits fd (tcp_frame e ha addr self peer (ip_next_id s) (tcp_segment e self peer hdr [])) (cb_table s') s s' \<and>
    hdr = \<lparr>th_src = cb_port cb, th_dst = peer_port cb, th_seq = hton32 e (snd_nxt cb), th_ack = hton32 e (rcv_nxt cb + of_nat (length data)),
       th_off = 0x50, th_flg = 0x10, th_win = hton16 e (rcv_wnd cb - of_nat (length data)), th_sum = 0, th_urg = 0\<rparr> \<and>
    cb_table s' = (cb_table s)(i := w) \<and> rcv_data w = rcv_data cb @ data \<and> rcv_nxt w = rcv_nxt cb + of_nat (length data) \<and>
    length (cb_window w) = TCP_WINDOW_SIZE \<and> cb_state w = ESTABLISHED \<and> cb_used w = cb_used cb \<and>
    w = (ack_update (rcv_nxt cb) ack (ntoh16 e (th_win h)) now cb)\<lparr>cb_window := cb_window w, rcv_nxt := rcv_nxt cb + of_nat (length data),
      rcv_wnd := rcv_wnd cb - of_nat (length data)\<rparr>"
proof -
  define t where "t = s\<lparr>sys_tick := Suc (sys_tick s)\<rparr>"
  define v where "v = ack_update (rcv_nxt cb) ack (ntoh16 e (th_win h)) now cb"
  have plen: "TCP_DATA_LEN h (20 + length data) = length data" "TCP_HDR_LEN h = 20"
    using assms(10,14) unat_u16_less [of "rcv_wnd cb"] by (simp_all add: TCP_DATA_LEN_def TCP_HDR_LEN_def)
  have wnd: "0 < rcv_wnd cb" using assms(13,14) by (metis less_le_trans unat_gt_0 word_gt_0)
  have v: "cb_state v = ESTABLISHED" "rcv_nxt v = rcv_nxt cb" "rcv_wnd v = rcv_wnd cb" "cb_window v = cb_window cb" "cb_iface v = Some n"
    "peer_addr v = peer" "snd_nxt v = snd_nxt cb" "cb_port v = cb_port cb" "peer_port v = peer_port cb" "cb_used v = cb_used cb"
    using assms(3,4,6) by (simp_all add: v_def)
  have op: "tcp_seg_open os wait i h (length data) now t = Inr (True, upd_cb i (\<lambda>_. v) t)"
    unfolding v_def by (rule established_open_run) (use assms wnd in \<open>simp_all add: t_def\<close>)
  let ?k = "TCP_WINDOW_SIZE - unat (rcv_wnd cb)"
  define window where "window = take ?k (cb_window cb) @ data @ drop (?k + length data) (cb_window cb)"
  have wr: "mem_write (cb_window cb) ?k data = Inr window"
    using assms(7,14) unat_u16_less [of "rcv_wnd cb"] by (simp add: mem_write_def window_def)
  have rd: "mem_read segment 20 (length data) = Inr data" using assms(18,19) by (simp add: mem_read_def)
  define w where "w = v\<lparr>cb_window := window, rcv_nxt := rcv_nxt v + of_nat (length data), rcv_wnd := rcv_wnd v - of_nat (length data)\<rparr>"
  define u where "u = upd_cb i (\<lambda>_. w) t"
  have "same_net s u" unfolding u_def t_def same_net_upd_cb by (simp add: same_net_def)
  then have r: "reaches u n peer self ha addr fd" using assms(1) reaches_cong [of s u] by (simp add: u_def t_def)
  define hdr where "hdr = tcp_tx_hdr e (cb_table u i) (snd_nxt cb) (rcv_nxt cb + of_nat (length data)) 0x10"
  have q: "\<not> tx_queues 0x10 []" by (simp add: tx_queues_def)
  obtain s' where s': "tcp_reply os wait i (snd_nxt cb) (rcv_nxt cb + of_nat (length data)) 0x10 now u = Inr s'"
    "emits fd (tcp_frame e ha addr self peer (ip_next_id u) (tcp_segment e self peer hdr [])) (cb_table u) u s'"
    using tcp_reply_sent [OF r, of i os now "0x10" e hdr "snd_nxt cb" "rcv_nxt cb + of_nat (length data)" wait now] assms(5,8) q v(5,6)
    by (auto simp: hdr_def u_def w_def)
  have st: "cb_state (cb_table s' i) = ESTABLISHED" using emits_simps(1) [OF s'(2)] v(1) by (simp add: u_def w_def)
  have "tcp_seg_text os wait i h segment (length data) now (upd_cb i (\<lambda>_. v) t) = Inr s'"
    using s'(1) v wr rd plen(2) assms(8,11,13) by (simp add: tcp_seg_text_def Let_def u_def w_def upd_cb_def)
  then have d: "tcp_seg_data os wait i h segment (length data) now (upd_cb i (\<lambda>_. v) t) = Inr s'"
    using assms(9) by (simp add: tcp_seg_data_def tcp_seg_urg_def tcp_seg_fin_def)
  have run: "tcp_event_segment_arrives os wait i h segment (20 + length data) s = Inr s'"
    using assms(2,5,6) op d by (simp add: tcp_event_segment_arrives_def sys_timeofday_def os_fine_def plen t_def)
  obtain k ret where k: "s' = u\<lparr>sys_tick := k, sys_sent := sys_sent u @ [(fd, tcp_frame e ha addr self peer (ip_next_id u)
       (tcp_segment e self peer hdr []), ret)], ip_next_id := ip_next_id u + 1, cb_table := cb_table u\<rparr>"
    using s'(2) unfolding emits_def by blast
  have em: "emits fd (tcp_frame e ha addr self peer (ip_next_id s) (tcp_segment e self peer hdr [])) (cb_table s') s s'"
    by (rule emitsI [where t = k and ret = ret]) (simp add: k u_def t_def upd_cb_def)
  have "hdr = \<lparr>th_src = cb_port cb, th_dst = peer_port cb, th_seq = hton32 e (snd_nxt cb), th_ack = hton32 e (rcv_nxt cb + of_nat (length data)),
       th_off = 0x50, th_flg = 0x10, th_win = hton16 e (rcv_wnd cb - of_nat (length data)), th_sum = 0, th_urg = 0\<rparr>"
    by (simp add: hdr_def u_def w_def tcp_tx_hdr_def v)
  moreover have "cb_table s' = (cb_table s)(i := w)" by (simp add: k u_def t_def)
  moreover have "rcv_data w = rcv_data cb @ data"
    using window_put(2) [of v data window "rcv_nxt v + of_nat (length data)"] assms(7) wr v(3,4) rcv_data_cong [OF v(4,3)] by (simp add: w_def)
  moreover have "length (cb_window w) = TCP_WINDOW_SIZE" using length_mem_write [OF wr] assms(7) by (simp add: w_def)
  moreover have "rcv_nxt w = rcv_nxt cb + of_nat (length data)" "cb_state w = ESTABLISHED" "cb_used w = cb_used cb"
    by (simp_all add: w_def v)
  moreover have "w = v\<lparr>cb_window := cb_window w, rcv_nxt := rcv_nxt cb + of_nat (length data), rcv_wnd := rcv_wnd cb - of_nat (length data)\<rparr>"
    by (simp add: w_def v)
  ultimately show ?thesis using run em unfolding v_def by blast
qed

text \<open>An acknowledgement without text.\<close>

lemma ack_run:
  fixes s :: "'a tcp_scheme"
  assumes "cb = cb_table s i" "os_timeofday os (sys_tick s) = Some now" "cb_state cb = ESTABLISHED" "e = os_endian os"
    and "th_flg h = 0x10" "th_off h = 0x50" "ntoh32 e (th_seq h) = rcv_nxt cb" "ack = ntoh32 e (th_ack h)"
    and "0 < rcv_wnd cb" "rcv_nxt cb < rcv_nxt cb + ucast (rcv_wnd cb)" "snd_una cb \<le> ack" "ack \<le> snd_nxt cb"
  shows "tcp_event_segment_arrives os wait i h segment 20 s =
    Inr (upd_cb i (\<lambda>_. ack_update (rcv_nxt cb) ack (ntoh16 e (th_win h)) now cb) (s\<lparr>sys_tick := Suc (sys_tick s)\<rparr>))"
proof -
  define t where "t = s\<lparr>sys_tick := Suc (sys_tick s)\<rparr>"
  define v where "v = ack_update (rcv_nxt cb) ack (ntoh16 e (th_win h)) now cb"
  have "tcp_seg_open os wait i h 0 now t = Inr (True, upd_cb i (\<lambda>_. v) t)"
    unfolding v_def by (rule established_open_run) (use assms in \<open>simp_all add: t_def\<close>)
  moreover have "cb_state v = ESTABLISHED" using assms(3) by (simp add: v_def)
  then have "tcp_seg_data os wait i h segment 0 now (upd_cb i (\<lambda>_. v) t) = Inr (upd_cb i (\<lambda>_. v) t)"
    using assms(5) by (simp add: tcp_seg_data_def tcp_seg_urg_def tcp_seg_text_def tcp_seg_fin_def)
  moreover have "cb_state (cb_table t i) = ESTABLISHED" using assms(1,3) by (simp add: t_def)
  ultimately show ?thesis
    using assms(2) data_len_control [OF assms(6)] unfolding t_def [symmetric] v_def [symmetric]
    by (simp add: tcp_event_segment_arrives_def sys_timeofday_def flip: t_def)
qed

section \<open>Sending and receiving\<close>

lemma send_pass_run:
  fixes s :: "'a tcp_scheme"
  assumes "reaches s n peer self ha addr fd" "cb = cb_table s i" "cb_state cb = ESTABLISHED" "cb_iface cb = Some n" "peer = peer_addr cb"
    and "cb_txq cb = []" "unat (txq_snt cb) + length data \<le> unat (snd_wnd cb)" "length data \<le> unat (tcp_send_wnd cb)"
    and "0 < length data" "length data \<le> 1420" "e = os_endian os" "hdr = tcp_tx_hdr e cb (snd_nxt cb) (rcv_nxt cb) 0x18"
    and "\<forall>k. os_malloc os k" "\<forall>k. os_timeofday os k = Some now" "\<forall>k. os_ret os k = int (14 + max 46 (40 + length data))"
  shows "\<exists>s' en. tcp_send_pass os wait i data s = Inr (SendNext (length data), s') \<and>
    emits fd (tcp_frame e ha addr self peer (ip_next_id s) (tcp_segment e self peer hdr data)) (cb_table s') s s' \<and>
    cb_table s' = (cb_table s)(i := cb\<lparr>cb_txq := [en], txq_snt := txq_snt cb + of_nat (length data),
      cb_timeout := fst now + USER_TIMEOUT, snd_nxt := snd_nxt cb + of_nat (length data)\<rparr>)"
proof -
  define t where "t = s\<lparr>sys_tick := Suc (sys_tick s)\<rparr>"
  have r: "reaches t n peer self ha addr fd" using assms(1) reaches_cong [of s t] by (simp add: t_def same_net_def)
  then obtain ni d dev where ni: "net_ifs t n = Some ni" "if_dev ni = Some d" "net_devs t d = Some dev" "unat (nd_mtu dev) = 1500"
    by (auto simp: reaches_def)
  have room: "tcp_send_room (nd_mtu dev) (length data) = length data"
    using ni(4) assms(10) by (simp add: tcp_send_room_def)
  have held: "\<not> tx_held (cb_table t i) 0x18 data" using assms(2,6,7) by (simp add: tx_held_def txq_unsent_def t_def)
  have q: "tx_queues 0x18 data" using assms(9) by (simp add: tx_queues_def)
  define en where "en = \<lparr>tq_seg = hdr\<lparr>th_sum := tcp_sum e self peer hdr data\<rparr>, tq_data = data, tq_len = of_nat (20 + length data), tq_time = now\<rparr>"
  obtain u where u: "tcp_tx os wait i (snd_nxt cb) (rcv_nxt cb) 0x18 now data t = Inr (int (length data), u)"
    "emits fd (tcp_frame e ha addr self peer (ip_next_id t) (tcp_segment e self peer hdr data))
      ((cb_table t)(i := cb\<lparr>cb_txq := [en], txq_snt := txq_snt cb + of_nat (length data)\<rparr>)) t u"
    using tcp_tx_sent [OF r, of i data os "0x18" e hdr "snd_nxt cb" "rcv_nxt cb" wait now] assms held q
    by (auto simp: t_def en_def)
  define s' where "s' = upd_cb i (\<lambda>cb. cb\<lparr>cb_timeout := fst now + USER_TIMEOUT, snd_nxt := snd_nxt cb + of_nat (length data)\<rparr>) u"
  have "netif_dev n t = Inr (d, dev)" using ni by (simp add: netif_dev_def deref_def)
  moreover have "\<not> unat (tcp_send_wnd cb) < length data" using assms(8) by simp
  ultimately have run: "tcp_send_pass os wait i data s = Inr (SendNext (length data), s')"
    using assms(2-4,9,14) u(1) room
    by (simp add: tcp_send_pass_def sys_timeofday_def Let_def s'_def flip: t_def)
  obtain k ret where k: "u = t\<lparr>sys_tick := k, sys_sent := sys_sent t @ [(fd, tcp_frame e ha addr self peer (ip_next_id t)
       (tcp_segment e self peer hdr data), ret)], ip_next_id := ip_next_id t + 1,
      cb_table := (cb_table t)(i := cb\<lparr>cb_txq := [en], txq_snt := txq_snt cb + of_nat (length data)\<rparr>)\<rparr>"
    using u(2) unfolding emits_def by blast
  have "emits fd (tcp_frame e ha addr self peer (ip_next_id s) (tcp_segment e self peer hdr data)) (cb_table s') s s'"
    by (rule emitsI [where t = k and ret = ret]) (simp add: s'_def k t_def upd_cb_def)
  moreover have "cb_table s' = (cb_table s)(i := cb\<lparr>cb_txq := [en], txq_snt := txq_snt cb + of_nat (length data),
      cb_timeout := fst now + USER_TIMEOUT, snd_nxt := snd_nxt cb + of_nat (length data)\<rparr>)"
    by (simp add: s'_def k t_def)
  ultimately show ?thesis using run by blast
qed

lemma send_run:
  assumes "i < TCP_CB_TABLE_SIZE" "cb_used (cb_table s i)" "\<not> tcp_mutex s"
    and "tcp_send_pass os wait i data (s\<lparr>tcp_mutex := True\<rparr>) = Inr (SendNext (length data), t)"
  shows "tcp_api_send os wait others (int i) data s = Inr (int (length data), tcp_unlock t)"
  using assms by (simp add: tcp_api_send_def tcp_lock_def TCP_SOCKET_INVALID_def)

lemma recv_run:
  assumes "i < TCP_CB_TABLE_SIZE" "cb_used (cb_table s i)" "\<not> tcp_mutex s" "cb_state (cb_table s i) = ESTABLISHED"
    and "length (cb_window (cb_table s i)) = TCP_WINDOW_SIZE" "rcv_data (cb_table s i) \<noteq> []"
  shows "\<exists>w. tcp_api_recv others (int i) want s =
      Inr (int (min want (length (rcv_data (cb_table s i)))), take want (rcv_data (cb_table s i)), s\<lparr>cb_table := (cb_table s)(i := w)\<rparr>) \<and>
    rcv_data w = drop want (rcv_data (cb_table s i)) \<and>
    (\<exists>win wnd. w = (cb_table s i)\<lparr>cb_window := win, rcv_wnd := wnd\<rparr> \<and> unat (rcv_wnd (cb_table s i)) \<le> unat wnd)"
proof -
  define t where "t = s\<lparr>tcp_mutex := True\<rparr>"
  have t: "cb_table t = cb_table s" by (simp add: t_def)
  obtain w where w: "tcp_recv_copy i want t = Inr (int (min want (length (rcv_data (cb_table s i)))), take want (rcv_data (cb_table s i)),
      upd_cb i (\<lambda>cb. w) t)" "rcv_data w = drop want (rcv_data (cb_table s i))"
      "\<exists>win wnd. w = (cb_table s i)\<lparr>cb_window := win, rcv_wnd := wnd\<rparr> \<and> unat (rcv_wnd (cb_table s i)) \<le> unat wnd"
    using window_get [of t i want] assms(5) unfolding t by blast
  have "TCP_WINDOW_SIZE - unat (rcv_wnd (cb_table s i)) \<noteq> 0" using assms(6) by (auto simp: rcv_data_def)
  then have "tcp_recv_try i want t = Inr (Some (int (min want (length (rcv_data (cb_table s i)))), take want (rcv_data (cb_table s i))),
      upd_cb i (\<lambda>cb. w) t)"
    using assms(4) w(1) by (simp add: tcp_recv_try_def Let_def t)
  then have "tcp_recv_loop others i want t = Inr (int (min want (length (rcv_data (cb_table s i)))), take want (rcv_data (cb_table s i)),
      upd_cb i (\<lambda>cb. w) t)"
    by (cases others) simp_all
  then have "tcp_api_recv others (int i) want s = Inr (int (min want (length (rcv_data (cb_table s i)))), take want (rcv_data (cb_table s i)),
      tcp_unlock (upd_cb i (\<lambda>cb. w) t))"
    using assms(1-3) by (simp add: tcp_api_recv_def tcp_lock_def TCP_SOCKET_INVALID_def t flip: t_def)
  moreover have "tcp_unlock (upd_cb i (\<lambda>cb. w) t) = s\<lparr>cb_table := (cb_table s)(i := w)\<rparr>"
    using assms(3) by (simp add: t_def tcp_unlock_def upd_cb_def)
  ultimately show ?thesis using w(2,3) by auto
qed

text \<open>No other block is for the connection: the local port and the peer.\<close>

definition conn_only :: "(nat \<Rightarrow> tcp_cb) \<Rightarrow> nat \<Rightarrow> nat \<Rightarrow> bool" where
  "conn_only tbl n i \<longleftrightarrow> (\<forall>j < TCP_CB_TABLE_SIZE. j \<noteq> i \<longrightarrow>
     \<not> (cb_for_port n (cb_port (tbl i)) (tbl j) \<and> cb_for_peer (peer_addr (tbl i)) (peer_port (tbl i)) (tbl j)))"

lemma rx_connection_eq:
  assumes "tcp_host s d n self ha" "\<not> tcp_mutex s" "length ha' = 6" "i < TCP_CB_TABLE_SIZE" "conn_only (cb_table s) n i"
    and "cb_iface (cb_table s i) = Some n" "cb_state (cb_table s i) = ESTABLISHED"
    and "th_dst hdr = cb_port (cb_table s i)" "th_src hdr = peer_port (cb_table s i)" "peer = peer_addr (cb_table s i)"
    and "th_sum hdr = 0" "e = os_endian os" "h = hdr\<lparr>th_sum := tcp_sum e peer self hdr data\<rparr>" "length data \<le> 1460"
    and "segment = tcp_segment e peer self hdr data @ replicate (6 - length data) 0"
  shows "receive os wait d (tcp_frame e ha ha' peer self ident (tcp_segment e peer self hdr data)) s =
    bindr (tcp_event_segment_arrives os wait i h segment (20 + length data) (s\<lparr>tcp_mutex := True\<rparr>)) (\<lambda>u. Inr (tcp_unlock u))"
proof (rule rx_hit_eq [OF assms(1-4) _ _ assms(11-15)])
  show "scan_hit (cb_table s) n peer hdr i"
    using assms(6-10) by (simp add: scan_hit_def cb_for_port_def cb_for_peer_def IS_FREE_CB_def)
  show "\<not> scan_hit (cb_table s) n peer hdr j" if "j < TCP_CB_TABLE_SIZE" "j \<noteq> i" for j
    using assms(5,8-10) that by (auto simp: conn_only_def scan_hit_def)
qed

lemma rx_connection:
  assumes "tcp_host s d n self ha" "\<not> tcp_mutex s" "length ha' = 6" "i < TCP_CB_TABLE_SIZE" "conn_only (cb_table s) n i"
    and "cb_iface (cb_table s i) = Some n" "cb_state (cb_table s i) = ESTABLISHED"
    and "th_dst hdr = cb_port (cb_table s i)" "th_src hdr = peer_port (cb_table s i)" "peer = peer_addr (cb_table s i)"
    and "th_sum hdr = 0" "e = os_endian os" "h = hdr\<lparr>th_sum := tcp_sum e peer self hdr data\<rparr>" "length data \<le> 1460"
    and "segment = tcp_segment e peer self hdr data @ replicate (6 - length data) 0"
    and "tcp_event_segment_arrives os wait i h segment (20 + length data) (s\<lparr>tcp_mutex := True\<rparr>) = Inr u"
  shows "receive os wait d (tcp_frame e ha ha' peer self ident (tcp_segment e peer self hdr data)) s = Inr (tcp_unlock u)"
  using rx_connection_eq [OF assms(1-15), of wait ident] assms(16) by simp

text \<open>The three events, each with the lock taken and released.\<close>

lemma send_data:
  fixes s :: "'a tcp_scheme"
  assumes host: "reaches s n peer self ha addr fd" "\<not> tcp_mutex s"
    and cb: "cb = cb_table s i" "i < TCP_CB_TABLE_SIZE" "cb_used cb" "cb_state cb = ESTABLISHED" "cb_iface cb = Some n" "peer = peer_addr cb" "cb_txq cb = []"
    and data: "unat (txq_snt cb) + length data \<le> unat (snd_wnd cb)" "length data \<le> unat (tcp_send_wnd cb)" "0 < length data" "length data \<le> 1420"
    and os: "e = os_endian os" "hdr = tcp_tx_hdr e cb (snd_nxt cb) (rcv_nxt cb) 0x18"
      "\<forall>k. os_malloc os k" "\<forall>k. os_timeofday os k = Some now" "\<forall>k. os_ret os k = int (14 + max 46 (40 + length data))"
  shows "\<exists>s' en. tcp_api_send os wait others (int i) data s = Inr (int (length data), s') \<and>
    emits fd (tcp_frame e ha addr self peer (ip_next_id s) (tcp_segment e self peer hdr data)) (cb_table s') s s' \<and>
    cb_table s' = (cb_table s)(i := cb\<lparr>cb_txq := [en], txq_snt := txq_snt cb + of_nat (length data),
      cb_timeout := fst now + USER_TIMEOUT, snd_nxt := snd_nxt cb + of_nat (length data)\<rparr>)"
proof -
  define t where "t = s\<lparr>tcp_mutex := True\<rparr>"
  have t: "cb = cb_table t i" "ip_next_id t = ip_next_id s" "cb_table t = cb_table s" using cb(1) by (simp_all add: t_def)
  have "reaches t n peer self ha addr fd" using host(1) reaches_cong [of s t] by (simp add: t_def same_net_def)
  from send_pass_run [OF this t(1) cb(4-7) data os, of wait] obtain u en where
    u: "tcp_send_pass os wait i data t = Inr (SendNext (length data), u)"
    "emits fd (tcp_frame e ha addr self peer (ip_next_id s) (tcp_segment e self peer hdr data)) (cb_table u) t u"
    "cb_table u = (cb_table s)(i := cb\<lparr>cb_txq := [en], txq_snt := txq_snt cb + of_nat (length data),
      cb_timeout := fst now + USER_TIMEOUT, snd_nxt := snd_nxt cb + of_nat (length data)\<rparr>)"
    unfolding t(2,3) by blast
  have "tcp_api_send os wait others (int i) data s = Inr (int (length data), tcp_unlock u)"
    by (rule send_run) (use cb(1-3) host(2) u(1) in \<open>simp_all add: t_def\<close>)
  then show ?thesis
    using emits_locked [OF u(2) [unfolded t_def] host(2)] u(3) by (intro exI [of _ "tcp_unlock u"] exI [of _ en]) simp
qed

lemma receive_data:
  fixes s :: "'a tcp_scheme"
  assumes host: "tcp_host s d n self ha" "reaches s n peer self ha' ha fd" "\<not> tcp_mutex s" "length ha' = 6"
    and cb: "cb = cb_table s i" "i < TCP_CB_TABLE_SIZE" "cb_state cb = ESTABLISHED" "cb_iface cb = Some n" "peer = peer_addr cb"
      "conn_only (cb_table s) n i" "length (cb_window cb) = TCP_WINDOW_SIZE" "rcv_nxt cb < rcv_nxt cb + ucast (rcv_wnd cb)"
    and hdr: "th_dst hdr = cb_port cb" "th_src hdr = peer_port cb" "th_sum hdr = 0" "th_flg hdr = 0x18" "th_off hdr = 0x50"
      "ntoh32 e (th_seq hdr) = rcv_nxt cb" "snd_una cb \<le> ntoh32 e (th_ack hdr)" "ntoh32 e (th_ack hdr) \<le> snd_nxt cb"
    and data: "0 < length data" "length data \<le> 1460" "length data \<le> unat (rcv_wnd cb)"
    and os: "e = os_endian os" "os_fine os now"
    and ack: "ack = \<lparr>th_src = cb_port cb, th_dst = peer_port cb, th_seq = hton32 e (snd_nxt cb), th_ack = hton32 e (rcv_nxt cb + of_nat (length data)),
       th_off = 0x50, th_flg = 0x10, th_win = hton16 e (rcv_wnd cb - of_nat (length data)), th_sum = 0, th_urg = 0\<rparr>"
  shows "\<exists>s' w. receive os wait d (tcp_frame e ha ha' peer self ident (tcp_segment e peer self hdr data)) s = Inr s' \<and>
    emits fd (tcp_frame e ha' ha self peer (ip_next_id s) (tcp_segment e self peer ack [])) (cb_table s') s s' \<and>
    cb_table s' = (cb_table s)(i := w) \<and> rcv_data w = rcv_data cb @ data \<and> rcv_nxt w = rcv_nxt cb + of_nat (length data) \<and>
    length (cb_window w) = TCP_WINDOW_SIZE \<and> cb_state w = ESTABLISHED \<and> cb_used w = cb_used cb \<and>
    w = (ack_update (rcv_nxt cb) (ntoh32 e (th_ack hdr)) (ntoh16 e (th_win hdr)) now cb)\<lparr>cb_window := cb_window w,
      rcv_nxt := rcv_nxt cb + of_nat (length data), rcv_wnd := rcv_wnd cb - of_nat (length data)\<rparr>"
proof -
  define h where "h = hdr\<lparr>th_sum := tcp_sum e peer self hdr data\<rparr>"
  have h: "th_flg h = 0x18" "th_off h = 0x50" "ntoh32 e (th_seq h) = rcv_nxt cb" "ntoh32 e (th_ack hdr) = ntoh32 e (th_ack h)"
    using hdr by (simp_all add: h_def)
  define t where "t = s\<lparr>tcp_mutex := True\<rparr>"
  have t: "cb = cb_table t i" "ip_next_id t = ip_next_id s" "cb_table t = cb_table s" using cb(1) by (simp_all add: t_def)
  have r: "reaches t n peer self ha' ha fd" using host(2) reaches_cong [of s t] by (simp add: t_def same_net_def)
  define seg where "seg = tcp_segment e peer self hdr data @ replicate (6 - length data) 0"
  have sg: "seg = enc_tcp_hdr e h @ data @ replicate (6 - length data) 0" "length (enc_tcp_hdr e h) = 20"
    by (simp_all add: seg_def tcp_segment_def h_def)
  obtain v w where v: "tcp_event_segment_arrives os wait i h seg (20 + length data) t = Inr v"
    "emits fd (tcp_frame e ha' ha self peer (ip_next_id s) (tcp_segment e self peer ack [])) (cb_table v) t v"
    "cb_table v = (cb_table s)(i := w)" "rcv_data w = rcv_data cb @ data" "rcv_nxt w = rcv_nxt cb + of_nat (length data)"
    "length (cb_window w) = TCP_WINDOW_SIZE" "cb_state w = ESTABLISHED" "cb_used w = cb_used cb"
    "w = (ack_update (rcv_nxt cb) (ntoh32 e (th_ack hdr)) (ntoh16 e (th_win h)) now cb)\<lparr>cb_window := cb_window w,
      rcv_nxt := rcv_nxt cb + of_nat (length data), rcv_wnd := rcv_wnd cb - of_nat (length data)\<rparr>"
    using data_run [OF r t(1) cb(4,5) os(2) cb(3,7) os(1) h data(1,3) cb(8) hdr(7,8) sg, of wait] unfolding t(2,3) ack by blast
  have "receive os wait d (tcp_frame e ha ha' peer self ident (tcp_segment e peer self hdr data)) s = Inr (tcp_unlock v)"
    using hdr(1,2) cb(1)
    by (intro rx_connection [OF host(1,3,4) cb(2,6) cb(4,3) [unfolded cb(1)] _ _ cb(5) [unfolded cb(1)] hdr(3) os(1) h_def data(2) seg_def
          v(1) [unfolded t_def]]) simp_all
  then show ?thesis
    using emits_locked [OF v(2) [unfolded t_def] host(3)] v(3-8) v(9) [unfolded h_def]
    by (intro exI [of _ "tcp_unlock v"] exI [of _ w] conjI) simp_all
qed

lemma receive_ack:
  fixes s :: "'a tcp_scheme"
  assumes host: "tcp_host s d n self ha" "\<not> tcp_mutex s" "length ha' = 6"
    and cb: "cb = cb_table s i" "i < TCP_CB_TABLE_SIZE" "cb_state cb = ESTABLISHED" "cb_iface cb = Some n" "peer = peer_addr cb"
      "conn_only (cb_table s) n i" "0 < rcv_wnd cb" "rcv_nxt cb < rcv_nxt cb + ucast (rcv_wnd cb)"
    and hdr: "th_dst hdr = cb_port cb" "th_src hdr = peer_port cb" "th_sum hdr = 0" "th_flg hdr = 0x10" "th_off hdr = 0x50"
      "ntoh32 e (th_seq hdr) = rcv_nxt cb" "ntoh32 e (th_ack hdr) = snd_nxt cb" "snd_una cb \<le> snd_nxt cb"
    and os: "e = os_endian os" "\<forall>k. os_timeofday os k = Some now"
  shows "\<exists>s'. receive os wait d (tcp_frame e ha ha' peer self ident (tcp_segment e peer self hdr [])) s = Inr s' \<and>
    cb_state (cb_table s' i) = ESTABLISHED \<and> snd_una (cb_table s' i) = snd_nxt cb \<and> snd_nxt (cb_table s' i) = snd_nxt cb \<and>
    sys_sent s' = sys_sent s"
proof -
  define h where "h = hdr\<lparr>th_sum := tcp_sum e peer self hdr []\<rparr>"
  have h: "th_flg h = 0x10" "th_off h = 0x50" "ntoh32 e (th_seq h) = rcv_nxt cb" "snd_nxt cb = ntoh32 e (th_ack h)"
    using hdr by (simp_all add: h_def)
  define seg where "seg = tcp_segment e peer self hdr [] @ replicate (6 - length ([] :: bytes)) 0"
  define u where "u = upd_cb i (\<lambda>_. ack_update (rcv_nxt cb) (snd_nxt cb) (ntoh16 e (th_win h)) now cb)
      (s\<lparr>tcp_mutex := True, sys_tick := Suc (sys_tick s)\<rparr>)"
  have c: "cb = cb_table (s\<lparr>tcp_mutex := True\<rparr>) i" "os_timeofday os (sys_tick (s\<lparr>tcp_mutex := True\<rparr>)) = Some now"
    using cb(1) os(2) by simp_all
  have ev: "tcp_event_segment_arrives os wait i h seg (20 + length ([] :: bytes)) (s\<lparr>tcp_mutex := True\<rparr>) = Inr u"
    using ack_run [OF c cb(3) os(1) h cb(7,8) hdr(8) order_refl, of wait seg] by (simp add: u_def)
  have "receive os wait d (tcp_frame e ha ha' peer self ident (tcp_segment e peer self hdr [])) s = Inr (tcp_unlock u)"
    using hdr(1,2) cb(1)
    by (intro rx_connection [OF host cb(2,6) cb(4,3) [unfolded cb(1)] _ _ cb(5) [unfolded cb(1)] hdr(3) os(1) h_def _ seg_def ev]) simp_all
  moreover have "cb_state (cb_table u i) = ESTABLISHED" "snd_nxt (cb_table u i) = snd_nxt cb" "sys_sent u = sys_sent s"
    using cb(3) by (simp_all add: u_def)
  moreover have "snd_una (cb_table u i) = snd_nxt cb" using hdr(8) by (auto simp: u_def ack_update_def Let_def)
  ultimately show ?thesis by (intro exI [of _ "tcp_unlock u"]) (simp add: tcp_unlock_def)
qed

section \<open>Both together\<close>

text \<open>
  Property C2: data goes from one host to the other, through every layer of both stacks. Between
  two ESTABLISHED blocks that agree on the sequence numbers, with room in the send window, in the
  send buffer and in the receiver's window, \<open>tcp_api_send\<close> of up to 1420 bytes returns their number
  and writes one frame; when the peer's Ethernet layer receives it, it writes one frame (ACK), and
  \<open>tcp_api_recv\<close> there returns the bytes, after those that were waiting; and when the sender receives
  that second frame, nothing is left unacknowledged.
\<close>

theorem tcp_data_transfer:
  fixes a :: "'a tcp_scheme" and b :: "'b tcp_scheme"
  assumes hosta: "tcp_host a da na ipa haa" "reaches a na ipb ipa hab haa fda" "\<not> tcp_mutex a"
    and hostb: "tcp_host b db nb ipb hab" "reaches b nb ipa ipb haa hab fdb" "\<not> tcp_mutex b"
    and ca: "ca = cb_table a i" "i < TCP_CB_TABLE_SIZE" "cb_used ca" "cb_state ca = ESTABLISHED" "cb_iface ca = Some na" "ipb = peer_addr ca"
      "conn_only (cb_table a) na i" "cb_txq ca = []" "0 < rcv_wnd ca" "rcv_nxt ca < rcv_nxt ca + ucast (rcv_wnd ca)"
    and cb: "cb = cb_table b j" "j < TCP_CB_TABLE_SIZE" "cb_used cb" "cb_state cb = ESTABLISHED" "cb_iface cb = Some nb" "ipa = peer_addr cb"
      "conn_only (cb_table b) nb j" "length (cb_window cb) = TCP_WINDOW_SIZE" "rcv_nxt cb < rcv_nxt cb + ucast (rcv_wnd cb)"
    and conn: "cb_port cb = peer_port ca" "peer_port cb = cb_port ca" "rcv_nxt cb = snd_nxt ca" "snd_nxt cb = rcv_nxt ca"
      "snd_una cb \<le> snd_nxt cb" "snd_una ca \<le> snd_nxt ca + of_nat (length data)"
    and data: "data \<noteq> []" "length data \<le> 1420" "length data \<le> unat (tcp_send_wnd ca)" "length data \<le> unat (rcv_wnd cb)"
      "unat (txq_snt ca) + length data \<le> unat (snd_wnd ca)"
    and osa: "e = os_endian osa" "\<forall>k. os_malloc osa k" "\<forall>k. os_timeofday osa k = Some ta"
      "\<forall>k. os_ret osa k = int (14 + max 46 (40 + length data))"
    and osb: "e = os_endian osb" "os_fine osb tb"
  shows "\<exists>a' a'' b1 b2 frame ack r r'.
    tcp_api_send osa waita [] (int i) data a = Inr (int (length data), a') \<and> sys_sent a' = sys_sent a @ [(fda, frame, r)] \<and>
    receive osb waitb db frame b = Inr b1 \<and> sys_sent b1 = sys_sent b @ [(fdb, ack, r')] \<and>
    tcp_api_recv [] (int j) want b1 = Inr (int (min want (length (rcv_data cb @ data))), take want (rcv_data cb @ data), b2) \<and>
    rcv_data (cb_table b2 j) = drop want (rcv_data cb @ data) \<and>
    receive osa waita da ack a' = Inr a'' \<and> cb_state (cb_table a'' i) = ESTABLISHED \<and>
    snd_una (cb_table a'' i) = snd_nxt ca + of_nat (length data) \<and> snd_nxt (cb_table a'' i) = snd_nxt ca + of_nat (length data)"
proof -
  have ha: "length haa = 6" "length hab = 6" using hosta(1) hostb(1) by (simp_all add: tcp_host_def)
  have len: "0 < length data" "length data \<le> 1460" using data(1,2) by simp_all
  define n where "n = (of_nat (length data) :: u32)"
  define hdr where "hdr = tcp_tx_hdr e ca (snd_nxt ca) (rcv_nxt ca) 0x18"
  define F1 where "F1 = tcp_frame e hab haa ipa ipb (ip_next_id a) (tcp_segment e ipa ipb hdr data)"
  obtain a' en where a': "tcp_api_send osa waita [] (int i) data a = Inr (int (length data), a')" "emits fda F1 (cb_table a') a a'"
    "cb_table a' = (cb_table a)(i := ca\<lparr>cb_txq := [en], txq_snt := txq_snt ca + of_nat (length data),
      cb_timeout := fst ta + USER_TIMEOUT, snd_nxt := snd_nxt ca + n\<rparr>)"
    using send_data [OF hosta(2,3) ca(1-6,8) data(5,3) len(1) data(2) osa(1) hdr_def osa(2-4), of waita "[]"] unfolding F1_def n_def by blast
  note as = emits_simps [OF a'(2)]
  have h: "th_dst hdr = cb_port cb" "th_src hdr = peer_port cb" "th_sum hdr = 0" "th_flg hdr = 0x18" "th_off hdr = 0x50"
    "ntoh32 e (th_seq hdr) = rcv_nxt cb" "snd_una cb \<le> ntoh32 e (th_ack hdr)" "ntoh32 e (th_ack hdr) \<le> snd_nxt cb"
    using conn by (simp_all add: hdr_def tcp_tx_hdr_def)
  define ack where "ack = \<lparr>th_src = cb_port cb, th_dst = peer_port cb, th_seq = hton32 e (snd_nxt cb), th_ack = hton32 e (rcv_nxt cb + of_nat (length data)),
       th_off = 0x50, th_flg = 0x10, th_win = hton16 e (rcv_wnd cb - of_nat (length data)), th_sum = 0, th_urg = 0\<rparr>"
  define F2 where "F2 = tcp_frame e haa hab ipb ipa (ip_next_id b) (tcp_segment e ipb ipa ack [])"
  obtain b1 w where b1: "receive osb waitb db F1 b = Inr b1" "emits fdb F2 (cb_table b1) b b1"
    "cb_table b1 = (cb_table b)(j := w)" "rcv_data w = rcv_data cb @ data" "length (cb_window w) = TCP_WINDOW_SIZE"
    "cb_state w = ESTABLISHED" "cb_used w = cb_used cb"
    using receive_data [OF hostb ha(1) cb(1,2,4-9) h len data(4) osb ack_def, of waitb "ip_next_id a"] unfolding F1_def F2_def by blast
  have "\<not> tcp_mutex b1" using emits_simps(2) [OF b1(2)] hostb(3) by simp
  then obtain b2 where b2: "tcp_api_recv [] (int j) want b1 = Inr (int (min want (length (rcv_data cb @ data))), take want (rcv_data cb @ data), b2)"
    "rcv_data (cb_table b2 j) = drop want (rcv_data cb @ data)"
    using recv_run [of j b1 "[]" want] cb(2,3) data(1) b1(3-7) by auto
  have ha': "tcp_host a' da na ipa haa" "\<not> tcp_mutex a'" "conn_only (cb_table a') na i"
    using hosta(1,3) tcp_host_cong [OF as(3,5)] as(2) ca(1,7) by (simp_all add: conn_only_def a'(3))
  define ca' where "ca' = cb_table a' i"
  have ca': "cb_state ca' = ESTABLISHED" "cb_iface ca' = Some na" "ipb = peer_addr ca'" "0 < rcv_wnd ca'"
    "rcv_nxt ca' < rcv_nxt ca' + ucast (rcv_wnd ca')" "th_dst ack = cb_port ca'" "th_src ack = peer_port ca'" "th_sum ack = 0"
    "th_flg ack = 0x10" "th_off ack = 0x50" "ntoh32 e (th_seq ack) = rcv_nxt ca'" "ntoh32 e (th_ack ack) = snd_nxt ca'" "snd_una ca' \<le> snd_nxt ca'"
    "snd_nxt ca' = snd_nxt ca + n"
    using ca(4-6,9,10) conn by (simp_all add: ca'_def a'(3) ack_def n_def)
  obtain a2 where a2: "receive osa waita da F2 a' = Inr a2" "cb_state (cb_table a2 i) = ESTABLISHED"
    "snd_una (cb_table a2 i) = snd_nxt ca + n" "snd_nxt (cb_table a2 i) = snd_nxt ca + n"
    using receive_ack [OF ha'(1,2) ha(2) ca'_def ca(2) ca'(1-3) ha'(3) ca'(4-13) osa(1,3), of waita "ip_next_id b"]
    unfolding F2_def ca'(14) by blast
  obtain r r' where "sys_sent a' = sys_sent a @ [(fda, F1, r)]" "sys_sent b1 = sys_sent b @ [(fdb, F2, r')]"
    using as(9) emits_simps(9) [OF b1(2)] by blast
  then show ?thesis using a'(1) b1(1) b2 a2 unfolding n_def by blast
qed

text \<open>Two hosts with an established connection.\<close>

definition sender_example :: tcp where
  "sender_example = tcp_start 3 (plain_dev [2, 0, 0, 0, 0, 1] 7) 4 (plain_netif 5) (Some (6, [2, 0, 0, 0, 0, 9]))
     ((\<lambda>_. tcp_cb_zero)(1 := tcp_cb_zero\<lparr>cb_used := True, cb_state := ESTABLISHED, cb_iface := Some 4, cb_port := 77, peer_addr := 6,
        peer_port := 80, snd_nxt := 1001, snd_una := 1001, snd_wnd := 1000, rcv_nxt := 5000, rcv_wnd := 0xffff\<rparr>))"

definition receiver_example :: tcp where
  "receiver_example = tcp_start 2 (plain_dev [2, 0, 0, 0, 0, 9] 8) 9 (plain_netif 6) (Some (5, [2, 0, 0, 0, 0, 1]))
     ((\<lambda>_. tcp_cb_zero)(0 := tcp_cb_zero\<lparr>cb_used := True, cb_state := ESTABLISHED, cb_iface := Some 9, cb_port := 80, peer_addr := 5,
        peer_port := 77, snd_nxt := 5000, snd_una := 5000, snd_wnd := 1000, rcv_nxt := 1001, rcv_wnd := 0xffff\<rparr>))"

lemma transfer_hosts:
  "tcp_host sender_example 3 4 5 [2, 0, 0, 0, 0, 1]" "reaches sender_example 4 6 5 [2, 0, 0, 0, 0, 9] [2, 0, 0, 0, 0, 1] 7"
  "\<not> tcp_mutex sender_example"
  "tcp_host receiver_example 2 9 6 [2, 0, 0, 0, 0, 9]" "reaches receiver_example 9 5 6 [2, 0, 0, 0, 0, 1] [2, 0, 0, 0, 0, 9] 8"
  "\<not> tcp_mutex receiver_example"
  using tcp_start_host [of "[2, 0, 0, 0, 0, 1]" "plain_netif 5"] tcp_start_host [of "[2, 0, 0, 0, 0, 9]" "plain_netif 6"]
    tcp_start_reaches [of "[2, 0, 0, 0, 0, 1]" "[2, 0, 0, 0, 0, 9]" 6 3 7 4 "plain_netif 5"]
    tcp_start_reaches [of "[2, 0, 0, 0, 0, 9]" "[2, 0, 0, 0, 0, 1]" 5 2 8 9 "plain_netif 6"]
  by (simp_all add: sender_example_def receiver_example_def ETHERNET_ADDR_ANY_def plain_netif_def)

lemma transfer_tables:
  "cb_table sender_example = (\<lambda>_. tcp_cb_zero)(1 := tcp_cb_zero\<lparr>cb_used := True, cb_state := ESTABLISHED, cb_iface := Some 4, cb_port := 77,
     peer_addr := 6, peer_port := 80, snd_nxt := 1001, snd_una := 1001, snd_wnd := 1000, rcv_nxt := 5000, rcv_wnd := 0xffff\<rparr>)"
  "cb_table receiver_example = (\<lambda>_. tcp_cb_zero)(0 := tcp_cb_zero\<lparr>cb_used := True, cb_state := ESTABLISHED, cb_iface := Some 9, cb_port := 80,
     peer_addr := 5, peer_port := 77, snd_nxt := 5000, snd_una := 5000, snd_wnd := 1000, rcv_nxt := 1001, rcv_wnd := 0xffff\<rparr>)"
  by (simp_all add: sender_example_def receiver_example_def)

theorem tcp_data_transfer_witness:
  "\<exists>a' a'' b1 b2 frame ack r r'.
    tcp_api_send (plain_os 50 60) (\<lambda>_. []) [] 1 [104, 105] sender_example = Inr (2, a') \<and> sys_sent a' = [(7, frame, r)] \<and>
    receive (plain_os 50 60) (\<lambda>_. []) 2 frame receiver_example = Inr b1 \<and> sys_sent b1 = [(8, ack, r')] \<and>
    tcp_api_recv [] 0 100 b1 = Inr (2, [104, 105], b2) \<and>
    receive (plain_os 50 60) (\<lambda>_. []) 3 ack a' = Inr a'' \<and> snd_una (cb_table a'' 1) = 1003"
proof -
  let ?os = "plain_os 50 60" and ?w = "(\<lambda>_. []) :: tcp waits" and ?d = "[104, 105] :: bytes"
  let ?ca = "cb_table sender_example 1" and ?cb = "cb_table receiver_example 0"
  have ca: "(1 :: nat) < 128" "cb_used ?ca" "cb_state ?ca = ESTABLISHED" "cb_iface ?ca = Some 4" "6 = peer_addr ?ca"
    "conn_only (cb_table sender_example) 4 1" "cb_txq ?ca = []" "0 < rcv_wnd ?ca" "rcv_nxt ?ca < rcv_nxt ?ca + ucast (rcv_wnd ?ca)"
    by (simp_all add: transfer_tables conn_only_def cb_for_port_def)
  have cb: "(0 :: nat) < 128" "cb_used ?cb" "cb_state ?cb = ESTABLISHED" "cb_iface ?cb = Some 9" "5 = peer_addr ?cb"
    "conn_only (cb_table receiver_example) 9 0" "length (cb_window ?cb) = 65535" "rcv_nxt ?cb < rcv_nxt ?cb + ucast (rcv_wnd ?cb)"
    by (simp_all add: transfer_tables conn_only_def cb_for_port_def tcp_cb_zero_def)
  have conn: "cb_port ?cb = peer_port ?ca" "peer_port ?cb = cb_port ?ca" "rcv_nxt ?cb = snd_nxt ?ca" "snd_nxt ?cb = rcv_nxt ?ca"
    "snd_una ?cb \<le> snd_nxt ?cb" "snd_una ?ca \<le> snd_nxt ?ca + of_nat (length ?d)"
    by (simp_all add: transfer_tables)
  have data: "?d \<noteq> []" "length ?d \<le> 1420" "length ?d \<le> unat (tcp_send_wnd ?ca)" "length ?d \<le> unat (rcv_wnd ?cb)"
    "unat (txq_snt ?ca) + length ?d \<le> unat (snd_wnd ?ca)"
    by (simp_all add: transfer_tables tcp_send_wnd_def tcp_cb_zero_def)
  have os: "Little = os_endian ?os" "\<forall>k. os_malloc ?os k" "\<forall>k. os_timeofday ?os k = Some (50, 0)"
    "\<forall>k. os_ret ?os k = int (14 + max 46 (40 + length ?d))" "os_fine ?os (50, 0)"
    by (simp_all add: os_fine_def)
  have r: "rcv_data ?cb = []" "snd_nxt ?ca = 1001" "sys_sent sender_example = []" "sys_sent receiver_example = []"
    by (simp_all add: transfer_tables rcv_data_def sender_example_def receiver_example_def)
  from tcp_data_transfer [OF transfer_hosts refl ca refl cb conn data os(1-4) os(1,5), of ?w ?w 100]
  show ?thesis unfolding r by simp blast
qed

section \<open>The whole stream\<close>

text \<open>
  Property C5: the receive buffer is a byte stream. In any run in which segments arrive for a
  connection that stays open and the user receives from it, in any order, what the user has received
  followed by what is still in the window buffer is what was in the buffer at the start followed by
  the text of the segments taken, in order: nothing is lost, repeated or reordered. A segment is taken
  when it is acceptable, in sequence, without RST and SYN, and acknowledges nothing that was not sent.
\<close>

theorem tcp_receive_stream:
  assumes "stream_run (stream_step os wait i) s taken received t" "wait_keeps tcp_view wait"
    and "cb_ok (cb_table s i)" "cb_state (cb_table s i) \<in> {ESTABLISHED, FIN_WAIT1, FIN_WAIT2, CLOSE_WAIT}"
  shows "received @ rcv_data (cb_table t i) = rcv_data (cb_table s i) @ taken \<and>
    (rcv_data (cb_table s i) = [] \<longrightarrow> received = take (length received) taken)"
proof -
  have "stream_ok wait i s" using assms(2-4) by (auto simp: stream_ok_def streaming_def)
  from rx_stream.run_content [OF assms(1) this] have "rcv_data (cb_table s i) @ taken = received @ rcv_data (cb_table t i)" .
  then show ?thesis by (metis append_Nil append_eq_conv_conj)
qed

theorem tcp_receive_stream_witness:
  "\<exists>t. stream_run (stream_step (plain_os 50 60) (\<lambda>_. []) 0) receiver_example [104, 105] [104] t \<and>
     [104] @ rcv_data (cb_table t 0) = [104, 105 :: u8]"
proof -
  let ?os = "plain_os 50 60" and ?w = "(\<lambda>_. []) :: tcp waits" and ?d = "[104, 105] :: bytes" and ?cb = "cb_table receiver_example 0"
  define h where "h = \<lparr>th_src = 77, th_dst = 80, th_seq = hton32 Little 1001, th_ack = hton32 Little 5000, th_off = 0x50, th_flg = 0x18,
    th_win = 0, th_sum = 0, th_urg = 0\<rparr>"
  have cb: "cb_iface ?cb = Some 9" "5 = peer_addr ?cb" "cb_state ?cb = ESTABLISHED" "length (cb_window ?cb) = 65535"
    "rcv_nxt ?cb < rcv_nxt ?cb + ucast (rcv_wnd ?cb)" "rcv_data ?cb = []" "cb_ok ?cb"
    by (simp_all add: transfer_tables rcv_data_def tcp_cb_zero_def cb_ok_def)
  have h: "th_flg h = 0x18" "th_off h = 0x50" "ntoh32 Little (th_seq h) = rcv_nxt ?cb" "5000 = ntoh32 Little (th_ack h)"
    "0 < length ?d" "length ?d \<le> unat (rcv_wnd ?cb)" "snd_una ?cb \<le> 5000" "5000 \<le> snd_nxt ?cb"
    by (simp_all add: h_def transfer_tables)
  have os: "os_fine ?os (50, 0)" "Little = os_endian ?os" by (simp_all add: os_fine_def)
  define seg where "seg = replicate 20 0 @ ?d @ []"
  obtain t w where t: "tcp_event_segment_arrives ?os ?w 0 h seg (20 + length ?d) receiver_example = Inr t"
    "cb_table t = (cb_table receiver_example)(0 := w)" "rcv_data w = rcv_data ?cb @ ?d" "length (cb_window w) = 65535" "cb_state w = ESTABLISHED"
    using data_run [OF transfer_hosts(5) refl cb(1,2) os(1) cb(3,4) os(2) h(1-6) cb(5) h(7,8) seg_def length_replicate, of ?w] by blast
  have "tcp_taken ?os 0 h seg (20 + length ?d) receiver_example = ?d"
    by (simp add: tcp_taken_def Let_def transfer_tables h_def seg_def tcp_acceptable_def TCP_DATA_LEN_def TCP_HDR_LEN_def TCP_FLG_ISSET_def)
  moreover have "stream_step ?os ?w 0 receiver_example (tcp_taken ?os 0 h seg (20 + length ?d) receiver_example) [] t"
    using t(1,2,5) by (intro stream_step.segment) simp_all
  ultimately have 1: "stream_step ?os ?w 0 receiver_example ?d [] t" by simp
  have wd: "rcv_data (cb_table t 0) = ?d" "cb_state (cb_table t 0) = ESTABLISHED" "length (cb_window (cb_table t 0)) = 65535"
    using t(2-5) cb(6) by simp_all
  obtain v where "tcp_recv_copy 0 1 t = Inr (1, [104], upd_cb 0 (\<lambda>cb. v) t)"
    using window_get [of t 0 1] wd by auto
  moreover have "65535 - unat (rcv_wnd (cb_table t 0)) \<noteq> 0" using wd(1) by (auto simp: rcv_data_def)
  ultimately have "tcp_recv_try 0 1 t = Inr (Some (1, [104]), upd_cb 0 (\<lambda>cb. v) t)"
    using wd(2) by (simp add: tcp_recv_try_def Let_def)
  then have 2: "stream_step ?os ?w 0 t [] [104] (upd_cb 0 (\<lambda>cb. v) t)" by (rule stream_step.receive)
  have run: "stream_run (stream_step ?os ?w 0) receiver_example ?d [104] (upd_cb 0 (\<lambda>cb. v) t)"
    using stream_run.go [of "stream_step ?os ?w 0", OF 1 stream_run.go [of "stream_step ?os ?w 0", OF 2 stream_run.stop]] by simp
  show ?thesis
    using tcp_receive_stream [OF run wait_keeps_none cb(7)] cb(3,6) run by auto
qed

end
