(* ===== verification/Tcpclose.thy ===== *)
theory Tcpclose
  imports Tcpdata
begin

unbundle bit_operations_syntax

text \<open>
  Closing a socket: \<open>tcp_close\<close>, which calls itself for the backlog of a listener, ends, and what it
  does to the connections waiting there.
\<close>

section \<open>What closing does to the control blocks\<close>

definition opened :: "tcp_state \<Rightarrow> bool" where
  "opened st \<longleftrightarrow> st \<in> {SYN_RCVD, ESTABLISHED, CLOSE_WAIT}"

definition closing :: "tcp_cb \<Rightarrow> tcp_cb \<Rightarrow> bool" where
  "closing cb cb' \<longleftrightarrow> cb_iface cb' = cb_iface cb \<and> (cb_used cb' \<longrightarrow> cb_used cb) \<and> (opened (cb_state cb') \<longrightarrow> opened (cb_state cb)) \<and>
     length (cb_backlog cb') \<le> length (cb_backlog cb) \<and> set (cb_backlog cb') \<subseteq> set (cb_backlog cb)"

definition closes :: "'a tcp_scheme \<Rightarrow> 'a tcp_scheme \<Rightarrow> bool" where
  "closes s s' \<longleftrightarrow> (\<forall>j. closing (cb_table s j) (cb_table s' j))"

lemma closing_refl [simp]: "closing cb cb"
  by (simp add: closing_def)

lemma closing_trans: "closing a b \<Longrightarrow> closing b c \<Longrightarrow> closing a c"
  unfolding closing_def by (metis le_trans subset_trans)

lemma closes_refl [simp]: "closes s s" "closes s (s\<lparr>sys_tick := k\<rparr>)"
  by (simp_all add: closes_def)

lemma closes_trans: "closes s t \<Longrightarrow> closes t u \<Longrightarrow> closes s u"
  unfolding closes_def using closing_trans by blast

lemma closes_upd: "closing (cb_table s i) (f (cb_table s i)) \<Longrightarrow> closes s (upd_cb i f s)"
  by (simp add: closes_def)

lemma closes_close_cb [simp]: "closes s (tcp_close_cb i s)"
  unfolding tcp_close_cb_upd by (rule closes_upd) (simp add: closing_def opened_def closed_cb_def)

lemma closes_reply:
  assumes "wait_keeps tcp_view wait" "tcp_reply os wait i seq ack flg now s = Inr t"
  shows "closes s t"
proof -
  obtain r where "tcp_tx os wait i seq ack flg now [] s = Inr (r, t)"
    using assms(2) by (auto simp: tcp_reply_def bindr_Inr_iff)
  from postrD [OF tcp_tx_effect [OF assms(1)] this] have e: "tx_effect (os_endian os) i seq ack flg [] s t" by simp
  have "cb_table t = cb_table s \<or> (\<exists>cb. cb_table t = (cb_table s)(i := cb))"
    using e unfolding tx_effect_def by blast
  then have "cb_table t j = cb_table s j" if "j \<noteq> i" for j using that by fastforce
  moreover have "closing (cb_table s i) (cb_table t i)"
    using tx_sameD(1,2,9,12) [OF tx_same_effect [OF e]] by (simp add: closing_def)
  ultimately show ?thesis unfolding closes_def by (metis closing_refl)
qed

lemma close_fin_closes:
  assumes w: "wait_keeps tcp_view wait" and st: "\<not> opened st"
  shows "postr (tcp_close_fin os wait i now st s) (\<lambda>(r, s'). closes s s')"
  unfolding tcp_close_fin_def
proof (rule postr_bindI)
  fix t assume "tcp_reply os wait i (snd_nxt (cb_table s i)) (rcv_nxt (cb_table s i)) (TCP_FLG_FIN OR TCP_FLG_ACK) now s = Inr t"
  from closes_trans [OF closes_reply [OF w this] closes_upd [of t i "\<lambda>cb. cb\<lparr>snd_nxt := snd_nxt cb + 1, cb_state := st\<rparr>"]]
  show "postr (Inr (0, upd_cb i (\<lambda>cb. cb\<lparr>snd_nxt := snd_nxt cb + 1, cb_state := st\<rparr>) t)) (\<lambda>(r, s'). closes s s')"
    using st by (simp add: closing_def)
qed

text \<open>A call on a used block: the claim is given up, then the state decides.\<close>

definition close_case :: "nat \<Rightarrow> os \<Rightarrow> 'a tcp_scheme waits \<Rightarrow> nat \<Rightarrow> timeval \<Rightarrow> 'a tcp_scheme \<Rightarrow> (int \<times> 'a tcp_scheme) res" where
  "close_case fuel os wait i now t =
     (case cb_state (cb_table t i) of
        CLOSED \<Rightarrow> Inr (0, t)
      | LISTEN \<Rightarrow> bindr (tcp_close_backlog fuel os wait i t) (\<lambda>s. Inr (0, tcp_close_cb i s))
      | SYN_SENT \<Rightarrow> Inr (0, tcp_close_cb i t)
      | SYN_RCVD \<Rightarrow> tcp_close_fin os wait i now FIN_WAIT1 t
      | ESTABLISHED \<Rightarrow> tcp_close_fin os wait i now FIN_WAIT1 t
      | CLOSE_WAIT \<Rightarrow> tcp_close_fin os wait i now CLOSING t
      | _ \<Rightarrow> Inr (-1, t))"

definition unclaimed :: "nat \<Rightarrow> 'a tcp_scheme \<Rightarrow> 'a tcp_scheme" where
  "unclaimed i s = (upd_cb i (\<lambda>cb. cb\<lparr>cb_used := False\<rparr>) s)\<lparr>sys_tick := Suc (sys_tick s)\<rparr>"

lemma unclaimed_simps [simp]:
  "cb_table (unclaimed i s) = (cb_table s)(i := (cb_table s i)\<lparr>cb_used := False\<rparr>)" "same_net s (unclaimed i s)"
  "arp_good (unclaimed i s) = arp_good s" "closes s (unclaimed i s)"
  by (simp_all add: unclaimed_def closes_def closing_def) (simp add: same_net_def upd_cb_def)

lemma tcp_close_Suc:
  "tcp_close (Suc fuel) os wait i s =
     (if \<not> cb_used (cb_table s i) then Inr (-1, s) else
      case os_timeofday os (sys_tick s) of
        None \<Rightarrow> Inr (-1, unclaimed i s)
      | Some now \<Rightarrow> close_case fuel os wait i now (unclaimed i s))"
proof -
  have "sys_timeofday os (upd_cb i (\<lambda>cb. cb\<lparr>cb_used := False\<rparr>) s) = (os_timeofday os (sys_tick s), unclaimed i s)"
    by (simp add: sys_timeofday_def unclaimed_def upd_cb_def)
  then show ?thesis by (cases "os_timeofday os (sys_tick s)") (simp_all add: Let_def close_case_def)
qed

lemma tcp_close_backlog_Suc:
  "tcp_close_backlog (Suc fuel) os wait i s =
     (case cb_backlog (cb_table s i) of
        [] \<Rightarrow> Inr s
      | b # bs \<Rightarrow>
          bindr (tcp_close fuel os wait b (upd_cb i (\<lambda>cb. cb\<lparr>cb_backlog := bs\<rparr>) s)) (\<lambda>(_, s).
          tcp_close_backlog fuel os wait i s))"
  by simp

declare tcp_close.simps(2) [simp del] tcp_close_backlog.simps(2) [simp del]

lemma tcp_close_closes:
  assumes w: "wait_keeps tcp_view wait"
  shows "postr (tcp_close fuel os wait i s) (\<lambda>(r, s'). closes s s' \<and> \<not> cb_used (cb_table s' i))"
    and "postr (tcp_close_backlog fuel os wait i s) (\<lambda>s'. closes s s')"
proof (induction fuel arbitrary: i s)
  case (Suc fuel)
  {
    case 1
    have lis: "postr (bindr (tcp_close_backlog fuel os wait i t) (\<lambda>s. Inr (0 :: int, tcp_close_cb i s))) (\<lambda>(r, s'). closes t s')"
      for t :: "'a tcp_scheme"
      by (rule postr_bind_with [OF Suc(2)]) (simp add: closes_trans [OF _ closes_close_cb])
    have fin: "postr (tcp_close_fin os wait i now st t) (\<lambda>(r, s'). closes t s')" if "st \<in> {FIN_WAIT1, CLOSING}"
      for now st and t :: "'a tcp_scheme"
      by (rule close_fin_closes [OF w]) (use that in \<open>auto simp: opened_def\<close>)
    have case_closes: "postr (close_case fuel os wait i now t) (\<lambda>(r, s'). closes t s')" for now and t :: "'a tcp_scheme"
      unfolding close_case_def using lis fin by (simp split: tcp_state.split)
    have unused: "closes s u \<and> \<not> cb_used (cb_table u i)" if "closes (unclaimed i s) u" for u
    proof -
      have "closing (cb_table (unclaimed i s) i) (cb_table u i)" using that unfolding closes_def by blast
      then have "\<not> cb_used (cb_table u i)" by (simp add: closing_def)
      then show ?thesis using closes_trans [OF unclaimed_simps(4) that] by simp
    qed
    have "postr (close_case fuel os wait i now (unclaimed i s)) (\<lambda>(r, s'). closes s s' \<and> \<not> cb_used (cb_table s' i))" for now
      by (rule postr_mono [OF case_closes]) (use unused in auto)
    then show ?case by (simp add: tcp_close_Suc split: option.split)
  next
    case 2
    show ?case
    proof (cases "cb_backlog (cb_table s i)")
      case (Cons b bs)
      define t where "t = upd_cb i (\<lambda>cb. cb\<lparr>cb_backlog := bs\<rparr>) s"
      have t: "closes s t" unfolding t_def by (rule closes_upd) (auto simp: closing_def Cons)
      have "postr (bindr (tcp_close fuel os wait b t) (\<lambda>(_, s). tcp_close_backlog fuel os wait i s)) (\<lambda>s'. closes t s')"
      proof (rule postr_bind_with [OF Suc(1)], clarify)
        fix r u assume u: "closes t u"
        show "postr (tcp_close_backlog fuel os wait i u) (closes t)" by (rule postr_mono [OF Suc(2) closes_trans [OF u]])
      qed
      then have "postr (bindr (tcp_close fuel os wait b t) (\<lambda>(_, s). tcp_close_backlog fuel os wait i s)) (\<lambda>s'. closes s s')"
        by (rule postr_mono) (rule closes_trans [OF t])
      then show ?thesis using Cons by (simp add: tcp_close_backlog_Suc t_def)
    qed (simp add: tcp_close_backlog_Suc)
  }
qed simp_all

section \<open>Closing ends\<close>

text \<open>The blocks whose closing sends a segment have a usable interface.\<close>

definition close_ready :: "'a tcp_scheme \<Rightarrow> bool" where
  "close_ready s \<longleftrightarrow> arp_good s \<and>
     (\<forall>j. opened (cb_state (cb_table s j)) \<longrightarrow> (\<exists>n. cb_iface (cb_table s j) = Some n \<and> netif_sane s n)) \<and>
     (\<forall>j. \<forall>b \<in> set (cb_backlog (cb_table s j)). b < TCP_CB_TABLE_SIZE)"

lemma close_ready_step:
  assumes "close_ready s" "closes s t" "arp_good t" "same_net s t"
  shows "close_ready t"
  using assms unfolding close_ready_def closes_def closing_def netif_sane_cong [OF assms(4)] by (metis subsetD)

lemma backlogs_step: "closes s t \<Longrightarrow> backlogs t \<le> backlogs s"
  unfolding backlogs_def closes_def closing_def by (rule sum_mono) blast

lemma backlogs_pop:
  assumes "cb_backlog (cb_table s i) = b # bs" "i < TCP_CB_TABLE_SIZE"
  shows "Suc (backlogs (upd_cb i (\<lambda>cb. cb\<lparr>cb_backlog := bs\<rparr>) s)) \<le> backlogs s"
proof -
  have "backlogs (upd_cb i (\<lambda>cb. cb\<lparr>cb_backlog := bs\<rparr>) s) < backlogs s"
    unfolding backlogs_def
    by (rule sum_strict_mono_ex1) (use assms in auto)
  then show ?thesis by simp
qed

lemma close_fin_safe:
  assumes "close_ready s" "opened (cb_state (cb_table s i))" "arp_rely wait"
  shows "tx_safe s (tcp_close_fin os wait i now st s)"
proof -
  obtain n where n: "cb_iface (cb_table s i) = Some n" "netif_sane s n" "arp_good s"
    using assms(1,2) by (auto simp: close_ready_def)
  have "run_safe s (tcp_reply os wait i seq ack flg now s)" for seq ack flg
    unfolding tcp_reply_def by (rule run_safe_bind_tx [OF tcp_tx_ok [OF n(3,1,2) assms(3)]]) simp
  then show ?thesis unfolding tcp_close_fin_def by (rule tx_safe_bind_run) simp
qed

lemma tcp_close_safe:
  assumes w: "wait_keeps tcp_view wait" "arp_rely wait"
  shows "close_ready s \<Longrightarrow> i < TCP_CB_TABLE_SIZE \<Longrightarrow> 2 * backlogs s + 2 \<le> fuel \<Longrightarrow> tx_safe s (tcp_close fuel os wait i s)"
    and "close_ready s \<Longrightarrow> i < TCP_CB_TABLE_SIZE \<Longrightarrow> 2 * backlogs s + 1 \<le> fuel \<Longrightarrow> run_safe s (tcp_close_backlog fuel os wait i s)"
proof (induction fuel arbitrary: i s)
  case (Suc fuel)
  {
    case 1
    define t where "t = unclaimed i s"
    have t: "closes s t" "arp_good t" "same_net s t" using 1(1) by (simp_all add: t_def close_ready_def)
    note r = close_ready_step [OF 1(1) t]
    have "run_safe t (tcp_close_backlog fuel os wait i t)"
      using Suc(2) [OF r 1(2)] backlogs_step [OF t(1)] 1(3) by linarith
    then have lis: "tx_safe t (bindr (tcp_close_backlog fuel os wait i t) (\<lambda>s. Inr (0 :: int, tcp_close_cb i s)))"
      by (rule tx_safe_bind_run) (simp add: tcp_close_cb_upd)
    have "tx_safe t (close_case fuel os wait i now t)" for now
      unfolding close_case_def using lis close_fin_safe [OF r _ w(2)] t(2)
      by (simp add: opened_def tcp_close_cb_upd split: tcp_state.split)
    then show ?case
      using 1(1) tx_safe_trans [OF t(3)] t by (auto simp: tcp_close_Suc close_ready_def simp flip: t_def split: option.split)
  next
    case 2
    show ?case
    proof (cases "cb_backlog (cb_table s i)")
      case Nil
      then show ?thesis using 2(1) by (simp add: tcp_close_backlog_Suc close_ready_def)
    next
      case (Cons b bs)
      define t where "t = upd_cb i (\<lambda>cb. cb\<lparr>cb_backlog := bs\<rparr>) s"
      have t: "closes s t" "arp_good t" "same_net s t"
        using 2(1) by (auto simp: t_def close_ready_def closing_def Cons intro!: closes_upd)
      note r = close_ready_step [OF 2(1) t]
      have b: "b < TCP_CB_TABLE_SIZE" using 2(1) Cons unfolding close_ready_def by (metis list.set_intros(1))
      have f: "2 * backlogs t + 2 \<le> fuel" using backlogs_pop [OF Cons 2(2)] 2(3) by (simp add: t_def)
      have "run_safe t (bindr (tcp_close fuel os wait b t) (\<lambda>(_, s). tcp_close_backlog fuel os wait i s))"
      proof (rule run_safe_bind_tx [OF Suc(1) [OF r b f]])
        fix x u
        assume u: "tcp_close fuel os wait b t = Inr (x, u)" "arp_good u" "same_net t u"
        then have c: "closes t u" using postrD [OF tcp_close_closes(1) [OF w(1)] u(1)] by simp
        show "run_safe u (tcp_close_backlog fuel os wait i u)"
          using Suc(2) [OF close_ready_step [OF r c u(2,3)] 2(2)] backlogs_step [OF c] f by linarith
      qed
      then show ?thesis using Cons run_safe_trans [OF t(3)] by (simp add: tcp_close_backlog_Suc t_def)
    qed
  }
qed simp_all


text \<open>A listener with one connection in its backlog.\<close>

definition backlog_example :: tcp where
  "backlog_example = tcp_start 3 (plain_dev [2, 0, 0, 0, 0, 1] 7) 4 (plain_netif 5) None
     ((\<lambda>_. tcp_cb_zero)(0 := tcp_cb_zero\<lparr>cb_used := True, cb_state := LISTEN, cb_port := 80, cb_backlog := [1]\<rparr>,
        1 := tcp_cb_zero\<lparr>cb_state := ESTABLISHED, cb_iface := Some 4, cb_port := 80, cb_parent := Some 0\<rparr>))"

lemma backlog_example_simps:
  "cb_table backlog_example = (\<lambda>_. tcp_cb_zero)(0 := tcp_cb_zero\<lparr>cb_used := True, cb_state := LISTEN, cb_port := 80, cb_backlog := [1]\<rparr>,
        1 := tcp_cb_zero\<lparr>cb_state := ESTABLISHED, cb_iface := Some 4, cb_port := 80, cb_parent := Some 0\<rparr>)"
  "\<not> tcp_mutex backlog_example" "sys_sent backlog_example = []" "sys_tick backlog_example = 0"
  by (simp_all add: backlog_example_def)

lemma backlog_example_ready: "close_ready backlog_example"
proof -
  have "arp_good backlog_example" "netif_sane backlog_example 4"
    unfolding backlog_example_def by (rule tcp_start_good, rule tcp_start_sane) simp
  then show ?thesis by (simp add: close_ready_def backlog_example_simps(1) opened_def)
qed


section \<open>The backlog of a closed listener\<close>

lemma close_unused: "\<not> cb_used (cb_table s b) \<Longrightarrow> tcp_close (Suc fuel) os wait b s = Inr (-1, s)"
  by (simp add: tcp_close_Suc)

lemma close_backlog_unused:
  assumes "\<forall>b \<in> set (cb_backlog (cb_table s i)). \<not> cb_used (cb_table s b)" "Suc (length (cb_backlog (cb_table s i))) < fuel"
  shows "tcp_close_backlog fuel os wait i s = Inr (upd_cb i (\<lambda>cb. cb\<lparr>cb_backlog := []\<rparr>) s)"
proof -
  have "tcp_close_backlog fuel os wait i s = Inr (upd_cb i (\<lambda>cb. cb\<lparr>cb_backlog := []\<rparr>) s)"
    if "cb_backlog (cb_table s i) = bs" "\<forall>b \<in> set bs. \<not> cb_used (cb_table s b)" "Suc (length bs) < fuel"
    for bs fuel and s :: "'a tcp_scheme"
    using that
  proof (induction bs arbitrary: s fuel)
    case Nil
    have e: "upd_cb i (\<lambda>cb. cb\<lparr>cb_backlog := []\<rparr>) s = s" using Nil(1) by (simp add: upd_cb_def fun_upd_idem)
    obtain k where k: "fuel = Suc k" using Nil(3) by (cases fuel) auto
    show ?case unfolding e k tcp_close_backlog_Suc Nil(1) by simp
  next
    case (Cons b bs)
    define t where "t = upd_cb i (\<lambda>cb. cb\<lparr>cb_backlog := bs\<rparr>) s"
    obtain k where k: "fuel = Suc (Suc k)" using Cons.prems(3) by (metis less_imp_Suc_add add_Suc_right add_Suc_shift)
    have used: "cb_used (cb_table t b) = cb_used (cb_table s b)" for b by (simp add: t_def)
    have "\<not> cb_used (cb_table t b)" using Cons.prems(2) by (simp add: used)
    then have 1: "tcp_close (Suc k) os wait b t = Inr (-1, t)" by (rule close_unused)
    have "cb_backlog (cb_table t i) = bs" "\<forall>b \<in> set bs. \<not> cb_used (cb_table t b)" "Suc (length bs) < Suc k"
      using Cons.prems(2,3) k by (simp_all add: used) (simp add: t_def)
    from Cons.IH [OF this]
    have "tcp_close_backlog fuel os wait i s = Inr (upd_cb i (\<lambda>cb. cb\<lparr>cb_backlog := []\<rparr>) t)"
      using 1 Cons.prems(1) by (simp add: k tcp_close_backlog_Suc flip: t_def)
    then show ?case by (simp add: t_def upd_cb_def)
  qed
  from this [OF refl assms] show ?thesis .
qed

lemma backlog_bound: "i < TCP_CB_TABLE_SIZE \<Longrightarrow> length (cb_backlog (cb_table s i)) \<le> backlogs s"
  unfolding backlogs_def by (rule member_le_sum) simp_all

text \<open>
  Property C36: closing a listener abandons the connections in its backlog. A connection waits there
  without a user, and \<open>tcp_close\<close> refuses a block without a user; so when a listener is closed, its
  queue is emptied and the call returns 0, but every connection that was queued stays exactly as it
  was: it is not reset, no FIN is sent, and no socket will ever name it.
\<close>

theorem tcp_close_abandons_backlog:
  assumes "i < TCP_CB_TABLE_SIZE" "cb_state (cb_table s i) = LISTEN" "cb_used (cb_table s i)" "\<not> tcp_mutex s"
    and "os_timeofday os (sys_tick s) = Some now"
    and "\<forall>b \<in> set (cb_backlog (cb_table s i)). \<not> cb_used (cb_table s b)"
  shows "\<exists>s'. tcp_api_close os wait (int i) s = Inr (0, s') \<and> sys_sent s' = sys_sent s \<and> \<not> tcp_mutex s' \<and>
    cb_state (cb_table s' i) = CLOSED \<and> cb_backlog (cb_table s' i) = [] \<and> IS_FREE_CB (cb_table s' i) \<and>
    (\<forall>j. j \<noteq> i \<longrightarrow> cb_table s' j = cb_table s j)"
proof -
  define t where "t = unclaimed i (s\<lparr>tcp_mutex := True\<rparr>)"
  have t: "cb_table t = (cb_table s)(i := (cb_table s i)\<lparr>cb_used := False\<rparr>)" "sys_sent t = sys_sent s"
    by (simp_all add: t_def) (simp add: unclaimed_def upd_cb_def)
  define fuel where "fuel = 2 * backlogs (s\<lparr>tcp_mutex := True\<rparr>) + 1"
  have f: "close_fuel (s\<lparr>tcp_mutex := True\<rparr>) = Suc fuel" by (simp add: close_fuel_def fuel_def)
  show ?thesis
  proof (cases "cb_backlog (cb_table s i) = []")
    case True
    then have b: "tcp_close_backlog fuel os wait i t = Inr t" by (simp add: fuel_def tcp_close_backlog_Suc t)
    have "tcp_api_close os wait (int i) s = Inr (0, tcp_unlock (tcp_close_cb i t))"
      using assms b by (simp add: tcp_api_close_def TCP_SOCKET_INVALID_def tcp_lock_def f tcp_close_Suc close_case_def t flip: t_def)
    then show ?thesis
      using True t by (intro exI [of _ "tcp_unlock (tcp_close_cb i t)"])
        (simp add: tcp_close_cb_upd closed_cb_def IS_FREE_CB_def tcp_unlock_def upd_cb_def)
  next
    case False
    have l: "length (cb_backlog (cb_table t i)) \<le> backlogs (s\<lparr>tcp_mutex := True\<rparr>)"
      using backlog_bound [OF assms(1), of "s\<lparr>tcp_mutex := True\<rparr>"] by (simp add: t)
    have p: "0 < length (cb_backlog (cb_table t i))" using False by (simp add: t)
    have "tcp_close_backlog fuel os wait i t = Inr (upd_cb i (\<lambda>cb. cb\<lparr>cb_backlog := []\<rparr>) t)"
    proof (rule close_backlog_unused)
      show "\<forall>b \<in> set (cb_backlog (cb_table t i)). \<not> cb_used (cb_table t b)" using assms(6) by (simp add: t)
      show "Suc (length (cb_backlog (cb_table t i))) < fuel" using l p unfolding fuel_def by linarith
    qed
    then have "tcp_api_close os wait (int i) s = Inr (0, tcp_unlock (tcp_close_cb i (upd_cb i (\<lambda>cb. cb\<lparr>cb_backlog := []\<rparr>) t)))"
      using assms by (simp add: tcp_api_close_def TCP_SOCKET_INVALID_def tcp_lock_def f tcp_close_Suc close_case_def t flip: t_def)
    then show ?thesis
      using t by (intro exI [of _ "tcp_unlock (tcp_close_cb i (upd_cb i (\<lambda>cb. cb\<lparr>cb_backlog := []\<rparr>) t))"])
        (simp add: tcp_close_cb_upd closed_cb_def IS_FREE_CB_def tcp_unlock_def upd_cb_def)
  qed
qed

theorem tcp_close_abandons_backlog_witness:
  "\<exists>s'. tcp_api_close (plain_os 50 60) (\<lambda>_. []) 0 backlog_example = Inr (0, s') \<and> sys_sent s' = [] \<and>
     cb_state (cb_table s' 0) = CLOSED \<and> cb_state (cb_table s' 1) = ESTABLISHED \<and> \<not> cb_used (cb_table s' 1)"
proof -
  have "os_timeofday (plain_os 50 60) (sys_tick backlog_example) = Some (50, 0)" by simp
  from tcp_close_abandons_backlog [of 0 backlog_example, OF _ _ _ _ this, of "\<lambda>_. []"] show ?thesis
    by (auto simp: backlog_example_simps)
qed

end
