(* ===== verification/Tcpedge.thy ===== *)
theory Tcpedge
  imports Tcpclose
begin

unbundle bit_operations_syntax

text \<open>
  The edges of \<open>tcp.c\<close>: finding the block of a segment in one pass, and the inputs on which the
  code does not do what it means to.
\<close>

section \<open>One pass or three\<close>

text \<open>
  Property C20: the one pass of \<open>tcp_rx\<close> over the table finds what three searches would find: the
  block of the connection, and if there is none, the first free block and the first listener for the
  port, wherever they lie in the table. So what happens to a segment does not depend on how the three
  kinds of blocks are mixed.
\<close>

theorem tcp_rx_scan_three_searches:
  "(case tcp_rx_scan tbl iface src hdr [0..<TCP_CB_TABLE_SIZE] None None of
      (Some i, _, _) \<Rightarrow> connection i | (None, free, listener) \<Rightarrow> other free listener) =
   (case find (\<lambda>i. cb_for_port iface (th_dst hdr) (tbl i) \<and> cb_for_peer src (th_src hdr) (tbl i)) [0..<TCP_CB_TABLE_SIZE] of
      Some i \<Rightarrow> connection i
    | None \<Rightarrow> other (find (\<lambda>i. IS_FREE_CB (tbl i)) [0..<TCP_CB_TABLE_SIZE])
                (find (\<lambda>i. cb_for_port iface (th_dst hdr) (tbl i) \<and> cb_state (tbl i) = LISTEN) [0..<TCP_CB_TABLE_SIZE]))"
proof -
  let ?is = "[0..<TCP_CB_TABLE_SIZE]"
  have hit: "scan_hit tbl iface src hdr = (\<lambda>i. cb_for_port iface (th_dst hdr) (tbl i) \<and> cb_for_peer src (th_src hdr) (tbl i))"
    by (rule ext) (simp add: scan_hit_def)
  show ?thesis
  proof (cases "find (scan_hit tbl iface src hdr) ?is")
    case None
    show ?thesis
      unfolding scan_missed [OF None] hit [symmetric] None by (simp del: upt_Suc upt_rec_numeral)
  next
    case (Some i)
    obtain f l where "tcp_rx_scan tbl iface src hdr ?is None None = (Some i, f, l)"
      using scan_found [of tbl iface src hdr ?is None None] Some by (metis prod.collapse)
    then show ?thesis unfolding hit [symmetric] Some by simp
  qed
qed

section \<open>The acknowledgement of a FIN\<close>

definition half_closed :: "tcp_state \<Rightarrow> bool" where
  "half_closed st \<longleftrightarrow> st = FIN_WAIT1 \<or> st = CLOSING"

text \<open>The state of the block and what is acknowledged, after a stage that sees everything acknowledged.\<close>

definition fin_held :: "nat \<Rightarrow> 'a tcp_scheme \<Rightarrow> 'a tcp_scheme \<Rightarrow> bool" where
  "fin_held i s t \<longleftrightarrow> (half_closed (cb_state (cb_table s i)) \<longrightarrow> half_closed (cb_state (cb_table t i))) \<and>
     snd_nxt (cb_table t i) = snd_nxt (cb_table s i) \<and> snd_una (cb_table t i) \<in> {snd_una (cb_table s i), snd_nxt (cb_table s i)}"

lemma fin_held_refl [simp]: "fin_held i s s" "fin_held i s (s\<lparr>sys_tick := k\<rparr>)"
  by (simp_all add: fin_held_def)

lemma fin_held_trans: "fin_held i s t \<Longrightarrow> fin_held i t u \<Longrightarrow> fin_held i s u"
  unfolding fin_held_def by (metis insertE insertI1 insert_commute singletonD)

lemma fin_held_upd:
  assumes "half_closed (cb_state (cb_table s i)) \<longrightarrow> half_closed (cb_state (f (cb_table s i)))"
    "snd_nxt (f (cb_table s i)) = snd_nxt (cb_table s i)" "snd_una (f (cb_table s i)) \<in> {snd_una (cb_table s i), snd_nxt (cb_table s i)}"
  shows "fin_held i s (upd_cb i f s)"
  using assms by (simp add: fin_held_def)

lemma reply_fin_held:
  assumes "wait_keeps tcp_view wait" "tcp_reply os wait i seq ack flg now s = Inr t"
  shows "fin_held i s t"
  using tx_sameD(1,3,4) [OF tcp_reply_relD(2) [OF assms]] by (simp add: fin_held_def)

lemma ack_fin_held:
  assumes w: "wait_keeps tcp_view wait" and st: "half_closed (cb_state (cb_table s i))"
    and ack: "ntoh32 (os_endian os) (th_ack hdr) = snd_nxt (cb_table s i)"
    and run: "tcp_seg_ack os wait i hdr now s = Inr (go, t)"
  shows "fin_held i s t"
proof -
  let ?n = "snd_nxt (cb_table s i)"
  have af: "cb_state (ack_of_fin ?n cb) = cb_state cb" if "snd_nxt cb = ?n" for cb using that by (simp add: ack_of_fin_def)
  have au: "snd_una (ack_of_fin a cb) = snd_una cb" "snd_nxt (ack_of_fin a cb) = snd_nxt cb" for a cb by (simp_all add: ack_of_fin_def)
  have open_kept: "fin_held i s t" if "tcp_seg_ack_open os wait i hdr now s = Inr (go, t)"
  proof (cases "snd_una (cb_table s i) \<le> ?n")
    case True
    have "t = upd_cb i (\<lambda>cb. ack_of_fin ?n (ack_update (ntoh32 (os_endian os) (th_seq hdr)) ?n (ntoh16 (os_endian os) (th_win hdr)) now cb)) s"
      using that True ack by (simp add: tcp_seg_ack_open_def Let_def)
    then show ?thesis
      using st by (auto simp: af au ack_update_def Let_def intro!: fin_held_upd)
  next
    case False
    have "t = upd_cb i (ack_of_fin ?n) s" using that False ack by (simp add: tcp_seg_ack_open_def Let_def)
    then show ?thesis using st by (auto simp: af au intro!: fin_held_upd)
  qed
  show ?thesis
    using run st open_kept by (cases "cb_state (cb_table s i)") (auto simp: tcp_seg_ack_def Let_def half_closed_def split: if_splits)
qed

lemma check_fin_held:
  assumes w: "wait_keeps tcp_view wait" and run: "tcp_seg_check os wait i hdr plen now s = Inr (go, t)"
    and flg: "\<not> TCP_FLG_ISSET (th_flg hdr) TCP_FLG_RST" "\<not> TCP_FLG_ISSET (th_flg hdr) TCP_FLG_SYN"
  shows "fin_held i s t" "go \<Longrightarrow> t = s"
  using run flg by (auto simp: tcp_seg_check_def Let_def bindr_Inr_iff split: if_splits intro: reply_fin_held [OF w])

lemma text_cases:
  assumes "tcp_seg_text os wait i hdr segment plen now s = Inr v"
  obtains "v = s" | q a where "tcp_reply os wait i q a TCP_FLG_ACK now s = Inr v"
    | q a win n k where "tcp_reply os wait i q a TCP_FLG_ACK now
          (upd_cb i (\<lambda>cb. cb\<lparr>cb_window := win, rcv_nxt := n, rcv_wnd := rcv_wnd cb - k\<rparr>) s) = Inr v"
proof (cases "cb_state (cb_table s i) \<notin> {ESTABLISHED, FIN_WAIT1, FIN_WAIT2}")
  case True
  then have "v = s" using assms by (simp add: tcp_seg_text_def Let_def)
  then show thesis by (rule that(1))
next
  case st: False
  show thesis
  proof (cases "plen > 0 \<and> rcv_nxt (cb_table s i) = ntoh32 (os_endian os) (th_seq hdr)")
    case True
    have "bindr (mem_read segment (TCP_HDR_LEN hdr) plen) (\<lambda>text.
        bindr (mem_write (cb_window (cb_table s i)) (TCP_WINDOW_SIZE - unat (rcv_wnd (cb_table s i))) text) (\<lambda>window.
        tcp_reply os wait i (snd_nxt (cb_table s i)) (ntoh32 (os_endian os) (th_seq hdr) + of_nat plen) TCP_FLG_ACK now
          (upd_cb i (\<lambda>cb. cb\<lparr>cb_window := window, rcv_nxt := ntoh32 (os_endian os) (th_seq hdr) + of_nat plen,
             rcv_wnd := rcv_wnd cb - of_nat plen\<rparr>) s))) = Inr v"
      using assms unfolding tcp_seg_text_def Let_def if_not_P [OF st] if_P [OF True] .
    then show thesis unfolding bindr_Inr_iff using that(3) by blast
  next
    case False
    then have "(if TCP_FLG_ISSET (th_flg hdr) TCP_FLG_PSH
        then tcp_reply os wait i (snd_nxt (cb_table s i)) (rcv_nxt (cb_table s i)) TCP_FLG_ACK now s else Inr s) = Inr v"
      using assms unfolding tcp_seg_text_def Let_def if_not_P [OF st] by (simp only: if_False)
    then show thesis using that(1,2) by (cases "TCP_FLG_ISSET (th_flg hdr) TCP_FLG_PSH") simp_all
  qed
qed

lemma data_fin_held:
  assumes w: "wait_keeps tcp_view wait" and run: "tcp_seg_data os wait i hdr segment plen now s = Inr t"
  shows "fin_held i s t"
proof -
  let ?u = "tcp_seg_urg (os_endian os) i hdr s"
  obtain v where v: "tcp_seg_text os wait i hdr segment plen now ?u = Inr v" "tcp_seg_fin os wait i hdr now v = Inr t"
    using run by (auto simp: tcp_seg_data_def bindr_Inr_iff)
  have 1: "fin_held i s ?u" by (simp add: tcp_seg_urg_def fin_held_upd)
  have 2: "fin_held i ?u v"
    using v(1)
  proof (cases rule: text_cases)
    case 2
    then show ?thesis by (rule reply_fin_held [OF w])
  next
    case 3
    show ?thesis by (rule fin_held_trans [OF fin_held_upd reply_fin_held [OF w 3]]) simp_all
  qed simp
  have 3: "fin_held i v t"
  proof -
    consider "t = v" | q a n u where "tcp_reply os wait i q a TCP_FLG_ACK now (upd_cb i (\<lambda>cb. cb\<lparr>rcv_nxt := n\<rparr>) v) = Inr u"
        "t = upd_cb i (fin_state now) u"
      using v(2) unfolding tcp_seg_fin_def Let_def by (auto simp: bindr_Inr_iff split: if_splits)
    then show ?thesis
    proof cases
      case 2
      have "fin_held i v u" by (rule fin_held_trans [OF fin_held_upd reply_fin_held [OF w 2(1)]]) simp_all
      moreover have "fin_held i u t" unfolding 2(2)
        by (rule fin_held_upd) (auto simp: half_closed_def fin_state_def split: tcp_state.split)
      ultimately show ?thesis by (rule fin_held_trans)
    qed simp
  qed
  show ?thesis using fin_held_trans [OF fin_held_trans [OF 1 2] 3] .
qed

lemma arrives_fin_held:
  assumes w: "wait_keeps tcp_view wait" and st: "half_closed (cb_state (cb_table s i))"
    and flg: "\<not> TCP_FLG_ISSET (th_flg hdr) TCP_FLG_RST" "\<not> TCP_FLG_ISSET (th_flg hdr) TCP_FLG_SYN"
    and ack: "ntoh32 (os_endian os) (th_ack hdr) = snd_nxt (cb_table s i)"
    and run: "tcp_event_segment_arrives os wait i hdr segment len s = Inr t"
  shows "fin_held i s t"
proof (cases "os_timeofday os (sys_tick s)")
  case None
  then show ?thesis using run by (auto simp: tcp_event_segment_arrives_def sys_timeofday_def)
next
  case (Some now)
  define a where "a = s\<lparr>sys_tick := Suc (sys_tick s)\<rparr>"
  have cb: "cb_table a = cb_table s" "fin_held i s a" by (simp_all add: a_def)
  let ?plen = "TCP_DATA_LEN hdr len"
  have "bindr (tcp_seg_open os wait i hdr ?plen now a)
      (\<lambda>(go, s). if go then tcp_seg_data os wait i hdr segment ?plen now s else Inr s) = Inr t"
    using run st Some unfolding a_def
    by (cases "cb_state (cb_table s i)") (simp_all add: tcp_event_segment_arrives_def sys_timeofday_def half_closed_def Let_def)
  then obtain go b where b: "tcp_seg_open os wait i hdr ?plen now a = Inr (go, b)"
      "(if go then tcp_seg_data os wait i hdr segment ?plen now b else Inr b) = Inr t"
    by (auto simp: bindr_Inr_iff)
  then obtain ok c where c: "tcp_seg_check os wait i hdr ?plen now a = Inr (ok, c)"
      "(if ok then tcp_seg_ack os wait i hdr now c else Inr (False, c)) = Inr (go, b)"
    by (auto simp: tcp_seg_open_def bindr_Inr_iff)
  note ck = check_fin_held [OF w c(1) flg]
  have "fin_held i a b"
  proof (cases ok)
    case True
    then have "tcp_seg_ack os wait i hdr now a = Inr (go, b)" using ck(2) c(2) by simp
    then show ?thesis using st ack by (intro ack_fin_held [OF w]) (simp_all add: cb(1))
  qed (use ck(1) c(2) in simp)
  moreover have "fin_held i b t" using b(2) data_fin_held [OF w] by (cases go) auto
  ultimately show ?thesis using fin_held_trans cb(2) by blast
qed

text \<open>
  Steps after a close: segments that acknowledge everything that was sent, the FIN included, and turns
  of the timer.
\<close>

inductive fin_step :: "os \<Rightarrow> 'a tcp_scheme waits \<Rightarrow> nat \<Rightarrow> 'a tcp_scheme \<Rightarrow> 'a tcp_scheme \<Rightarrow> bool" for os wait i where
  segment: "tcp_event_segment_arrives os wait i hdr segment len s = Inr t \<Longrightarrow>
    \<not> TCP_FLG_ISSET (th_flg hdr) TCP_FLG_RST \<Longrightarrow> \<not> TCP_FLG_ISSET (th_flg hdr) TCP_FLG_SYN \<Longrightarrow>
    ntoh32 (os_endian os) (th_ack hdr) = snd_nxt (cb_table s i) \<Longrightarrow> fin_step os wait i s t"
| timer: "tcp_timer_cb os wait now j s = Inr t \<Longrightarrow> fin_step os wait i s t"

lemma fin_step_held:
  assumes w: "wait_keeps tcp_view wait" and step: "fin_step os wait i s t"
    and held: "half_closed (cb_state (cb_table s i))" "snd_una (cb_table s i) = snd_nxt (cb_table s i)"
  shows "half_closed (cb_state (cb_table t i)) \<and> snd_una (cb_table t i) = snd_nxt (cb_table t i)"
  using step
proof cases
  case (segment hdr seg len)
  then show ?thesis using arrives_fin_held [OF w held(1), of hdr os seg len t] held by (auto simp: fin_held_def)
next
  case (timer now j)
  show ?thesis
  proof (cases "j = i")
    case True
    note e = postrD [OF tcp_timer_cb_effect [OF w] timer]
    have "\<not> tcp_timer_expired now (cb_table s i)" using held by (auto simp: tcp_timer_expired_def half_closed_def)
    then have st: "cb_state (cb_table t i) = cb_state (cb_table s i)" using e True by (simp add: timed_def)
    then have "tx_same i s t" using e True held(1) by (auto simp: timer_rel_def half_closed_def)
    then show ?thesis using st held tx_sameD(3,4) [of i s t] by simp
  next
    case False
    then show ?thesis using tcp_timer_cb_turn(3) [OF w timer] held by simp
  qed
qed


text \<open>A closed connection whose FIN is acknowledged; the timer finds it long after.\<close>

definition fin_example :: tcp where
  "fin_example = tcp_start 3 (plain_dev [2, 0, 0, 0, 0, 1] 7) 4 (plain_netif 5) None
     ((\<lambda>_. tcp_cb_zero)(1 := tcp_cb_zero\<lparr>cb_state := FIN_WAIT1, cb_iface := Some 4, snd_una := 1002, snd_nxt := 1002, cb_timeout := 10\<rparr>))"


section \<open>More text than the window holds\<close>

lemma text_overflows:
  fixes s :: "'a tcp_scheme"
  assumes "cb = cb_table s i" "os_timeofday os (sys_tick s) = Some now" "cb_state cb = ESTABLISHED"
    and "length (cb_window cb) = TCP_WINDOW_SIZE" "e = os_endian os" "th_flg h = 0x18" "th_off h = 0x50"
    and "ntoh32 e (th_seq h) = rcv_nxt cb" "ack = ntoh32 e (th_ack h)" "0 < rcv_wnd cb" "unat (rcv_wnd cb) < length data" "length data \<le> 1460"
    and "rcv_nxt cb < rcv_nxt cb + ucast (rcv_wnd cb)" "snd_una cb \<le> ack" "ack \<le> snd_nxt cb" "segment = hb @ data @ pad" "length hb = 20"
  shows "tcp_event_segment_arrives os wait i h segment (20 + length data) s = Inl OutOfBounds"
proof -
  define t where "t = s\<lparr>sys_tick := Suc (sys_tick s)\<rparr>"
  define v where "v = ack_update (rcv_nxt cb) ack (ntoh16 e (th_win h)) now cb"
  have plen: "TCP_DATA_LEN h (20 + length data) = length data" "TCP_HDR_LEN h = 20"
    using assms(7,12) by (simp_all add: TCP_DATA_LEN_def TCP_HDR_LEN_def)
  have v: "cb_state v = ESTABLISHED" "rcv_nxt v = rcv_nxt cb" "rcv_wnd v = rcv_wnd cb" "cb_window v = cb_window cb"
    using assms(3) by (simp_all add: v_def)
  have op: "tcp_seg_open os wait i h (length data) now t = Inr (True, upd_cb i (\<lambda>_. v) t)"
    unfolding v_def by (rule established_open_run) (use assms in \<open>simp_all add: t_def\<close>)
  have ne: "data \<noteq> []" using assms(11) by auto
  have "mem_read segment 20 (length data) = Inr data" using assms(16,17) by (simp add: mem_read_def)
  moreover have "mem_write (cb_window cb) (TCP_WINDOW_SIZE - unat (rcv_wnd cb)) data = Inl OutOfBounds"
    using assms(4,11) unat_u16_less [of "rcv_wnd cb"] by (simp add: mem_write_def)
  ultimately have "tcp_seg_text os wait i h segment (length data) now (upd_cb i (\<lambda>_. v) t) = Inl OutOfBounds"
    using v plen(2) assms(5,8) ne by (simp add: tcp_seg_text_def Let_def)
  then have "tcp_seg_data os wait i h segment (length data) now (upd_cb i (\<lambda>_. v) t) = Inl OutOfBounds"
    using assms(6) by (simp add: tcp_seg_data_def tcp_seg_urg_def)
  moreover have "cb_state (cb_table t i) = ESTABLISHED" using assms(1,3) by (simp add: t_def)
  ultimately show ?thesis
    using assms(2) op by (simp add: tcp_event_segment_arrives_def sys_timeofday_def plen flip: t_def)
qed

text \<open>
  Property C38: a peer can write past the window buffer. A segment is acceptable when it starts inside
  the window, and its text is then copied whole. So when a frame with such a segment reaches the
  Ethernet layer of a host whose connection has less room left than the segment has text, the copy
  runs over the end of the buffer of 65535 bytes.
\<close>

theorem tcp_window_overflow:
  fixes s :: "'a tcp_scheme"
  assumes host: "tcp_host s d n self ha" "\<not> tcp_mutex s" "length ha' = 6"
    and cb: "cb = cb_table s i" "i < TCP_CB_TABLE_SIZE" "cb_state cb = ESTABLISHED" "cb_iface cb = Some n" "peer = peer_addr cb"
      "conn_only (cb_table s) n i" "length (cb_window cb) = TCP_WINDOW_SIZE" "0 < rcv_wnd cb" "rcv_nxt cb < rcv_nxt cb + ucast (rcv_wnd cb)"
    and hdr: "th_dst hdr = cb_port cb" "th_src hdr = peer_port cb" "th_sum hdr = 0" "th_flg hdr = 0x18" "th_off hdr = 0x50"
      "ntoh32 e (th_seq hdr) = rcv_nxt cb" "snd_una cb \<le> ntoh32 e (th_ack hdr)" "ntoh32 e (th_ack hdr) \<le> snd_nxt cb"
    and data: "unat (rcv_wnd cb) < length data" "length data \<le> 1460"
    and os: "e = os_endian os" "os_timeofday os (sys_tick s) = Some now"
  shows "receive os wait d (tcp_frame e ha ha' peer self ident (tcp_segment e peer self hdr data)) s = Inl OutOfBounds"
proof -
  define h where "h = hdr\<lparr>th_sum := tcp_sum e peer self hdr data\<rparr>"
  define t where "t = s\<lparr>tcp_mutex := True\<rparr>"
  define seg where "seg = tcp_segment e peer self hdr data @ replicate (6 - length data) 0"
  have sg: "seg = enc_tcp_hdr e h @ data @ replicate (6 - length data) 0" "length (enc_tcp_hdr e h) = 20"
    by (simp_all add: seg_def tcp_segment_def h_def)
  have "tcp_event_segment_arrives os wait i h seg (20 + length data) t = Inl OutOfBounds"
    by (rule text_overflows [OF _ _ cb(3,7) os(1) _ _ _ refl cb(8) data cb(9) _ _ sg]) (use cb(1) hdr os in \<open>simp_all add: t_def h_def\<close>)
  then show ?thesis
    using rx_connection_eq [OF host cb(2,6) cb(4,3) [unfolded cb(1)] _ _ cb(5) [unfolded cb(1)] hdr(3) os(1) h_def data(2) seg_def, of wait ident]
      hdr(1,2) by (simp add: cb(1) t_def)
qed

text \<open>A connection with room for one byte.\<close>

definition full_example :: tcp where
  "full_example = tcp_start 2 (plain_dev [2, 0, 0, 0, 0, 9] 8) 9 (plain_netif 6) (Some (5, [2, 0, 0, 0, 0, 1]))
     ((\<lambda>_. tcp_cb_zero)(0 := tcp_cb_zero\<lparr>cb_used := True, cb_state := ESTABLISHED, cb_iface := Some 9, cb_port := 80, peer_addr := 5,
        peer_port := 77, snd_nxt := 5000, snd_una := 5000, snd_wnd := 1000, rcv_nxt := 1001, rcv_wnd := 1\<rparr>))"

theorem tcp_window_overflow_witness:
  "let hdr = \<lparr>th_src = 77, th_dst = 80, th_seq = hton32 Little 1001, th_ack = hton32 Little 5000, th_off = 0x50, th_flg = 0x18,
     th_win = 0, th_sum = 0, th_urg = 0\<rparr>
   in receive (plain_os 50 60) (\<lambda>_. []) 2
        (tcp_frame Little [2, 0, 0, 0, 0, 9] [2, 0, 0, 0, 0, 1] 5 6 128 (tcp_segment Little 5 6 hdr [104, 105])) full_example = Inl OutOfBounds"
proof -
  define hdr where "hdr = \<lparr>th_src = 77, th_dst = 80, th_seq = hton32 Little 1001, th_ack = hton32 Little 5000, th_off = 0x50, th_flg = 0x18,
     th_win = 0, th_sum = 0, th_urg = 0\<rparr>"
  let ?cb = "cb_table full_example 0" and ?os = "plain_os 50 60" and ?w = "(\<lambda>_. []) :: tcp waits"
  have host: "tcp_host full_example 2 9 6 [2, 0, 0, 0, 0, 9]" "\<not> tcp_mutex full_example"
    using tcp_start_host [of "[2, 0, 0, 0, 0, 9]" "plain_netif 6"] by (simp_all add: full_example_def plain_netif_def)
  have cb: "(0 :: nat) < 128" "cb_state ?cb = ESTABLISHED" "cb_iface ?cb = Some 9" "5 = peer_addr ?cb" "conn_only (cb_table full_example) 9 0"
    "length (cb_window ?cb) = 65535" "0 < rcv_wnd ?cb" "rcv_nxt ?cb < rcv_nxt ?cb + ucast (rcv_wnd ?cb)"
    by (simp_all add: full_example_def conn_only_def cb_for_port_def tcp_cb_zero_def)
  have h: "th_dst hdr = cb_port ?cb" "th_src hdr = peer_port ?cb" "th_sum hdr = 0" "th_flg hdr = 0x18" "th_off hdr = 0x50"
    "ntoh32 Little (th_seq hdr) = rcv_nxt ?cb" "snd_una ?cb \<le> ntoh32 Little (th_ack hdr)" "ntoh32 Little (th_ack hdr) \<le> snd_nxt ?cb"
    "unat (rcv_wnd ?cb) < length [104, 105 :: u8]" "length [104, 105 :: u8] \<le> 1460" "Little = os_endian ?os"
    "os_timeofday ?os (sys_tick full_example) = Some (50, 0)"
    by (simp_all add: full_example_def hdr_def)
  have "length [2, 0, 0, 0, 0, 1 :: u8] = 6" by simp
  from tcp_window_overflow [OF host this refl cb h, of ?w 128] show ?thesis unfolding hdr_def Let_def .
qed

section \<open>A segment from nowhere\<close>

text \<open>
  Property C39: one frame can make the stack dereference a null pointer. A listener that was never
  connected has zeros for its peer, so a SYN that claims to come from port 0 of address 0.0.0.0 is
  taken for a segment of a connection, and handled by the listener itself; the handler answers it
  through the interface of the block, and a listener has none.
\<close>

theorem tcp_zero_peer_faults:
  fixes s :: "'a tcp_scheme"
  assumes host: "tcp_host s d n self ha" "\<not> tcp_mutex s" "length ha' = 6"
    and lis: "l < TCP_CB_TABLE_SIZE" "cb_state (cb_table s l) = LISTEN" "cb_iface (cb_table s l) = None" "peer_addr (cb_table s l) = 0"
      "peer_port (cb_table s l) = 0" "cb_txq (cb_table s l) = []" "port_only (cb_table s) l (cb_port (cb_table s l))"
    and hdr: "th_dst hdr = cb_port (cb_table s l)" "th_src hdr = 0" "th_sum hdr = 0" "th_flg hdr = 0x02" "th_off hdr = 0x50"
    and os: "e = os_endian os" "\<forall>k. os_malloc os k" "\<forall>k. os_timeofday os k \<noteq> None"
  shows "receive os wait d (tcp_frame e ha ha' 0 self ident (tcp_segment e 0 self hdr [])) s = Inl NullDeref"
proof -
  define h where "h = hdr\<lparr>th_sum := tcp_sum e 0 self hdr []\<rparr>"
  define seg where "seg = tcp_segment e 0 self hdr [] @ replicate (6 - length ([] :: bytes)) 0"
  have hit: "scan_hit (cb_table s) n 0 hdr l"
    using lis hdr(1,2) by (simp add: scan_hit_def cb_for_port_def cb_for_peer_def IS_FREE_CB_def)
  have none: "\<not> scan_hit (cb_table s) n 0 hdr j" if "j < TCP_CB_TABLE_SIZE" "j \<noteq> l" for j
    using that lis(7) hdr(1) by (auto simp: scan_hit_def cb_for_port_def port_only_def)
  obtain now where now: "os_timeofday os (sys_tick s) = Some now" using os(3) by blast
  have tx: "tcp_reply os wait l seq ack 0x12 now t = Inl NullDeref"
    if "cb_iface (cb_table t l) = None" "cb_txq (cb_table t l) = []" for seq ack and t :: "'a tcp_scheme"
  proof -
    have "tx_queues 0x12 []" "\<not> tx_held (cb_table t l) 0x12 []" using that(2) by (simp_all add: tx_queues_def tx_held_def txq_unsent_def)
    then show ?thesis
      using that(1) os(2) by (simp add: tcp_reply_def tcp_tx_eq Let_def tcp_tx_send_def tx_queued_def)
  qed
  have "tcp_listen_syn os wait l h now t = Inl NullDeref" if "cb_table t = cb_table s" for t :: "'a tcp_scheme"
    using tx lis(3,6) that by (simp add: tcp_listen_syn_def Let_def sys_random_def)
  then have "tcp_event_segment_arrives os wait l h seg 20 (s\<lparr>tcp_mutex := True\<rparr>) = Inl NullDeref"
    using now lis(2) hdr(4) by (simp add: tcp_event_segment_arrives_def sys_timeofday_def tcp_seg_listen_def Let_def h_def)
  then show ?thesis
    using rx_hit_eq [OF host lis(1) hit none hdr(3) os(1) h_def _ seg_def, of wait ident] by simp
qed

theorem tcp_zero_peer_faults_witness:
  "let hdr = \<lparr>th_src = 0, th_dst = hton16 Little 20000, th_seq = 0, th_ack = 0, th_off = 0x50, th_flg = 0x02, th_win = 0, th_sum = 0, th_urg = 0\<rparr>
   in receive (plain_os 50 60) (\<lambda>_. []) 2
        (tcp_frame Little [2, 0, 0, 0, 0, 9] [2, 0, 0, 0, 0, 1] 0 6 128 (tcp_segment Little 0 6 hdr [])) server_example = Inl NullDeref"
proof -
  define hdr where
    "hdr = \<lparr>th_src = 0, th_dst = hton16 Little 20000, th_seq = 0, th_ack = 0, th_off = 0x50, th_flg = 0x02, th_win = 0, th_sum = 0, th_urg = 0\<rparr>"
  let ?cb = "cb_table server_example 0" and ?os = "plain_os 50 60" and ?w = "(\<lambda>_. []) :: tcp waits"
  have lis: "(0 :: nat) < 128" "cb_state ?cb = LISTEN" "cb_iface ?cb = None" "peer_addr ?cb = 0" "peer_port ?cb = 0" "cb_txq ?cb = []"
    "port_only (cb_table server_example) 0 (cb_port ?cb)"
    by (simp_all add: example_tables port_only_def) (simp add: tcp_cb_zero_def)
  have h: "th_dst hdr = cb_port ?cb" "th_src hdr = 0" "th_sum hdr = 0" "th_flg hdr = 0x02" "th_off hdr = 0x50"
    by (simp_all add: hdr_def example_tables)
  have os: "Little = os_endian ?os" "\<forall>k. os_malloc ?os k" "\<forall>k. os_timeofday ?os k \<noteq> None" by simp_all
  have "length [2, 0, 0, 0, 0, 1 :: u8] = 6" by simp
  from tcp_zero_peer_faults [OF example_hosts(5,7) this lis h os, of ?w 128] show ?thesis unfolding hdr_def Let_def .
qed

section \<open>The mutex that is not released\<close>

lemma locked_calls:
  assumes "tcp_mutex s" "soc \<in> {0..<int TCP_CB_TABLE_SIZE}"
  shows "tcp_api_close os wait soc s = Inl Blocked" "tcp_api_connect os wait others soc addr port s = Inl Blocked"
    "tcp_api_bind e soc port s = Inl Blocked" "tcp_api_listen soc s = Inl Blocked" "tcp_api_accept others soc s = Inl Blocked"
    "tcp_api_recv others soc want s = Inl Blocked" "tcp_api_send os wait others soc data s = Inl Blocked"
  using assms
  by (simp_all add: tcp_api_close_def tcp_api_connect_def tcp_api_bind_def tcp_api_listen_def tcp_api_accept_def tcp_api_recv_def
      tcp_api_send_def TCP_SOCKET_INVALID_def tcp_lock_def)

lemma locked_rx: "tcp_mutex s \<Longrightarrow> tcp_rx os wait segment len src dst iface s = Inr t \<Longrightarrow> t = s"
  by (auto simp: tcp_rx_def Let_def bindr_Inr_iff tcp_lock_def split: if_splits)

text \<open>
  Property C40: when \<open>gettimeofday\<close> fails in \<open>tcp_api_connect\<close>, the call returns -1 with the mutex
  still held, and the stack is dead: from then on every call of the interface on any valid socket
  waits for ever, and no segment is handled; what \<open>tcp_rx\<close> returns from at all it has dropped.
\<close>

theorem tcp_connect_leaves_locked:
  assumes "i < TCP_CB_TABLE_SIZE" "cb_used (cb_table s i)" "cb_state (cb_table s i) = CLOSED" "\<not> tcp_mutex s"
    and "os_timeofday os (sys_tick s) = None"
  shows "\<exists>s'. tcp_api_connect os wait others (int i) addr port s = Inr (-1, s') \<and> tcp_api_open s' = Inl Blocked \<and>
    (\<forall>soc \<in> {0..<int TCP_CB_TABLE_SIZE}.
       tcp_api_close os wait soc s' = Inl Blocked \<and> tcp_api_connect os wait others soc addr' port' s' = Inl Blocked \<and>
       tcp_api_bind (os_endian os) soc port' s' = Inl Blocked \<and> tcp_api_listen soc s' = Inl Blocked \<and> tcp_api_accept others soc s' = Inl Blocked \<and>
       tcp_api_recv others soc want s' = Inl Blocked \<and> tcp_api_send os wait others soc data s' = Inl Blocked) \<and>
    (\<forall>segment len src dst iface t. tcp_rx os wait segment len src dst iface s' = Inr t \<longrightarrow> t = s')"
proof -
  define s' where "s' = s\<lparr>tcp_mutex := True, sys_tick := Suc (sys_tick s)\<rparr>"
  have l: "tcp_mutex s'" by (simp add: s'_def)
  have "tcp_api_connect os wait others (int i) addr port s = Inr (-1, s')"
    using assms by (simp add: tcp_api_connect_def TCP_SOCKET_INVALID_def tcp_lock_def tcp_connect_start_def sys_timeofday_def s'_def)
  moreover have "tcp_api_open s' = Inl Blocked" using l by (simp add: tcp_api_open_def tcp_lock_def)
  moreover have "\<forall>soc \<in> {0..<int TCP_CB_TABLE_SIZE}.
       tcp_api_close os wait soc s' = Inl Blocked \<and> tcp_api_connect os wait others soc addr' port' s' = Inl Blocked \<and>
       tcp_api_bind (os_endian os) soc port' s' = Inl Blocked \<and> tcp_api_listen soc s' = Inl Blocked \<and> tcp_api_accept others soc s' = Inl Blocked \<and>
       tcp_api_recv others soc want s' = Inl Blocked \<and> tcp_api_send os wait others soc data s' = Inl Blocked"
    using locked_calls [OF l] by simp
  moreover have "\<forall>segment len src dst iface t. tcp_rx os wait segment len src dst iface s' = Inr t \<longrightarrow> t = s'"
    using locked_rx [OF l] by simp
  ultimately show ?thesis by (intro exI [of _ s'] conjI)
qed

theorem tcp_connect_leaves_locked_witness:
  "\<exists>s'. tcp_api_connect ((plain_os 50 60)\<lparr>os_timeofday := \<lambda>_. None\<rparr>) (\<lambda>_. []) [] 1 6 80 client_example = Inr (-1, s') \<and>
     tcp_api_open s' = Inl Blocked \<and> tcp_api_recv [] 1 10 s' = Inl Blocked"
  using tcp_connect_leaves_locked [of 1 client_example "(plain_os 50 60)\<lparr>os_timeofday := \<lambda>_. None\<rparr>" "\<lambda>_. []" "[]" 6 80 0 0 10 "[]"]
  by (auto simp: example_tables example_hosts(4))

section \<open>After an active open\<close>

text \<open>With a send window of zero the segment is queued and nothing is sent.\<close>

lemma send_pass_held:
  fixes s :: "'a tcp_scheme"
  assumes "cb = cb_table s i" "cb_state cb = ESTABLISHED" "cb_iface cb = Some n" "snd_wnd cb = 0"
    and "net_ifs s n = Some ni" "if_dev ni = Some d" "net_devs s d = Some dev" "unat (nd_mtu dev) = 1500"
    and "data \<noteq> []" "length data \<le> 1420" "length data \<le> unat (tcp_send_wnd cb)"
    and "\<forall>k. os_malloc os k" "\<forall>k. os_timeofday os k = Some now"
  shows "\<exists>s'. tcp_send_pass os wait i data s = Inr (SendNext (length data), s') \<and> sys_sent s' = sys_sent s \<and> snd_wnd (cb_table s' i) = 0"
proof -
  have room: "tcp_send_room (nd_mtu dev) (length data) = length data" using assms(8,10) by (simp add: tcp_send_room_def)
  have dev: "netif_dev n (s\<lparr>sys_tick := Suc (sys_tick s)\<rparr>) = Inr (d, dev)" using assms(5-7) by (simp add: netif_dev_def deref_def)
  have flg: "\<not> TCP_FLG_ISSET (TCP_FLG_PSH OR TCP_FLG_ACK) TCP_FLG_SYN" by (simp add: TCP_FLG_ISSET_def)
  show ?thesis
    using assms(1-4,9,11-13) room dev flg
    by (simp add: tcp_send_pass_def sys_timeofday_def sys_malloc_def tcp_tx_def tcp_txq_add_def Let_def)
qed

text \<open>
  Property C88: a client that has connected cannot send. The window of the peer is not taken from the
  SYN and ACK that opens the connection, so after \<open>tcp_api_connect\<close> the send window is still the zero
  it was before; \<open>tcp_api_send\<close> accepts the data and returns its length, but no frame is sent, and no
  round of the timer sends one.
\<close>

theorem tcp_active_open_stalls:
  fixes s :: "'a tcp_scheme"
  assumes host: "tcp_host s d n self ha" "reaches s n peer self ha' ha fd" "default_netif s = Some n" "\<not> tcp_mutex s" "length ha' = 6"
    and cb: "cb = cb_table s i" "i < TCP_CB_TABLE_SIZE" "cb_used cb" "cb_state cb = CLOSED" "cb_port cb \<noteq> 0" "cb_txq cb = []"
      "port_only (cb_table s) i (cb_port cb)" and wnd: "snd_wnd cb = 0"
    and os: "os_fine os now" "e = os_endian os" "iss = os_random os (Suc (sys_tick s))" "iss < iss + 1"
    and hdr: "th_sum hdr = 0" "th_flg hdr = 0x12" "th_off hdr = 0x50" "seq = ntoh32 e (th_seq hdr)" "ntoh32 e (th_ack hdr) = iss + 1"
      "th_src hdr = hton16 e port" "th_dst hdr = cb_port cb"
    and data: "data \<noteq> []" "length data \<le> 1420"
  shows "\<exists>s' s''.
    tcp_api_connect os wait [deliver os wait d (tcp_frame e ha ha' peer self ident (tcp_segment e peer self hdr []))] (int i) peer port s =
      Inr (0, s') \<and> cb_state (cb_table s' i) = ESTABLISHED \<and>
    tcp_api_send os wait others (int i) data s' = Inr (int (length data), s'') \<and> sys_sent s'' = sys_sent s' \<and>
    (\<forall>now t. tcp_timer_cb os wait now i s'' = Inr t \<longrightarrow> sys_sent t = sys_sent s'')"
proof -
  obtain s' where s': "tcp_api_connect os wait [deliver os wait d (tcp_frame e ha ha' peer self ident (tcp_segment e peer self hdr []))] (int i) peer port s =
      Inr (0, s')" "\<not> tcp_mutex s'" "cb_state (cb_table s' i) = ESTABLISHED" "snd_nxt (cb_table s' i) = iss + 1"
    "snd_una (cb_table s' i) = iss + 1" "snd_wnd (cb_table s' i) = 0" "cb_used (cb_table s' i)" "cb_iface (cb_table s' i) = Some n" "same_net s s'"
    using client_connect [OF host cb os hdr, of wait ident] wnd by auto
  let ?t = "s'\<lparr>tcp_mutex := True\<rparr>"
  obtain ni dd dev where ni: "net_ifs s n = Some ni" "if_dev ni = Some dd" "net_devs s dd = Some dev" "unat (nd_mtu dev) = 1500"
    using host(2) by (auto simp: reaches_def)
  have ni': "net_ifs ?t n = Some ni" "net_devs ?t dd = Some dev" using ni(1,3) s'(9) by (simp_all add: same_net_def)
  have c: "cb_state (cb_table ?t i) = ESTABLISHED" "cb_iface (cb_table ?t i) = Some n" "snd_wnd (cb_table ?t i) = 0"
    "length data \<le> unat (tcp_send_wnd (cb_table ?t i))" using s' data(2) by (simp_all add: tcp_send_wnd_def)
  have o: "\<forall>k. os_malloc os k" "\<forall>k. os_timeofday os k = Some now" using os(1) by (simp_all add: os_fine_def)
  obtain u where u: "tcp_send_pass os wait i data ?t = Inr (SendNext (length data), u)" "sys_sent u = sys_sent ?t" "snd_wnd (cb_table u i) = 0"
    using send_pass_held [OF refl c(1-3) ni'(1) ni(2) ni'(2) ni(4) data c(4) o, of wait] by blast
  have send: "tcp_api_send os wait others (int i) data s' = Inr (int (length data), tcp_unlock u)"
    by (rule send_run [OF cb(2) s'(7,2) u(1)])
  have w: "snd_wnd (cb_table (tcp_unlock u) i) = 0" using u(3) by (simp add: tcp_unlock_def)
  have "sys_sent t = sys_sent (tcp_unlock u)" if "tcp_timer_cb os wait now i (tcp_unlock u) = Inr t" for now t
    by (rule timer_cb_idle [OF w that])
  moreover have "sys_sent (tcp_unlock u) = sys_sent s'" using u(2) by (simp add: tcp_unlock_def)
  ultimately show ?thesis using s'(1,3) send by blast
qed

definition synack_example :: tcp_hdr where
  "synack_example = \<lparr>th_src = hton16 Little 20000, th_dst = cb_port (cb_table client_example 1), th_seq = hton32 Little 5000,
     th_ack = hton32 Little 1001, th_off = 0x50, th_flg = 0x12, th_win = hton16 Little 0xffff, th_sum = 0, th_urg = 0\<rparr>"

theorem tcp_active_open_stalls_witness:
  "\<exists>frame s' s''. tcp_api_connect (plain_os 50 60) (\<lambda>_. []) [deliver (plain_os 50 60) (\<lambda>_. []) 3 frame] 1 6 20000 client_example = Inr (0, s') \<and>
     cb_state (cb_table s' 1) = ESTABLISHED \<and>
     tcp_api_send (plain_os 50 60) (\<lambda>_. []) [] 1 [104, 105] s' = Inr (2, s'') \<and> sys_sent s'' = sys_sent s'"
proof -
  let ?os = "plain_os 50 60" and ?w = "(\<lambda>_. []) :: tcp waits" and ?d = "[104, 105] :: bytes"
  have cb: "(1 :: nat) < 128" "cb_used (cb_table client_example 1)" "cb_state (cb_table client_example 1) = CLOSED"
    "cb_port (cb_table client_example 1) \<noteq> 0" "cb_txq (cb_table client_example 1) = []"
    "port_only (cb_table client_example) 1 (cb_port (cb_table client_example 1))" "snd_wnd (cb_table client_example 1) = 0"
    by (simp_all add: example_tables port_only_def tcp_cb_zero_def)
  have os: "os_fine ?os (50, 0)" "Little = os_endian ?os" "1000 = os_random ?os (Suc (sys_tick client_example))" "(1000 :: u32) < 1000 + 1"
    by (simp_all add: os_fine_def)
  have hdr: "th_sum synack_example = 0" "th_flg synack_example = 0x12" "th_off synack_example = 0x50" "5000 = ntoh32 Little (th_seq synack_example)"
    "ntoh32 Little (th_ack synack_example) = 1000 + 1" "th_src synack_example = hton16 Little 20000" "th_dst synack_example = cb_port (cb_table client_example 1)"
    by (simp_all add: synack_example_def)
  have len: "length [2, 0, 0, 0, 0, 9 :: u8] = 6" "?d \<noteq> []" "length ?d \<le> 1420" by simp_all
  from tcp_active_open_stalls [OF example_hosts(1-4) len(1) refl cb os hdr len(2,3), of ?w 0 "[]"]
  show ?thesis by simp blast
qed

end
