(* ===== verification/Dump.thy ===== *)
theory Dump
  imports Tcpcb
begin

unbundle bit_operations_syntax

text \<open>
  What the debugging functions print: \<open>hexdump\<close> and \<open>maskdbg\<close> of \<open>util.c\<close>, and the dumps of the
  layers, each as the text it writes. A read outside the memory it is given is a fault. The hex
  dump is shown to determine the bytes, and the bit dump to list the bits of the mask.
\<close>

section \<open>The formats\<close>

fun fmt_x :: "nat \<Rightarrow> string" where
  "fmt_x n = (if n < 16 then [digit_char n] else fmt_x (n div 16) @ [digit_char (n mod 16)])"

declare fmt_x.simps [simp del]

definition fmt_04x :: "nat \<Rightarrow> string" where
  "fmt_04x n = replicate (4 - length (fmt_x n)) CHR ''0'' @ fmt_x n"

definition fmt_ld :: "int \<Rightarrow> string" where
  "fmt_ld n = (if n < 0 then CHR ''-'' # fmt_d (nat (- n)) else fmt_d (nat n))"

definition nl :: string where
  "nl = [CHR 0x0A]"

section \<open>Bytes\<close>

definition hexdump_rule :: string where
  "hexdump_rule = ''+------+-------------------------------------------------+------------------+'' @ nl"

text \<open>Both loops over the 16 columns; \<open>sz\<close> is the size as an \<open>int\<close>.\<close>

fun hexdump_hex :: "bytes \<Rightarrow> nat \<Rightarrow> nat \<Rightarrow> nat list \<Rightarrow> string res" where
  "hexdump_hex src sz offset [] = Inr []"
| "hexdump_hex src sz offset (index # is) =
     bindr (if offset + index < sz
            then bindr (mem_read src (offset + index) 1) (\<lambda>b. Inr (fmt_02x (0xff AND hd b) @ '' ''))
            else Inr ''   '') (\<lambda>cell.
     bindr (hexdump_hex src sz offset is) (\<lambda>rest. Inr (cell @ rest)))"

definition isprint_ascii :: "u8 \<Rightarrow> bool" where
  "isprint_ascii b \<longleftrightarrow> 0x20 \<le> b \<and> b \<le> 0x7e"

fun hexdump_text :: "bytes \<Rightarrow> nat \<Rightarrow> nat \<Rightarrow> nat list \<Rightarrow> string res" where
  "hexdump_text src sz offset [] = Inr []"
| "hexdump_text src sz offset (index # is) =
     bindr (if offset + index < sz
            then bindr (mem_read src (offset + index) 1) (\<lambda>b.
              Inr (if isprint_ascii (hd b) then [char_of (unat (hd b))] else ''.''))
            else Inr '' '') (\<lambda>cell.
     bindr (hexdump_text src sz offset is) (\<lambda>rest. Inr (cell @ rest)))"

function hexdump_rows :: "bytes \<Rightarrow> nat \<Rightarrow> nat \<Rightarrow> string res" where
  "hexdump_rows src sz offset =
     (if offset < sz then
        bindr (hexdump_hex src sz offset [0..<16]) (\<lambda>hex.
        bindr (hexdump_text src sz offset [0..<16]) (\<lambda>chars.
        bindr (hexdump_rows src sz (offset + 16)) (\<lambda>rest.
        Inr (''| '' @ fmt_04x offset @ '' | '' @ hex @ ''| '' @ chars @ '' |'' @ nl @ rest))))
      else Inr [])"
  by pat_completeness auto
termination
  by (relation "measure (\<lambda>(src, sz, offset). sz - offset)") auto

declare hexdump_rows.simps [simp del]

definition hexdump :: "bytes \<Rightarrow> nat \<Rightarrow> string res" where
  "hexdump src sz =
     bindr (hexdump_rows src (nat (sint (of_nat sz :: 32 word))) 0) (\<lambda>rows.
     Inr (hexdump_rule @ rows @ hexdump_rule))"

text \<open>A reader of the dump: the hex columns of every line between the two rules.\<close>

fun unhex :: "string \<Rightarrow> bytes" where
  "unhex (a # b # c # r) =
     (case (digit_val a, digit_val b) of
        (Some x, Some y) \<Rightarrow> of_nat (16 * x + y) # unhex r
      | _ \<Rightarrow> [])"
| "unhex _ = []"

function unhexdump :: "string \<Rightarrow> bytes" where
  "unhexdump text = (if 156 < length text then unhex (take 48 (drop 87 text)) @ unhexdump (drop 78 text) else [])"
  by pat_completeness auto
termination
  by (relation "measure length") auto

declare unhexdump.simps [simp del]

section \<open>Bits\<close>

definition ISBIT :: "u8 \<Rightarrow> string" where
  "ISBIT x = (if x \<noteq> 0 then ''1'' else ''0'')"

definition maskdbg_byte :: "u8 \<Rightarrow> string" where
  "maskdbg_byte b = ISBIT (b AND 0x01) @ ISBIT (b AND 0x02) @ ISBIT (b AND 0x04) @ ISBIT (b AND 0x08) @ '' '' @
     ISBIT (b AND 0x10) @ ISBIT (b AND 0x20) @ ISBIT (b AND 0x40) @ ISBIT (b AND 0x80) @ nl"

definition maskdbg :: "endian \<Rightarrow> u32 list \<Rightarrow> nat \<Rightarrow> string res" where
  "maskdbg e m sz =
     bindr (mem_read (concat (map (bytes32 e) m)) 0 (4 * sz)) (\<lambda>bs. Inr (concat (map maskdbg_byte bs)))"

section \<open>The layers\<close>

definition ethernet_dump :: "endian \<Rightarrow> netdev \<Rightarrow> bytes \<Rightarrow> nat \<Rightarrow> string res" where
  "ethernet_dump e dev frame flen =
     bindr (mem_read frame 0 14) (\<lambda>hb.
     let hdr = dec_ethernet_hdr e hb in
     bindr (hexdump frame flen) (\<lambda>hex.
     Inr (''  dev: '' @ nd_name dev @ '' ('' @ ethernet_addr_ntop (nd_addr dev) 18 @ '')'' @ nl @
          ''  src: '' @ ethernet_addr_ntop (eth_src hdr) 18 @ nl @
          ''  dst: '' @ ethernet_addr_ntop (eth_dst hdr) 18 @ nl @
          '' type: 0x'' @ fmt_04x (unat (ntoh16 e (eth_type hdr))) @ '' ('' @ ethernet_addr_ntop (eth_src hdr) 18 @ '')'' @ nl @
          ''  len: '' @ fmt_d flen @ '' octets'' @ nl @ hex)))"

definition arp_opcode_ntop :: "endian \<Rightarrow> u16 \<Rightarrow> string" where
  "arp_opcode_ntop e opcode =
     (if ntoh16 e opcode = ARP_OP_REQUEST then ''REQUEST''
      else if ntoh16 e opcode = ARP_OP_REPLY then ''REPLY'' else ''UNKNOWN'')"

definition arp_dump :: "endian \<Rightarrow> bytes \<Rightarrow> nat \<Rightarrow> string res" where
  "arp_dump e packet plen =
     bindr (mem_read packet 0 28) (\<lambda>bs.
     let message = dec_arp e bs in
     Inr ('' hrd: 0x'' @ fmt_04x (unat (ntoh16 e (arp_hrd message))) @ nl @
          '' pro: 0x'' @ fmt_04x (unat (ntoh16 e (arp_pro message))) @ nl @
          '' hln: '' @ fmt_d (unat (arp_hln message)) @ nl @
          '' pln: '' @ fmt_d (unat (arp_pln message)) @ nl @
          ''  op: '' @ fmt_d (unat (ntoh16 e (arp_op message))) @ '' ('' @ arp_opcode_ntop e (arp_op message) @ '')'' @ nl @
          '' sha: '' @ ethernet_addr_ntop (arp_sha message) 128 @ nl @
          '' spa: '' @ ip_addr_ntop e (arp_spa message) 128 @ nl @
          '' tha: '' @ ethernet_addr_ntop (arp_tha message) 128 @ nl @
          '' tpa: '' @ ip_addr_ntop e (arp_tpa message) 128 @ nl))"

definition ip_dump :: "endian \<Rightarrow> nat \<Rightarrow> ip_hdr \<Rightarrow> bytes \<Rightarrow> nat \<Rightarrow> 'a net_scheme \<Rightarrow> string res" where
  "ip_dump e netif hdr packet plen s =
     bindr (deref (net_ifs s) netif) (\<lambda>iface.
     case if_dev iface of
       None \<Rightarrow> Inl NullDeref
     | Some d \<Rightarrow>
         bindr (deref (net_devs s) d) (\<lambda>dev.
         bindr (hexdump packet plen) (\<lambda>hex.
         Inr (''      dev: '' @ nd_name dev @ '' ('' @ ip_addr_ntop e (unicast iface) 16 @ '')'' @ nl @
              ''      src: '' @ ip_addr_ntop e (ip_src hdr) 16 @ nl @
              ''      dst: '' @ ip_addr_ntop e (ip_dst hdr) 16 @ nl @
              '' protocol: 0x'' @ fmt_02x (ip_protocol hdr) @ nl @
              ''      len: '' @ fmt_d plen @ '' octets'' @ nl @ hex))))"

definition tcp_state_dump :: "endian \<Rightarrow> tcp_cb \<Rightarrow> string" where
  "tcp_state_dump e cb =
     ''      used: '' @ fmt_d (if cb_used cb then 1 else 0) @ nl @
     ''     state: '' @ tcp_state_ntop (cb_state cb) @ nl @
     '' self.port: '' @ fmt_d (unat (ntoh16 e (cb_port cb))) @ nl @
     '' peer.addr: '' @ ip_addr_ntop e (peer_addr cb) 64 @ nl @
     '' peer.port: '' @ fmt_d (unat (ntoh16 e (peer_port cb))) @ nl @
     ''   snd.nxt: '' @ fmt_d (unat (snd_nxt cb)) @ nl @
     ''   snd.una: '' @ fmt_d (unat (snd_una cb)) @ nl @
     ''   snd.wnd: '' @ fmt_d (unat (snd_wnd cb)) @ nl @
     ''   txq.snt: '' @ fmt_d (unat (txq_snt cb)) @ nl @
     ''   rcv.nxt: '' @ fmt_d (unat (rcv_nxt cb)) @ nl @
     ''   rcv.wnd: '' @ fmt_d (unat (rcv_wnd cb)) @ nl @
     '' n_backlog: '' @ fmt_d (length (cb_backlog cb)) @ nl @
     ''   timeout: '' @ fmt_ld (cb_timeout cb) @ nl"

definition tcp_dump :: "endian \<Rightarrow> tcp_cb \<Rightarrow> tcp_hdr \<Rightarrow> nat \<Rightarrow> string \<Rightarrow> string res" where
  "tcp_dump e cb hdr plen buf =
     bindr (tcp_flg_ntop (th_flg hdr) buf) (\<lambda>buf.
     Inr (tcp_state_dump e cb @
       '' len: '' @ fmt_d plen @ nl @
       '' src: '' @ fmt_d (unat (ntoh16 e (th_src hdr))) @ nl @
       '' dst: '' @ fmt_d (unat (ntoh16 e (th_dst hdr))) @ nl @
       '' seq: '' @ fmt_d (unat (ntoh32 e (th_seq hdr))) @ nl @
       '' ack: '' @ fmt_d (unat (ntoh32 e (th_ack hdr))) @ nl @
       '' off: '' @ fmt_d (unat (th_off hdr)) @ nl @
       '' flg: ['' @ takeWhile (\<lambda>c. c \<noteq> CHR 0x00) buf @ '']'' @ nl @
       '' win: '' @ fmt_d (unat (ntoh16 e (th_win hdr))) @ nl @
       '' sum: '' @ fmt_d (unat (ntoh16 e (th_sum hdr))) @ nl @
       '' urg: '' @ fmt_d (unat (ntoh16 e (th_urg hdr))) @ nl))"

section \<open>The hex dump determines the bytes\<close>

lemma length_fmt_x: "n < 16 ^ Suc k \<Longrightarrow> length (fmt_x n) \<le> Suc k"
proof (induction k arbitrary: n)
  case 0
  then show ?case by (simp add: fmt_x.simps [of n])
next
  case (Suc k)
  then show ?case using Suc.IH [of "n div 16"] by (simp add: fmt_x.simps [of n] less_mult_imp_div_less mult.commute)
qed

lemma length_fmt_04x: "n < 65536 \<Longrightarrow> length (fmt_04x n) = 4"
  using length_fmt_x [of n 3] by (simp add: fmt_04x_def)

lemma length_hexdump_rule: "length hexdump_rule = 78"
  by (simp add: hexdump_rule_def nl_def)

lemma unhex_cell: "unhex (fmt_02x b @ c # t) = b # unhex t"
  using unat_u8_less [of b] by (simp add: fmt_02x_def less_mult_imp_div_less)

lemma and_ff: "0xff AND b = (b :: u8)"
proof -
  have "(0xff :: u8) = - 1" by simp
  then show ?thesis by (simp only: and.left_neutral)
qed

lemma fmt_02x_length: "length (fmt_02x b) = 2"
  by (simp add: fmt_02x_def)

lemma row_count: "0 < m \<Longrightarrow> (m + 15) div 16 = Suc ((m - 16 + 15) div 16)" for m :: nat
proof (cases "m < 16")
  case True
  assume "0 < m"
  with True have "(m + 15) div 16 = 1" by (intro div_nat_eqI) simp_all
  then show ?thesis using True by simp
next
  case False
  then obtain q where "m = 16 + q" using le_Suc_ex [of 16 m] by auto
  then show ?thesis by simp
qed

lemma hexdump_cell:
  assumes "sz \<le> length src" "m < sz"
  shows "mem_read src m (Suc 0) = Inr [take sz src ! m]" "drop m (take sz src) = take sz src ! m # drop (Suc m) (take sz src)"
  using assms by (simp_all add: mem_read_def take_Suc_conv_app_nth Cons_nth_drop_Suc [symmetric] take_Suc)

lemma hexdump_hex_ok:
  assumes "sz \<le> length src" "k + n = 16"
  shows "\<exists>t. hexdump_hex src sz off [k..<16] = Inr t \<and> length t = 3 * n \<and> unhex t = take n (drop (off + k) (take sz src))"
  using assms(2)
proof (induction n arbitrary: k)
  case 0
  then show ?case by simp
next
  case (Suc n)
  then obtain t where t: "hexdump_hex src sz off [Suc k..<16] = Inr t" "length t = 3 * n"
    "unhex t = take n (drop (off + Suc k) (take sz src))"
    using Suc.IH [of "Suc k"] by auto
  have k: "[k..<16] = k # [Suc k..<16]" using Suc.prems by (simp add: upt_conv_Cons)
  show ?case
  proof (cases "off + k < sz")
    case True
    note c = hexdump_cell [OF assms(1) True]
    show ?thesis using True t by (simp add: k c and_ff unhex_cell fmt_02x_length del: upt_rec_numeral)
  next
    case False
    then show ?thesis using t by (simp add: k digit_val_def del: upt_rec_numeral)
  qed
qed

lemma hexdump_text_ok:
  assumes "sz \<le> length src"
  shows "\<exists>t. hexdump_text src sz off is = Inr t \<and> length t = length is"
proof (induction "is")
  case Nil
  then show ?case by simp
next
  case (Cons k "is")
  then show ?case using hexdump_cell [OF assms, of "off + k"] by auto
qed

lemma hexdump_rows_ok:
  assumes "sz \<le> length src" "sz \<le> 65536" "length pre = 78"
  shows "\<exists>t. hexdump_rows src sz off = Inr t \<and> length t = 78 * ((sz - off + 15) div 16) \<and>
    unhexdump (pre @ t @ hexdump_rule) = drop off (take sz src)"
  using assms
proof (induction src sz off arbitrary: pre rule: hexdump_rows.induct)
  case (1 src sz off)
  show ?case
  proof (cases "off < sz")
    case True
    obtain hex where hex: "hexdump_hex src sz off [0..<16] = Inr hex" "length hex = 48" "unhex hex = take 16 (drop off (take sz src))"
      using hexdump_hex_ok [OF 1(2), of 0 16 off] by auto
    obtain chars where chars: "hexdump_text src sz off [0..<16] = Inr chars" "length chars = 16"
      using hexdump_text_ok [OF 1(2), of off "[0..<16]"] by auto
    define row where "row = ''| '' @ fmt_04x off @ '' | '' @ hex @ ''| '' @ chars @ '' |'' @ nl"
    have row: "length row = 78" "take 48 (drop 9 row) = hex" using length_fmt_04x [of off] True 1(3) hex(2) chars(2) by (simp_all add: row_def nl_def)
    obtain t where t: "hexdump_rows src sz (off + 16) = Inr t" "length t = 78 * ((sz - (off + 16) + 15) div 16)"
      "unhexdump (row @ t @ hexdump_rule) = drop (off + 16) (take sz src)"
      using 1(1) [OF True hex(1) chars(1) 1(2,3) row(1)] by blast
    have run: "hexdump_rows src sz off = Inr (row @ t)" by (simp add: hexdump_rows.simps [of src sz off] True hex(1) chars(1) t(1) row_def del: upt_rec_numeral)
    have "(sz - off + 15) div 16 = Suc ((sz - (off + 16) + 15) div 16)" using True row_count [of "sz - off"] by simp
    then have len: "length (row @ t) = 78 * ((sz - off + 15) div 16)" using t(2) row(1) by (simp only: length_append) simp
    have "unhexdump (pre @ (row @ t) @ hexdump_rule) = unhex hex @ unhexdump (row @ t @ hexdump_rule)"
      using row 1(4) by (subst unhexdump.simps) (simp add: length_hexdump_rule)
    also have "\<dots> = drop off (take sz src)" using append_take_drop_id [of 16 "drop off (take sz src)"] by (simp add: hex(3) t(3) add.commute)
    finally show ?thesis using run len by blast
  next
    case False
    then show ?thesis using 1(4) by (simp add: hexdump_rows.simps [of src sz off] unhexdump.simps [of "pre @ hexdump_rule"] length_hexdump_rule)
  qed
qed

text \<open>
  Property C29: a hex dump of at most 65536 bytes, all inside the memory it is given, reads nothing
  else; it has one line of 78 characters for every 16 bytes, the last one padded, between its two
  rules, and the bytes can be read back from its hex columns.
\<close>

theorem hexdump_roundtrip:
  assumes "sz \<le> length src" "sz \<le> 65536"
  shows "\<exists>text. hexdump src sz = Inr text \<and> length text = 78 * (2 + (sz + 15) div 16) \<and> unhexdump text = take sz src"
proof -
  have "nat (sint (of_nat sz :: 32 word)) = sz"
    using assms(2) by (simp add: signed_of_nat signed_take_bit_int_eq_self)
  then show ?thesis
    using hexdump_rows_ok [OF assms length_hexdump_rule, of 0] by (auto simp: hexdump_def length_hexdump_rule)
qed

theorem hexdump_roundtrip_witness:
  "\<exists>text. hexdump [0x71, 0x75, 0x69, 0x74, 0x0a] 4 = Inr text \<and> length text = 234 \<and> unhexdump text = [0x71, 0x75, 0x69, 0x74]"
  using hexdump_roundtrip [of 4 "[0x71, 0x75, 0x69, 0x74, 0x0a]"] by simp

section \<open>The bit dump lists the bits\<close>

definition bit_char :: "bool \<Rightarrow> char" where
  "bit_char b = (if b then CHR ''1'' else CHR ''0'')"

lemma ISBIT_bit: "ISBIT (b AND 2 ^ k) = [bit_char (bit b k)]"
  by (simp add: ISBIT_def bit_char_def and_exp_eq_0_iff_not_bit)

lemma bit_char_digit: "bit_char b = CHR ''0'' \<or> bit_char b = CHR ''1''"
  by (simp add: bit_char_def)

lemma upto_8: "[0..<8] = [0, 1, 2, 3, 4, 5, 6, 7 :: nat]"
  and upto_32: "[0..<32] = [0..<8] @ map ((+) 8) [0..<8] @ map ((+) 16) [0..<8] @ map ((+) 24) [0..<8 :: nat]"
  by code_simp+

lemma maskdbg_byte_bits:
  "filter (\<lambda>c. c = CHR ''0'' \<or> c = CHR ''1'') (maskdbg_byte b) = map (\<lambda>k. bit_char (bit b k)) [0..<8]"
  using ISBIT_bit [of b 0] ISBIT_bit [of b 1] ISBIT_bit [of b 2] ISBIT_bit [of b 3] ISBIT_bit [of b 4] ISBIT_bit [of b 5]
    ISBIT_bit [of b 6] ISBIT_bit [of b 7] by (simp add: maskdbg_byte_def nl_def upto_8 bit_char_digit del: upt_rec_numeral)

lemma word_bits_bytes:
  "concat (map (\<lambda>b. map (\<lambda>k. bit_char (bit b k)) [0..<8]) (bytes32 Little w)) = map (\<lambda>k. bit_char (bit w k)) [0..<32]"
  unfolding upto_32 by (simp add: bytes32_def bit_simps del: upt_rec_numeral)

lemma take_words: "take (4 * n) (concat (map (bytes32 e) m)) = concat (map (bytes32 e) (take n m))"
proof (induction m arbitrary: n)
  case Nil
  then show ?case by simp
next
  case (Cons w m)
  then show ?case by (cases n) simp_all
qed

lemma maskdbg_bits:
  assumes "sz \<le> length m"
  shows "\<exists>text. maskdbg Little m sz = Inr text \<and>
    filter (\<lambda>c. c = CHR ''0'' \<or> c = CHR ''1'') text = concat (map (\<lambda>w. map (\<lambda>k. bit_char (bit w k)) [0..<32]) (take sz m))"
proof -
  have l: "length (concat (map (bytes32 Little) m)) = 4 * length m" by (induction m) simp_all
  have f: "filter P (concat (map f (concat (map g ws)))) = concat (map (\<lambda>w. concat (map (\<lambda>b. filter P (f b)) (g w))) ws)"
    for P and f :: "u8 \<Rightarrow> string" and g and ws :: "u32 list"
    by (induction ws) (simp_all add: filter_concat comp_def)
  show ?thesis
    using assms l by (simp add: maskdbg_def mem_read_def take_words f maskdbg_byte_bits word_bits_bytes del: upt_rec_numeral)
qed

section \<open>The dumps of the layers stay inside what they are given\<close>

lemma hexdump_ok: "sz \<le> length src \<Longrightarrow> sz \<le> 65536 \<Longrightarrow> \<exists>text. hexdump src sz = Inr text"
  using hexdump_rows_ok [OF _ _ length_hexdump_rule, of sz src 0]
  by (auto simp: hexdump_def signed_of_nat signed_take_bit_int_eq_self)

lemma layer_dumps:
  shows "14 \<le> flen \<Longrightarrow> flen \<le> length frame \<Longrightarrow> flen \<le> 65536 \<Longrightarrow> \<exists>text. ethernet_dump e dev frame flen = Inr text"
    and "28 \<le> length packet \<Longrightarrow> \<exists>text. arp_dump e packet plen = Inr text"
    and "64 \<le> length buf \<Longrightarrow> \<exists>text. tcp_dump e cb hdr plen buf = Inr text"
    and "net_ifs s n = Some ni \<Longrightarrow> if_dev ni = Some d \<Longrightarrow> net_devs s d = Some dev \<Longrightarrow> plen \<le> length dgram \<Longrightarrow> plen \<le> 65536 \<Longrightarrow>
      \<exists>text. ip_dump e n ih dgram plen s = Inr text"
  using hexdump_ok [of flen frame] hexdump_ok [of plen dgram] tcp_flg_ntop_fits [of buf "th_flg hdr"]
  by (auto simp: ethernet_dump_def arp_dump_def tcp_dump_def ip_dump_def mem_read_def Let_def)

end
