(* ===== verification/App.thy ===== *)
theory App
  imports Tcpedge
begin

unbundle bit_operations_syntax

text \<open>
  The echo server \<open>apps/tcp_echo.c\<close>. Its threads call the interface of \<open>tcp.c\<close>; what the other
  threads do during a wait and between two calls is a parameter of each thread. A loop that goes on
  until the parameters of its rounds are used up has not returned (\<open>NoReturn\<close>).
\<close>

section \<open>Starting the layers\<close>

definition app_setup :: "os \<Rightarrow> 'a tcp_scheme \<Rightarrow> (int \<times> 'a tcp_scheme) res" where
  "app_setup os s =
     (let (r, s) = ethernet_init os s in
      if r = -1 then Inr (-1, s) else
      let (r, s) = ip_init os s in
      if r = -1 then Inr (-1, s) else
      let (r, s) = arp_init os s in
      if r = -1 then Inr (-1, s) else
      bindr (tcp_init os s) (\<lambda>(r, s).
      if r = -1 then Inr (-1, s) else Inr (0, s)))"

section \<open>A connection\<close>

text \<open>
  A round of the handler: what happens during the waits of \<open>tcp_api_recv\<close>, before \<open>tcp_api_send\<close>,
  during its waits, and after it. The buffer keeps what an earlier round left in it.
\<close>

record 's round =
  while_recv :: "('s \<Rightarrow> 's) list"
  before_send :: "'s \<Rightarrow> 's"
  while_send :: "('s \<Rightarrow> 's) list"
  after_send :: "'s \<Rightarrow> 's"

definition quit :: bytes where
  "quit = [0x71, 0x75, 0x69, 0x74]"

fun handler_loop :: "os \<Rightarrow> 'a tcp_scheme waits \<Rightarrow> 'a tcp_scheme round list \<Rightarrow> int \<Rightarrow> bytes \<Rightarrow> 'a tcp_scheme \<Rightarrow> 'a tcp_scheme res" where
  "handler_loop os wait [] soc buf s = Inl NoReturn"
| "handler_loop os wait (round # rounds) soc buf s =
     bindr (tcp_api_recv (while_recv round) soc 1024 s) (\<lambda>(n, got, s).
     let s = before_send round s in
     if n = -1 then Inr s else
     let buf = got @ drop (length got) buf in
     bindr (tcp_api_send os wait (while_send round) soc (take (nat n) buf) s) (\<lambda>(n, s).
     let s = after_send round s in
     if n = -1 then Inr s
     else if n \<ge> 4 \<and> take 4 buf = quit then Inr s
     else handler_loop os wait rounds soc buf s))"

definition handler :: "os \<Rightarrow> 'a tcp_scheme waits \<Rightarrow> 'a tcp_scheme round list \<Rightarrow> int \<Rightarrow> bytes \<Rightarrow> 'a tcp_scheme \<Rightarrow> 'a tcp_scheme res" where
  "handler os wait rounds soc buf s =
     bindr (handler_loop os wait rounds soc buf s) (\<lambda>s.
     bindr (tcp_api_close os wait soc s) (\<lambda>(_, s). Inr s))"

section \<open>The listener\<close>

text \<open>
  A round of the accepting thread: what happens during the waits of \<open>tcp_api_accept\<close> and after it. The
  result carries the sockets for which a handler was started; whether \<open>pthread_create\<close> could is not
  looked at.
\<close>

fun accept_handler ::
  "os \<Rightarrow> (('a tcp_scheme \<Rightarrow> 'a tcp_scheme) list \<times> ('a tcp_scheme \<Rightarrow> 'a tcp_scheme)) list \<Rightarrow> int \<Rightarrow> int list \<Rightarrow> 'a tcp_scheme \<Rightarrow>
     (int list \<times> 'a tcp_scheme) res" where
  "accept_handler os [] listener started s = Inl NoReturn"
| "accept_handler os ((others, after) # rounds) listener started s =
     bindr (tcp_api_accept others listener s) (\<lambda>(soc, s).
     let s = after s in
     if soc = -1 then Inr (started, s) else
     let (r, s) = sys_call os s in
     accept_handler os rounds listener (if r = 0 then started @ [soc] else started) s)"

text \<open>
  \<open>main\<close> up to the start of the accepting thread. \<open>blk\<close> and \<open>nblk\<close> are what the allocated blocks
  happen to contain, \<open>self\<close> and \<open>thread\<close> are the main and the receiving thread. The first component
  is the device and the listener, or \<open>None\<close> for a return of -1.
\<close>

definition main_start ::
  "os \<Rightarrow> nat \<Rightarrow> nat \<Rightarrow> netdev \<Rightarrow> netif_ip \<Rightarrow> 'a tcp_scheme \<Rightarrow> ((nat \<times> int) option \<times> 'a tcp_scheme) res" where
  "main_start os self thread blk nblk s =
     bindr (app_setup os s) (\<lambda>(r, s).
     if r = -1 then Inr (None, s) else
     let (dev, s) = netdev_alloc os NETDEV_TYPE_ETHERNET blk s in
     case dev of
       None \<Rightarrow> Inr (None, s)
     | Some d \<Rightarrow>
         let s = s\<lparr>net_devs := (net_devs s)(d := map_option (\<lambda>dev. dev\<lparr>nd_name := ''tap2''\<rparr>) (net_devs s d))\<rparr> in
         bindr (ethernet_open os self d (uint RAWDEV_TYPE_AUTO) s) (\<lambda>(r, s).
         if r = -1 then Inr (None, s) else
         bindr (ip_netif_register os d ''192.168.33.13'' ''255.255.0.0'' nblk s) (\<lambda>(_, s).
         bindr (ethernet_run os thread d s) (\<lambda>(_, s).
         bindr (tcp_api_open s) (\<lambda>(listener, s).
         if listener = -1 then Inr (None, s) else
         bindr (tcp_api_bind (os_endian os) listener 20000 s) (\<lambda>(r, s).
         if r = -1 then Inr (None, s) else
         bindr (tcp_api_listen listener s) (\<lambda>(r, s).
         if r = -1 then Inr (None, s) else Inr (Some (d, listener), s))))))))"

text \<open>
  The rest of \<open>main\<close>: the accepting thread is started, and the other threads run (\<open>until_signal\<close>)
  until the signal comes; \<open>join\<close> is what the receiving thread still does until it has seen the flag.
\<close>

definition main ::
  "os \<Rightarrow> 'a tcp_scheme waits \<Rightarrow> nat \<Rightarrow> nat \<Rightarrow> netdev \<Rightarrow> netif_ip \<Rightarrow> ('a tcp_scheme \<Rightarrow> 'a tcp_scheme) \<Rightarrow>
     ('a tcp_scheme \<Rightarrow> 'a tcp_scheme) \<Rightarrow> 'a tcp_scheme \<Rightarrow> (int \<times> 'a tcp_scheme) res" where
  "main os wait self thread blk nblk until_signal join s =
     bindr (main_start os self thread blk nblk s) (\<lambda>(started, s).
     case started of
       None \<Rightarrow> Inr (-1, s)
     | Some (d, listener) \<Rightarrow>
         let (_, s) = sys_call os s; s = until_signal s in
         bindr (tcp_api_close os wait listener s) (\<lambda>(r, s).
         if r = -1 then Inr (-1, s) else
         bindr (ethernet_close join self (Some d) s) (\<lambda>(_, s). Inr (0, s))))"

section \<open>The server starts\<close>

text \<open>Everything the server asks of the operating system succeeds.\<close>

definition os_works :: "os \<Rightarrow> bool" where
  "os_works os \<longleftrightarrow> (\<forall>k. os_malloc os k) \<and> (\<forall>k. os_ret os k \<noteq> -1)"

lemma app_setup_run:
  assumes "os_works os" "drivers s = []" "protos s = []" "protocols s = []"
  shows "\<exists>k t. app_setup os s = Inr (0, s\<lparr>drivers := [ethernet_def], arp_timestamp := t,
      protos := [\<lparr>np_type = NETDEV_PROTO_ARP, np_handler = arp_rx_handler\<rparr>, \<lparr>np_type = NETDEV_PROTO_IP, np_handler = ip_rx_handler\<rparr>],
      tcp_mutex := False, protocols := [\<lparr>ipp_type = 6, ipp_handler = tcp_rx_handler\<rparr>], sys_tick := k\<rparr>)"
  using assms
  by (auto simp: app_setup_def os_works_def ethernet_init_def ip_init_def arp_init_def tcp_init_def netdev_driver_register_def
      netdev_proto_register_def ip_add_protocol_def sys_defs Let_def)

lemma tap_open:
  assumes "os_works os" "net_devs s d = Some dev" "nd_name dev = ''tap2''" "length (nd_addr dev) = 16" "length (nd_broadcast dev) = 16"
  shows "\<exists>s1. ethernet_open os self d 0 s = Inr (0, s1)"
proof -
  define t where "t = s\<lparr>sys_fds := os_ret os (Suc (Suc (Suc (sys_tick s)))) # sys_fds s, sys_tick := Suc (Suc (Suc (Suc (Suc (sys_tick s)))))\<rparr>"
  have w: "\<exists>b. mem_write (nd_broadcast dev) 0 ETHERNET_ADDR_BROADCAST = Inr b"
    using assms(5) by (simp add: mem_write_def ETHERNET_ADDR_BROADCAST_def)
  have addr: "\<exists>r a u. tap_dev_addr os (nd_addr dev) 6 t = Inr (r, a, u)"
    using assms(4) by (auto simp: tap_dev_addr_def sys_defs Let_def mem_read_def mem_write_def split: option.split)
  show ?thesis
    using assms w addr
    by (auto simp: ethernet_open_def os_works_def sys_malloc_def sys_open_def sys_call_def rawdev_alloc_def rawdev_detect_type_def
        raw_open_def tap_dev_open_def raw_addr_def Let_def t_def)
qed

text \<open>The address and the mask of the server, in network byte order.\<close>

definition app_addr :: "endian \<Rightarrow> u32" where
  "app_addr e = load32 e 192 168 33 13"

definition app_mask :: "endian \<Rightarrow> u32" where
  "app_mask e = load32 e 255 255 0 0"

lemma app_digits: "fmt_d 192 = ''192''" "fmt_d 168 = ''168''" "fmt_d 33 = ''33''" "fmt_d 13 = ''13''" "fmt_d 255 = ''255''" "fmt_d 0 = ''0''"
  by (simp_all add: fmt_d.simps [of 192] fmt_d.simps [of 19] fmt_d.simps [of "Suc 0"] fmt_d.simps [of 168] fmt_d.simps [of 16]
      fmt_d.simps [of 33] fmt_d.simps [of 3] fmt_d.simps [of 13] fmt_d.simps [of 255] fmt_d.simps [of 25] fmt_d.simps [of 2]
      fmt_d.simps [of 0] digit_char_def)

lemma app_addr_parsed: "ip_addr_pton e ''192.168.33.13'' x = (0, app_addr e)" "ip_addr_pton e ''255.255.0.0'' x = (0, app_mask e)"
proof -
  have ntop: "ip_addr_ntop e (app_addr e) 16 = ''192.168.33.13''" "ip_addr_ntop e (app_mask e) 16 = ''255.255.0.0''"
    by (simp_all add: ip_addr_ntop_def app_addr_def app_mask_def bytes32_load32 snprintf_def app_digits Let_def)
  show "ip_addr_pton e ''192.168.33.13'' x = (0, app_addr e)" "ip_addr_pton e ''255.255.0.0'' x = (0, app_mask e)"
    using ip_addr_text [of e "app_addr e" x] ip_addr_text [of e "app_mask e" x] by (simp_all add: ntop)
qed

definition app_netif :: "endian \<Rightarrow> nat \<Rightarrow> netif_ip \<Rightarrow> netif_ip" where
  "app_netif e d blk = blk\<lparr>if_family := NETIF_FAMILY_IPV4, unicast := app_addr e, netmask := app_mask e,
     network := app_addr e AND app_mask e, broadcast := (app_addr e AND app_mask e) OR NOT (app_mask e), if_dev := Some d\<rparr>"

lemma app_register:
  assumes "os_works os" "net_devs s d = Some dev" "nd_ifs dev = []"
  shows "\<exists>n. ip_netif_register os d ''192.168.33.13'' ''255.255.0.0'' blk s =
    Inr (Some n, s\<lparr>sys_tick := Suc (sys_tick s), default_netif := Some n, net_ifs := (net_ifs s)(n \<mapsto> app_netif (os_endian os) d blk),
      net_devs := (net_devs s)(d \<mapsto> dev\<lparr>nd_ifs := [n]\<rparr>)\<rparr>)"
  using assms
  by (simp add: ip_netif_register_def os_works_def sys_malloc_def app_addr_parsed netdev_add_netif_def app_netif_def)

lemma app_port: "hton16 e 20000 \<noteq> 0"
proof -
  have "hton16 Little 20000 \<noteq> 0" "hton16 Big 20000 \<noteq> 0" by code_simp+
  then show ?thesis by (cases e) simp_all
qed

definition app_listener :: "endian \<Rightarrow> tcp_cb" where
  "app_listener e = tcp_cb_zero\<lparr>cb_used := True, cb_port := hton16 e 20000, cb_state := LISTEN\<rparr>"

lemma app_sockets:
  assumes "cb_table s = (\<lambda>_. tcp_cb_zero)" "\<not> tcp_mutex s"
  obtains s1 s2 s3 where "tcp_api_open s = Inr (0, s1)" "tcp_api_bind e 0 20000 s1 = Inr (0, s2)" "tcp_api_listen 0 s2 = Inr (0, s3)"
    "s3 = s\<lparr>cb_table := (\<lambda>_. tcp_cb_zero)(0 := app_listener e), tcp_mutex := False\<rparr>"
proof -
  let ?s1 = "tcp_unlock (upd_cb 0 (\<lambda>cb. cb\<lparr>cb_used := True\<rparr>) (s\<lparr>tcp_mutex := True\<rparr>))"
  let ?s2 = "tcp_unlock (upd_cb 0 (\<lambda>cb. cb\<lparr>cb_port := hton16 e 20000\<rparr>) (?s1\<lparr>tcp_mutex := True\<rparr>))"
  let ?s3 = "tcp_unlock (upd_cb 0 (\<lambda>cb. cb\<lparr>cb_state := LISTEN\<rparr>) (?s2\<lparr>tcp_mutex := True\<rparr>))"
  have "find (\<lambda>i. IS_FREE_CB (cb_table s i)) [0..<TCP_CB_TABLE_SIZE] = Some 0"
    by (rule find_least) (simp_all add: assms(1) IS_FREE_CB_def tcp_cb_zero_def)
  note 1 = open_run [OF this assms(2)]
  have 2: "tcp_api_bind e (int 0) 20000 ?s1 = Inr (0, ?s2)"
    by (rule bind_run) (simp_all add: assms(1) tcp_cb_zero_def upd_cb_def tcp_unlock_def app_port [symmetric] del: of_nat_0)
  have 3: "tcp_api_listen 0 ?s2 = Inr (0, ?s3)"
    by (simp add: tcp_api_listen_def tcp_lock_def TCP_SOCKET_INVALID_def Let_def assms(1) tcp_cb_zero_def upd_cb_def tcp_unlock_def app_port)
  show ?thesis
    by (rule that [of ?s1 ?s2 ?s3]) (use 1 2 3 in \<open>simp_all add: assms(1) upd_cb_def tcp_unlock_def app_listener_def\<close>)
qed

lemma app_device:
  assumes "os_works os" "drivers s = [ethernet_def]" "length (nd_addr blk) = 16" "length (nd_broadcast blk) = 16"
  obtains s1 s2 d fd addr dev where "netdev_alloc os NETDEV_TYPE_ETHERNET blk s = (Some d, s1)"
    "ethernet_open os self d 0 (s1\<lparr>net_devs := (net_devs s1)(d := map_option (\<lambda>dev. dev\<lparr>nd_name := ''tap2''\<rparr>) (net_devs s1 d))\<rparr>) = Inr (0, s2)"
    "\<exists>t. s2 = s\<lparr>devices := d # devices s, sys_fds := fd # sys_fds s, sys_tick := t, net_devs := (net_devs s)(d \<mapsto> dev)\<rparr>"
    "dev_open s2 d addr fd" "length addr = 6" "nd_ifs dev = []" "unat (nd_mtu dev) = 1500" "nd_flags dev = NETDEV_FLAG_BROADCAST"
    "take 6 (nd_addr blk) \<noteq> ETHERNET_ADDR_ANY \<longrightarrow> addr = take 6 (nd_addr blk)"
proof -
  let ?d = "sys_tick s"
  define dev where "dev = blk\<lparr>nd_ifs := [], nd_type := NETDEV_TYPE_ETHERNET, nd_mtu := 1500, nd_flags := NETDEV_FLAG_BROADCAST,
      nd_hlen := 14, nd_alen := 6, nd_ops := ethernet_ops\<rparr>"
  define s1 where "s1 = s\<lparr>sys_tick := Suc ?d, net_devs := (net_devs s)(?d \<mapsto> dev), devices := ?d # devices s\<rparr>"
  have alloc: "netdev_alloc os NETDEV_TYPE_ETHERNET blk s = (Some ?d, s1)"
    using assms(1,2) by (simp add: netdev_alloc_def ethernet_def_def os_works_def sys_malloc_def s1_def dev_def)
  define s1' where "s1' = s1\<lparr>net_devs := (net_devs s1)(?d := map_option (\<lambda>dev. dev\<lparr>nd_name := ''tap2''\<rparr>) (net_devs s1 ?d))\<rparr>"
  have dev': "net_devs s1' ?d = Some (dev\<lparr>nd_name := ''tap2''\<rparr>)" by (simp add: s1'_def s1_def)
  have len: "length (nd_addr (dev\<lparr>nd_name := ''tap2''\<rparr>)) = 16" "length (nd_broadcast (dev\<lparr>nd_name := ''tap2''\<rparr>)) = 16"
    using assms(3,4) by (simp_all add: dev_def)
  obtain s2 where open2: "ethernet_open os self ?d 0 s1' = Inr (0, s2)"
    using tap_open [OF assms(1) dev' _ len] by auto
  obtain fd t addr bcast raw where s2: "rd_priv raw = Some fd" "length addr = 16"
    "take 6 (nd_addr dev) \<noteq> ETHERNET_ADDR_ANY \<longrightarrow> addr = nd_addr dev"
    "s2 = s1'\<lparr>sys_fds := fd # sys_fds s1', sys_tick := t,
       net_devs := (net_devs s1')(?d \<mapsto> dev\<lparr>nd_name := ''tap2'', nd_priv := Some \<lparr>ep_raw = Some raw, ep_thread = self, ep_terminate = False\<rparr>,
         nd_addr := addr, nd_broadcast := bcast\<rparr>)\<rparr>"
    using ethernet_open_cases [OF open2 dev' len(1)] by simp blast
  have addr: "take 6 (nd_addr blk) \<noteq> ETHERNET_ADDR_ANY \<longrightarrow> take 6 addr = take 6 (nd_addr blk)" using s2(3) by (simp add: dev_def)
  show thesis
    by (rule that [OF alloc open2 [unfolded s1'_def], of "dev\<lparr>nd_name := ''tap2'', nd_priv := Some \<lparr>ep_raw = Some raw, ep_thread = self, ep_terminate = False\<rparr>,
        nd_addr := addr, nd_broadcast := bcast\<rparr>" fd "take 6 addr"])
      (use addr in \<open>auto simp: s2(1,2,4) s1'_def s1_def dev_open_def dev_fd_def dev_def\<close>)
qed

lemma app_receiver:
  assumes "net_devs s d = Some dev" "nd_priv dev = Some priv"
  shows "\<exists>r th k. ethernet_run os thread d s = Inr (r, s\<lparr>sys_tick := k, net_devs := (net_devs s)(d \<mapsto> dev\<lparr>nd_priv := Some (priv\<lparr>ep_thread := th\<rparr>)\<rparr>)\<rparr>)"
proof (cases "os_ret os (sys_tick s) = 0")
  case True
  then show ?thesis using assms by (auto simp: ethernet_run_def sys_call_def set_priv_def)
next
  case False
  have "(net_devs s)(d \<mapsto> dev\<lparr>nd_priv := Some (priv\<lparr>ep_thread := ep_thread priv\<rparr>)\<rparr>) = net_devs s"
    using assms by (simp add: fun_upd_idem)
  then have "s\<lparr>sys_tick := Suc (sys_tick s)\<rparr> = s\<lparr>sys_tick := Suc (sys_tick s),
      net_devs := (net_devs s)(d \<mapsto> dev\<lparr>nd_priv := Some (priv\<lparr>ep_thread := ep_thread priv\<rparr>)\<rparr>)\<rparr>"
    by simp
  moreover have "ethernet_run os thread d s = Inr (-1, s\<lparr>sys_tick := Suc (sys_tick s)\<rparr>)"
    using False assms by (simp add: ethernet_run_def sys_call_def)
  ultimately show ?thesis by metis
qed

lemma app_started:
  assumes "os_works os" "drivers s = []" "protos s = []" "protocols s = []" "cb_table s = (\<lambda>_. tcp_cb_zero)"
    and "length (nd_addr blk) = 16" "length (nd_broadcast blk) = 16"
  shows "\<exists>d n s' ha fd. main_start os self thread blk nblk s = Inr (Some (d, 0), s') \<and>
    tcp_host s' d n (app_addr (os_endian os)) ha \<and> dev_open s' d ha fd \<and> sys_fds s' = fd # sys_fds s \<and> devices s' = d # devices s \<and>
    default_netif s' = Some n \<and> net_ifs s' n = Some (app_netif (os_endian os) d nblk) \<and> \<not> tcp_mutex s' \<and>
    (\<exists>dev. net_devs s' d = Some dev \<and> unat (nd_mtu dev) = 1500 \<and> nd_flags dev = NETDEV_FLAG_BROADCAST) \<and>
    (take 6 (nd_addr blk) \<noteq> ETHERNET_ADDR_ANY \<longrightarrow> ha = take 6 (nd_addr blk)) \<and>
    cb_table s' = (\<lambda>_. tcp_cb_zero)(0 := app_listener (os_endian os))"
proof -
  obtain s1 where s1: "app_setup os s = Inr (0, s1)" "drivers s1 = [ethernet_def]" "\<not> tcp_mutex s1" "cb_table s1 = cb_table s"
    "sys_fds s1 = sys_fds s" "devices s1 = devices s"
    "protos s1 = [\<lparr>np_type = NETDEV_PROTO_ARP, np_handler = arp_rx_handler\<rparr>, \<lparr>np_type = NETDEV_PROTO_IP, np_handler = ip_rx_handler\<rparr>]"
    "protocols s1 = [\<lparr>ipp_type = 6, ipp_handler = tcp_rx_handler\<rparr>]"
    using app_setup_run [OF assms(1-4)] by fastforce
  obtain a2 s2 d fd ha dev where s2: "netdev_alloc os NETDEV_TYPE_ETHERNET blk s1 = (Some d, a2)"
    "ethernet_open os self d 0 (a2\<lparr>net_devs := (net_devs a2)(d := map_option (\<lambda>dev. dev\<lparr>nd_name := ''tap2''\<rparr>) (net_devs a2 d))\<rparr>) = Inr (0, s2)"
    and s2_eq: "\<exists>t. s2 = s1\<lparr>devices := d # devices s1, sys_fds := fd # sys_fds s1, sys_tick := t, net_devs := (net_devs s1)(d \<mapsto> dev)\<rparr>"
    and dev: "dev_open s2 d ha fd" "length ha = 6" "nd_ifs dev = []" "unat (nd_mtu dev) = 1500" "nd_flags dev = NETDEV_FLAG_BROADCAST"
      "take 6 (nd_addr blk) \<noteq> ETHERNET_ADDR_ANY \<longrightarrow> ha = take 6 (nd_addr blk)"
    by (rule app_device [OF assms(1) s1(2) assms(6,7), of self])
  have s2d: "net_devs s2 d = Some dev" using s2_eq by auto
  obtain n where n: "ip_netif_register os d ''192.168.33.13'' ''255.255.0.0'' nblk s2 =
      Inr (Some n, s2\<lparr>sys_tick := Suc (sys_tick s2), default_netif := Some n,
        net_ifs := (net_ifs s2)(n \<mapsto> app_netif (os_endian os) d nblk), net_devs := (net_devs s2)(d \<mapsto> dev\<lparr>nd_ifs := [n]\<rparr>)\<rparr>)"
      (is "_ = Inr (_, ?s3)") using app_register [OF assms(1) s2d dev(3)] by blast
  obtain priv where priv: "nd_priv (dev\<lparr>nd_ifs := [n]\<rparr>) = Some priv"
    using dev(1) s2d by (cases "nd_priv dev") (auto simp: dev_open_def dev_fd_def)
  obtain r th k where run: "ethernet_run os thread d ?s3 =
      Inr (r, ?s3\<lparr>sys_tick := k, net_devs := (net_devs ?s3)(d \<mapsto> dev\<lparr>nd_ifs := [n], nd_priv := Some (priv\<lparr>ep_thread := th\<rparr>)\<rparr>)\<rparr>)"
      (is "_ = Inr (_, ?s4)") using app_receiver [of ?s3 d _ priv os thread] priv by auto
  have s4: "cb_table ?s4 = (\<lambda>_. tcp_cb_zero)" "\<not> tcp_mutex ?s4" using s2_eq s1(3,4) assms(5) by auto
  obtain s5 s6 s7 where s7: "tcp_api_open ?s4 = Inr (0, s5)" "tcp_api_bind (os_endian os) 0 20000 s5 = Inr (0, s6)" "tcp_api_listen 0 s6 = Inr (0, s7)"
    "s7 = ?s4\<lparr>cb_table := (\<lambda>_. tcp_cb_zero)(0 := app_listener (os_endian os)), tcp_mutex := False\<rparr>"
    by (rule app_sockets [OF s4])
  have "main_start os self thread blk nblk s = Inr (Some (d, 0), s7)"
    using s1(1) s2 n run s7(1-3) by (simp add: main_start_def)
  moreover have "tcp_host s7 d n (app_addr (os_endian os)) ha"
    using s2_eq dev(1,2) s2d s1(7,8) by (auto simp: s7(4) tcp_host_def dev_open_def protos_distinct_def find_proto_def netdev_get_netif_def app_netif_def)
  moreover have "dev_open s7 d ha fd" using dev(1) s2d priv by (auto simp: s7(4) dev_open_def dev_fd_def)
  ultimately show ?thesis using s2_eq s1(5,6) dev(4-6) by (auto simp: s7(4))
qed

text \<open>
  Property C15: where the operating system does what it is asked, the echo server comes up from the
  state it is loaded with, whatever its blocks contain: its device is open with a hardware address, the
  device has the interface with the address 192.168.33.13, the stack answers for IP and TCP on it, and
  socket 0 listens on port 20000 with every other control block free.
\<close>

theorem echo_server_starts:
  assumes "os_works os" "drivers s = []" "protos s = []" "protocols s = []" "cb_table s = (\<lambda>_. tcp_cb_zero)"
    and "length (nd_addr blk) = 16" "length (nd_broadcast blk) = 16"
  shows "\<exists>d n s' ha fd. main_start os self thread blk nblk s = Inr (Some (d, 0), s') \<and>
    tcp_host s' d n (app_addr (os_endian os)) ha \<and> dev_open s' d ha fd \<and> sys_fds s' = fd # sys_fds s \<and> devices s' = d # devices s \<and>
    default_netif s' = Some n \<and> net_ifs s' n = Some (app_netif (os_endian os) d nblk) \<and> \<not> tcp_mutex s' \<and>
    (\<exists>dev. net_devs s' d = Some dev \<and> unat (nd_mtu dev) = 1500 \<and> nd_flags dev = NETDEV_FLAG_BROADCAST) \<and>
    (take 6 (nd_addr blk) \<noteq> ETHERNET_ADDR_ANY \<longrightarrow> ha = take 6 (nd_addr blk)) \<and>
    cb_table s' = (\<lambda>_. tcp_cb_zero)(0 := app_listener (os_endian os))"
  by (rule app_started [OF assms])

definition echo_loaded :: tcp where
  "echo_loaded = (tcp_start 0 (plain_dev [] 0) 0 (plain_netif 0) None (\<lambda>_. tcp_cb_zero))
     \<lparr>net_devs := \<lambda>_. None, net_ifs := \<lambda>_. None, devices := [], drivers := [], protos := [], protocols := []\<rparr>"

theorem echo_server_starts_witness:
  "\<exists>d n s' ha fd. main_start (plain_os 50 60) 1 2 (plain_dev (replicate 6 0) 0) (plain_netif 0) echo_loaded = Inr (Some (d, 0), s') \<and>
    tcp_host s' d n 0x0d21a8c0 ha \<and> dev_open s' d ha fd"
proof -
  have h: "os_works (plain_os 50 60)" "drivers echo_loaded = []" "protos echo_loaded = []" "protocols echo_loaded = []"
    "cb_table echo_loaded = (\<lambda>_. tcp_cb_zero)" "length (nd_addr (plain_dev (replicate 6 0) 0)) = 16"
    "length (nd_broadcast (plain_dev (replicate 6 0) 0)) = 16"
    by (simp_all add: os_works_def echo_loaded_def plain_dev_def)
  have "app_addr (os_endian (plain_os 50 60)) = 0x0d21a8c0" unfolding app_addr_def plain_os_simps by code_simp
  with echo_server_starts [OF h, of 1 2 "plain_netif 0"] show ?thesis by metis
qed

section \<open>A message is echoed\<close>

text \<open>A round of the handler that finds a message in the window sends it back.\<close>

lemma handler_round:
  fixes s :: "'a tcp_scheme"
  assumes host: "reaches s n peer self ha addr fd" "\<not> tcp_mutex s"
    and cb: "cb = cb_table s i" "i < TCP_CB_TABLE_SIZE" "cb_used cb" "cb_state cb = ESTABLISHED" "cb_iface cb = Some n" "peer = peer_addr cb" "cb_txq cb = []"
      "length (cb_window cb) = TCP_WINDOW_SIZE"
    and data: "rcv_data cb = data" "data \<noteq> []" "length data \<le> 1024"
      "unat (txq_snt cb) + length data \<le> unat (snd_wnd cb)" "length data \<le> unat (tcp_send_wnd cb)"
    and os: "e = os_endian os" "\<forall>k. os_malloc os k" "\<forall>k. os_timeofday os k = Some now" "\<forall>k. os_ret os k = int (14 + max 46 (40 + length data))"
    and r: "before_send r = (\<lambda>s. s)"
  shows "\<exists>s' win wnd hdr. handler_loop os wait (r # rounds) (int i) buf s =
      (if take 4 data = quit then Inr (after_send r s')
       else handler_loop os wait rounds (int i) (data @ drop (length data) buf) (after_send r s')) \<and>
    emits fd (tcp_frame e ha addr self peer (ip_next_id s) (tcp_segment e self peer hdr data)) (cb_table s') s s' \<and>
    hdr = tcp_tx_hdr e (cb\<lparr>cb_window := win, rcv_wnd := wnd\<rparr>) (snd_nxt cb) (rcv_nxt cb) 0x18"
proof -
  have a: "cb_used (cb_table s i)" "cb_state (cb_table s i) = ESTABLISHED" "length (cb_window (cb_table s i)) = TCP_WINDOW_SIZE"
    "rcv_data (cb_table s i) \<noteq> []" using cb data by simp_all
  obtain w win wnd where w: "tcp_api_recv (while_recv r) (int i) 1024 s = Inr (int (length data), data, s\<lparr>cb_table := (cb_table s)(i := w)\<rparr>)"
    "w = cb\<lparr>cb_window := win, rcv_wnd := wnd\<rparr>"
    using recv_run [OF cb(2) a(1) host(2) a(2-4), of "while_recv r" 1024] data(1,3) cb(1) by auto
  let ?s1 = "s\<lparr>cb_table := (cb_table s)(i := w)\<rparr>"
  define hdr where "hdr = tcp_tx_hdr e w (snd_nxt w) (rcv_nxt w) 0x18"
  have s1: "reaches ?s1 n peer self ha addr fd" "\<not> tcp_mutex ?s1"
    using reaches_cong [of s ?s1 n peer self ha addr fd] host by (simp_all add: same_net_def)
  have w1: "w = cb_table ?s1 i" "cb_used w" "cb_state w = ESTABLISHED" "cb_iface w = Some n" "peer = peer_addr w" "cb_txq w = []"
    "unat (txq_snt w) + length data \<le> unat (snd_wnd w)" "length data \<le> unat (tcp_send_wnd w)" "0 < length data" "length data \<le> 1420"
    using cb data by (simp_all add: w(2) tcp_send_wnd_def)
  obtain s' where s': "tcp_api_send os wait (while_send r) (int i) data ?s1 = Inr (int (length data), s')"
    "emits fd (tcp_frame e ha addr self peer (ip_next_id ?s1) (tcp_segment e self peer hdr data)) (cb_table s') ?s1 s'"
    using send_data [OF s1 w1(1) cb(2) w1(2-10) os(1) hdr_def os(2-4), of wait "while_send r"] by blast
  have e: "emits fd (tcp_frame e ha addr self peer (ip_next_id s) (tcp_segment e self peer hdr data)) (cb_table s') s s'"
    using s'(2) by (simp add: emits_def)
  have q: "take 4 (data @ drop (length data) buf) = quit \<and> 4 \<le> length data \<longleftrightarrow> take 4 data = quit"
    by (cases "4 \<le> length data") (auto simp: quit_def dest: arg_cong [where f = length])
  have "handler_loop os wait (r # rounds) (int i) buf s =
      (if take 4 data = quit then Inr (after_send r s')
       else handler_loop os wait rounds (int i) (data @ drop (length data) buf) (after_send r s'))"
    using w(1) s'(1) q by (auto simp: r)
  moreover have "hdr = tcp_tx_hdr e (cb\<lparr>cb_window := win, rcv_wnd := wnd\<rparr>) (snd_nxt cb) (rcv_nxt cb) 0x18" by (simp add: hdr_def w(2))
  ultimately show ?thesis using e by blast
qed

text \<open>A message is sent, and the stack of the peer takes it and acknowledges all that was sent before.\<close>

lemma message_taken:
  fixes a :: "'a tcp_scheme" and b :: "'b tcp_scheme"
  assumes hosta: "reaches a na ipb ipa hab haa fda" "\<not> tcp_mutex a"
    and hostb: "tcp_host b db nb ipb hab" "reaches b nb ipa ipb haa hab fdb" "\<not> tcp_mutex b" "length haa = 6"
    and ca: "ca = cb_table a i" "i < TCP_CB_TABLE_SIZE" "cb_used ca" "cb_state ca = ESTABLISHED" "cb_iface ca = Some na" "ipb = peer_addr ca" "cb_txq ca = []"
    and cb: "cb = cb_table b j" "j < TCP_CB_TABLE_SIZE" "cb_state cb = ESTABLISHED" "cb_iface cb = Some nb" "ipa = peer_addr cb"
      "conn_only (cb_table b) nb j" "length (cb_window cb) = TCP_WINDOW_SIZE" "rcv_nxt cb < rcv_nxt cb + ucast (rcv_wnd cb)"
    and conn: "cb_port cb = peer_port ca" "peer_port cb = cb_port ca" "rcv_nxt cb = snd_nxt ca" "snd_nxt cb = rcv_nxt ca" "snd_una cb \<le> snd_nxt cb"
    and data: "data \<noteq> []" "length data \<le> 1420" "length data \<le> unat (tcp_send_wnd ca)" "length data \<le> unat (rcv_wnd cb)"
      "unat (txq_snt ca) + length data \<le> unat (snd_wnd ca)"
    and osa: "e = os_endian osa" "\<forall>k. os_malloc osa k" "\<forall>k. os_timeofday osa k = Some ta"
      "\<forall>k. os_ret osa k = int (14 + max 46 (40 + length data))"
    and osb: "e = os_endian osb" "os_fine osb tb"
  obtains a' b' en w hdr ack where "tcp_api_send osa waita others (int i) data a = Inr (int (length data), a')"
    "emits fda (tcp_frame e hab haa ipa ipb (ip_next_id a) (tcp_segment e ipa ipb hdr data)) (cb_table a') a a'"
    "cb_table a' = (cb_table a)(i := ca\<lparr>cb_txq := [en], txq_snt := txq_snt ca + of_nat (length data),
      cb_timeout := fst ta + USER_TIMEOUT, snd_nxt := snd_nxt ca + of_nat (length data)\<rparr>)"
    "receive osb waitb db (tcp_frame e hab haa ipa ipb (ip_next_id a) (tcp_segment e ipa ipb hdr data)) b = Inr b'"
    "emits fdb ack (cb_table b') b b'" "cb_table b' = (cb_table b)(j := w)" "rcv_data w = rcv_data cb @ data" "length (cb_window w) = TCP_WINDOW_SIZE"
    "w = (ack_update (rcv_nxt cb) (snd_nxt cb) (rcv_wnd ca) tb cb)\<lparr>cb_window := cb_window w,
      rcv_nxt := rcv_nxt cb + of_nat (length data), rcv_wnd := rcv_wnd cb - of_nat (length data)\<rparr>"
proof -
  have len: "0 < length data" "length data \<le> 1460" using data(1,2) by simp_all
  define hdr where "hdr = tcp_tx_hdr e ca (snd_nxt ca) (rcv_nxt ca) 0x18"
  have h: "th_dst hdr = cb_port cb" "th_src hdr = peer_port cb" "th_sum hdr = 0" "th_flg hdr = 0x18" "th_off hdr = 0x50"
    "ntoh32 e (th_seq hdr) = rcv_nxt cb" "snd_una cb \<le> ntoh32 e (th_ack hdr)" "ntoh32 e (th_ack hdr) \<le> snd_nxt cb"
    and h': "ntoh32 e (th_ack hdr) = snd_nxt cb" "ntoh16 e (th_win hdr) = rcv_wnd ca"
    using conn by (simp_all add: hdr_def tcp_tx_hdr_def)
  show thesis
    using that send_data [OF hosta ca data(5,3) len(1) data(2) osa(1) hdr_def osa(2-4), of waita others]
      receive_data [OF hostb cb h len data(4) osb refl, of waitb "ip_next_id a"] unfolding h' by blast
qed

text \<open>A message that arrives at an empty window is what the next receive returns, and what it acknowledges is.\<close>

lemma message_read:
  fixes s :: "'a tcp_scheme"
  assumes host: "tcp_host s d n self ha" "reaches s n peer self ha' ha fd" "\<not> tcp_mutex s" "length ha' = 6"
    and cb: "cb = cb_table s i" "i < TCP_CB_TABLE_SIZE" "cb_state cb = ESTABLISHED" "cb_iface cb = Some n" "peer = peer_addr cb"
      "conn_only (cb_table s) n i" "length (cb_window cb) = TCP_WINDOW_SIZE" "rcv_nxt cb < rcv_nxt cb + ucast (rcv_wnd cb)"
    and used: "cb_used cb" "rcv_data cb = []"
    and hdr: "th_dst hdr = cb_port cb" "th_src hdr = peer_port cb" "th_sum hdr = 0" "th_flg hdr = 0x18" "th_off hdr = 0x50"
      "ntoh32 e (th_seq hdr) = rcv_nxt cb" "snd_una cb \<le> ntoh32 e (th_ack hdr)" "ntoh32 e (th_ack hdr) \<le> snd_nxt cb"
    and data: "data \<noteq> []" "length data \<le> 1024" "length data \<le> unat (rcv_wnd cb)"
    and os: "e = os_endian os" "os_fine os now"
  shows "\<exists>s' s'' ack. receive os wait d (tcp_frame e ha ha' peer self ident (tcp_segment e peer self hdr data)) s = Inr s' \<and>
    emits fd ack (cb_table s') s s' \<and> tcp_api_recv others (int i) 1024 s' = Inr (int (length data), data, s'') \<and>
    snd_una (cb_table s' i) = ntoh32 e (th_ack hdr)"
proof -
  have len: "0 < length data" "length data \<le> 1460" using data(1,2) by simp_all
  obtain s' w ack where w: "receive os wait d (tcp_frame e ha ha' peer self ident (tcp_segment e peer self hdr data)) s = Inr s'"
    "emits fd ack (cb_table s') s s'" "cb_table s' = (cb_table s)(i := w)" "rcv_data w = data" "length (cb_window w) = TCP_WINDOW_SIZE"
    "cb_state w = ESTABLISHED" "cb_used w"
    "w = (ack_update (rcv_nxt cb) (ntoh32 e (th_ack hdr)) (ntoh16 e (th_win hdr)) now cb)\<lparr>cb_window := cb_window w,
      rcv_nxt := rcv_nxt cb + of_nat (length data), rcv_wnd := rcv_wnd cb - of_nat (length data)\<rparr>"
    using receive_data [OF host cb hdr len data(3) os refl, of wait ident] used by auto
  have "snd_una w = ntoh32 e (th_ack hdr)" using hdr(7) by (subst w(8)) (auto simp: ack_update_def Let_def)
  moreover obtain s'' where "tcp_api_recv others (int i) 1024 s' = Inr (int (length data), data, s'')"
    using recv_run [of i s' others 1024] cb(2) emits_simps(2) [OF w(2)] host(3) w(3-7) data(1,2) by auto
  moreover have "cb_table s' i = w" by (simp add: w(3))
  ultimately show ?thesis using w(1,2) by blast
qed

text \<open>
  Property C4: a message of up to 1024 bytes that a client sends over an established connection is
  echoed. The frame that \<open>tcp_api_send\<close> of the client emits is taken by the server; the round of the
  handler that reads it emits one frame, and when that reaches the client, \<open>tcp_api_recv\<close> there returns
  the same bytes and the message is acknowledged, even if the acknowledgement that the server sent
  before was lost. The handler goes on to its next round unless the message starts with "quit". The
  receiving threads (\<open>osb\<close>, \<open>osc\<close>) and the senders (\<open>osa\<close>, \<open>osh\<close>) have their own results of system calls.
\<close>

theorem echo_round_trip:
  fixes a :: "'a tcp_scheme" and b :: "'b tcp_scheme"
  assumes hosta: "tcp_host a da na ipa haa" "reaches a na ipb ipa hab haa fda" "\<not> tcp_mutex a"
    and hostb: "tcp_host b db nb ipb hab" "reaches b nb ipa ipb haa hab fdb" "\<not> tcp_mutex b"
    and ca: "ca = cb_table a i" "i < TCP_CB_TABLE_SIZE" "cb_used ca" "cb_state ca = ESTABLISHED" "cb_iface ca = Some na" "ipb = peer_addr ca"
      "cb_txq ca = []" "conn_only (cb_table a) na i" "length (cb_window ca) = TCP_WINDOW_SIZE" "rcv_nxt ca < rcv_nxt ca + ucast (rcv_wnd ca)"
      "rcv_data ca = []"
    and cb: "cb = cb_table b j" "j < TCP_CB_TABLE_SIZE" "cb_used cb" "cb_state cb = ESTABLISHED" "cb_iface cb = Some nb" "ipa = peer_addr cb"
      "cb_txq cb = []" "conn_only (cb_table b) nb j" "length (cb_window cb) = TCP_WINDOW_SIZE" "rcv_nxt cb < rcv_nxt cb + ucast (rcv_wnd cb)"
      "rcv_data cb = []"
    and conn: "cb_port cb = peer_port ca" "peer_port cb = cb_port ca" "rcv_nxt cb = snd_nxt ca" "snd_nxt cb = rcv_nxt ca"
      "snd_una cb \<le> snd_nxt cb" "snd_una ca \<le> snd_nxt ca + of_nat (length data)"
    and data: "data \<noteq> []" "length data \<le> 1024" "length data \<le> unat (tcp_send_wnd ca)" "length data \<le> unat (rcv_wnd cb)"
      "unat (txq_snt ca) + length data \<le> unat (snd_wnd ca)" "unat (txq_snt cb) + length data \<le> unat (snd_wnd cb)"
      "unat (txq_snt cb) + length data \<le> unat (rcv_wnd ca)"
    and osa: "e = os_endian osa" "\<forall>k. os_malloc osa k" "\<forall>k. os_timeofday osa k = Some ta"
      "\<forall>k. os_ret osa k = int (14 + max 46 (40 + length data))"
    and osh: "e = os_endian osh" "\<forall>k. os_malloc osh k" "\<forall>k. os_timeofday osh k = Some th"
      "\<forall>k. os_ret osh k = int (14 + max 46 (40 + length data))"
    and osb: "e = os_endian osb" "os_fine osb tb" and osc: "e = os_endian osc" "os_fine osc tc"
    and r: "before_send r = (\<lambda>s. s)"
  shows "\<exists>a1 a2 a3 b1 b2 frame ack echo ack' r1 r2 r3 r4.
    tcp_api_send osa waita others (int i) data a = Inr (int (length data), a1) \<and> sys_sent a1 = sys_sent a @ [(fda, frame, r1)] \<and>
    receive osb waitb db frame b = Inr b1 \<and> sys_sent b1 = sys_sent b @ [(fdb, ack, r2)] \<and>
    handler_loop osh waitb (r # rounds) (int j) buf b1 =
      (if take 4 data = quit then Inr (after_send r b2)
       else handler_loop osh waitb rounds (int j) (data @ drop (length data) buf) (after_send r b2)) \<and>
    sys_sent b2 = sys_sent b1 @ [(fdb, echo, r3)] \<and>
    receive osc waita da echo a1 = Inr a2 \<and> sys_sent a2 = sys_sent a1 @ [(fda, ack', r4)] \<and>
    tcp_api_recv others' (int i) 1024 a2 = Inr (int (length data), data, a3) \<and>
    snd_una (cb_table a2 i) = snd_nxt ca + of_nat (length data)"
proof -
  have ha: "length haa = 6" "length hab = 6" using hosta(1) hostb(1) by (simp_all add: tcp_host_def)
  have len: "length data \<le> 1420" "length data \<le> unat (rcv_wnd ca)" using data by simp_all
  obtain a1 b1 en w hdr ack where 1: "tcp_api_send osa waita others (int i) data a = Inr (int (length data), a1)"
    "emits fda (tcp_frame e hab haa ipa ipb (ip_next_id a) (tcp_segment e ipa ipb hdr data)) (cb_table a1) a a1"
    "cb_table a1 = (cb_table a)(i := ca\<lparr>cb_txq := [en], txq_snt := txq_snt ca + of_nat (length data),
      cb_timeout := fst ta + USER_TIMEOUT, snd_nxt := snd_nxt ca + of_nat (length data)\<rparr>)"
    "receive osb waitb db (tcp_frame e hab haa ipa ipb (ip_next_id a) (tcp_segment e ipa ipb hdr data)) b = Inr b1"
    "emits fdb ack (cb_table b1) b b1" "cb_table b1 = (cb_table b)(j := w)" "rcv_data w = rcv_data cb @ data" "length (cb_window w) = TCP_WINDOW_SIZE"
    "w = (ack_update (rcv_nxt cb) (snd_nxt cb) (rcv_wnd ca) tb cb)\<lparr>cb_window := cb_window w,
      rcv_nxt := rcv_nxt cb + of_nat (length data), rcv_wnd := rcv_wnd cb - of_nat (length data)\<rparr>"
    by (rule message_taken [OF hosta(2,3) hostb ha(1) ca(1-7) cb(1,2,4-6,8-10) conn(1-5) data(1) len(1) data(3-5) osa osb])
  note a1 = emits_simps [OF 1(2)] and b1 = emits_simps [OF 1(5)]
  have w: "cb_used w" "cb_state w = ESTABLISHED" "cb_iface w = Some nb" "ipa = peer_addr w" "cb_txq w = []" "cb_port w = cb_port cb"
    "peer_port w = peer_port cb" "snd_nxt w = snd_nxt cb" "rcv_nxt w = rcv_nxt cb + of_nat (length data)" "txq_snt w = txq_snt cb"
    "snd_una w = snd_nxt cb" "snd_wnd w = snd_wnd cb \<or> snd_wnd w = rcv_wnd ca"
    using cb(3-7) conn(5) by (subst 1(9); auto simp: ack_update_def Let_def)+
  have w2: "w = cb_table b1 j" "rcv_data w = data" "unat (txq_snt w) + length data \<le> unat (snd_wnd w)" "length data \<le> unat (tcp_send_wnd w)"
    using w(8,10-12) data(2,6,7) cb(11) 1(6,7) by (auto simp: tcp_send_wnd_def)
  have hb: "reaches b1 nb ipa ipb haa hab fdb" "\<not> tcp_mutex b1" using hostb(2,3) reaches_cong [OF b1(3,4)] b1(2) by simp_all
  obtain b2 win wnd hdr2 where 2: "handler_loop osh waitb (r # rounds) (int j) buf b1 =
      (if take 4 data = quit then Inr (after_send r b2)
       else handler_loop osh waitb rounds (int j) (data @ drop (length data) buf) (after_send r b2))"
    "emits fdb (tcp_frame e haa hab ipb ipa (ip_next_id b1) (tcp_segment e ipb ipa hdr2 data)) (cb_table b2) b1 b2"
    "hdr2 = tcp_tx_hdr e (w\<lparr>cb_window := win, rcv_wnd := wnd\<rparr>) (snd_nxt w) (rcv_nxt w) 0x18"
    using handler_round [OF hb w2(1) cb(2) w(1-5) 1(8) w2(2) data(1,2) w2(3,4) osh r, of waitb rounds buf] by blast
  define ca' where "ca' = cb_table a1 i"
  have c: "cb_state ca' = ESTABLISHED" "cb_iface ca' = Some na" "ipb = peer_addr ca'" "conn_only (cb_table a1) na i" "length (cb_window ca') = TCP_WINDOW_SIZE"
    "rcv_nxt ca' < rcv_nxt ca' + ucast (rcv_wnd ca')" and c': "rcv_data ca' = []" "cb_used ca'" "length data \<le> unat (rcv_wnd ca')"
    using ca(1,3-11) len(2) by (simp_all add: ca'_def 1(3) conn_only_def rcv_data_def)
  have h: "th_dst hdr2 = cb_port ca'" "th_src hdr2 = peer_port ca'" "th_sum hdr2 = 0" "th_flg hdr2 = 0x18" "th_off hdr2 = 0x50"
    "ntoh32 e (th_seq hdr2) = rcv_nxt ca'" "snd_una ca' \<le> ntoh32 e (th_ack hdr2)" "ntoh32 e (th_ack hdr2) \<le> snd_nxt ca'"
    and h': "ntoh32 e (th_ack hdr2) = snd_nxt ca + of_nat (length data)"
    using conn w(6-9) by (simp_all add: ca'_def 1(3) 2(3) tcp_tx_hdr_def)
  have hc: "tcp_host a1 da na ipa haa" "reaches a1 na ipb ipa hab haa fda" "\<not> tcp_mutex a1"
    using hosta tcp_host_cong [OF a1(3,5)] reaches_cong [OF a1(3,4)] a1(2) by simp_all
  obtain a2 a3 ack' where 3: "receive osc waita da (tcp_frame e haa hab ipb ipa (ip_next_id b1) (tcp_segment e ipb ipa hdr2 data)) a1 = Inr a2"
    "emits fda ack' (cb_table a2) a1 a2" "tcp_api_recv others' (int i) 1024 a2 = Inr (int (length data), data, a3)"
    "snd_una (cb_table a2 i) = snd_nxt ca + of_nat (length data)"
    using message_read [OF hc ha(2) ca'_def ca(2) c c'(2,1) h data(1,2) c'(3) osc, of waita "ip_next_id b1" others'] unfolding h' by blast
  obtain r1 r2 r3 r4 where "sys_sent a1 = sys_sent a @ [(fda, tcp_frame e hab haa ipa ipb (ip_next_id a) (tcp_segment e ipa ipb hdr data), r1)]"
    "sys_sent b1 = sys_sent b @ [(fdb, ack, r2)]"
    "sys_sent b2 = sys_sent b1 @ [(fdb, tcp_frame e haa hab ipb ipa (ip_next_id b1) (tcp_segment e ipb ipa hdr2 data), r3)]"
    "sys_sent a2 = sys_sent a1 @ [(fda, ack', r4)]"
    using a1(9) b1(9) emits_simps(9) [OF 2(2)] emits_simps(9) [OF 3(2)] by blast
  then show ?thesis using 1(1,4) 2(1) 3(1,3,4) by blast
qed

definition silent_round :: "tcp round" where
  "silent_round = \<lparr>while_recv = [], before_send = (\<lambda>s. s), while_send = [], after_send = (\<lambda>s. s)\<rparr>"

theorem echo_round_trip_witness:
  "\<exists>a1 a2 a3 b1 b2 frame ack echo ack' r1 r2 r3 r4.
    tcp_api_send (plain_os 50 60) (\<lambda>_. []) [] 1 [104, 105] sender_example = Inr (2, a1) \<and> sys_sent a1 = [(7, frame, r1)] \<and>
    receive (plain_os 50 60) (\<lambda>_. []) 2 frame receiver_example = Inr b1 \<and> sys_sent b1 = [(8, ack, r2)] \<and>
    handler_loop (plain_os 50 60) (\<lambda>_. []) [silent_round, silent_round] 0 [] b1 =
      handler_loop (plain_os 50 60) (\<lambda>_. []) [silent_round] 0 [104, 105] b2 \<and> sys_sent b2 = sys_sent b1 @ [(8, echo, r3)] \<and>
    receive (plain_os 50 60) (\<lambda>_. []) 3 echo a1 = Inr a2 \<and> sys_sent a2 = sys_sent a1 @ [(7, ack', r4)] \<and>
    tcp_api_recv [] 1 1024 a2 = Inr (2, [104, 105], a3)"
proof -
  let ?os = "plain_os 50 60" and ?w = "(\<lambda>_. []) :: tcp waits" and ?d = "[104, 105] :: bytes"
  let ?ca = "cb_table sender_example 1" and ?cb = "cb_table receiver_example 0"
  have ca: "(1 :: nat) < 128" "cb_used ?ca" "cb_state ?ca = ESTABLISHED" "cb_iface ?ca = Some 4" "6 = peer_addr ?ca" "cb_txq ?ca = []"
    "conn_only (cb_table sender_example) 4 1" "length (cb_window ?ca) = 65535" "rcv_nxt ?ca < rcv_nxt ?ca + ucast (rcv_wnd ?ca)" "rcv_data ?ca = []"
    by (simp_all add: transfer_tables conn_only_def cb_for_port_def rcv_data_def tcp_cb_zero_def)
  have cb: "(0 :: nat) < 128" "cb_used ?cb" "cb_state ?cb = ESTABLISHED" "cb_iface ?cb = Some 9" "5 = peer_addr ?cb" "cb_txq ?cb = []"
    "conn_only (cb_table receiver_example) 9 0" "length (cb_window ?cb) = 65535" "rcv_nxt ?cb < rcv_nxt ?cb + ucast (rcv_wnd ?cb)" "rcv_data ?cb = []"
    by (simp_all add: transfer_tables conn_only_def cb_for_port_def rcv_data_def tcp_cb_zero_def)
  have conn: "cb_port ?cb = peer_port ?ca" "peer_port ?cb = cb_port ?ca" "rcv_nxt ?cb = snd_nxt ?ca" "snd_nxt ?cb = rcv_nxt ?ca"
    "snd_una ?cb \<le> snd_nxt ?cb" "snd_una ?ca \<le> snd_nxt ?ca + of_nat (length ?d)"
    by (simp_all add: transfer_tables)
  have data: "?d \<noteq> []" "length ?d \<le> 1024" "length ?d \<le> unat (tcp_send_wnd ?ca)" "length ?d \<le> unat (rcv_wnd ?cb)"
    "unat (txq_snt ?ca) + length ?d \<le> unat (snd_wnd ?ca)" "unat (txq_snt ?cb) + length ?d \<le> unat (snd_wnd ?cb)"
    "unat (txq_snt ?cb) + length ?d \<le> unat (rcv_wnd ?ca)"
    by (simp_all add: transfer_tables tcp_send_wnd_def tcp_cb_zero_def)
  have os: "Little = os_endian ?os" "\<forall>k. os_malloc ?os k" "\<forall>k. os_timeofday ?os k = Some (50, 0)"
    "\<forall>k. os_ret ?os k = int (14 + max 46 (40 + length ?d))" "os_fine ?os (50, 0)"
    by (simp_all add: os_fine_def)
  have r: "before_send silent_round = (\<lambda>s. s)" "after_send silent_round = (\<lambda>s. s)" "sys_sent sender_example = []" "sys_sent receiver_example = []"
    by (simp_all add: silent_round_def sender_example_def receiver_example_def)
  have "take 4 ?d \<noteq> quit" by (simp add: quit_def)
  with echo_round_trip [OF transfer_hosts refl ca refl cb conn data os(1-4) os(1-4) os(1,5) os(1,5) r(1), of ?w "[]" ?w "[silent_round]" "[]" "[]"]
  show ?thesis unfolding r by (simp del: handler_loop.simps) blast
qed

section \<open>The first connection\<close>

text \<open>A round of the accepting thread that finds a connection in the backlog starts a handler for it.\<close>

lemma accept_round:
  assumes "tcp_api_accept others listener s = Inr (int f, s')" "\<forall>k. os_ret os k = 0"
  shows "\<exists>k. accept_handler os ((others, \<lambda>s. s) # rounds) listener started s =
    accept_handler os rounds listener (started @ [int f]) (s'\<lparr>sys_tick := k\<rparr>)"
  using assms by (auto simp: sys_call_def)

text \<open>What the start leaves behind, for whoever knows that it succeeded.\<close>

lemma app_started_state:
  assumes "main_start os self thread blk nblk s = Inr (Some (d, l), b)"
    and "os_works os" "drivers s = []" "protos s = []" "protocols s = []" "cb_table s = (\<lambda>_. tcp_cb_zero)"
    and "length (nd_addr blk) = 16" "length (nd_broadcast blk) = 16" "default_netif b = Some n" "dev_open b d ha fd"
  shows "l = 0 \<and> tcp_host b d n (app_addr (os_endian os)) ha \<and> \<not> tcp_mutex b \<and> cb_table b = (\<lambda>_. tcp_cb_zero)(0 := app_listener (os_endian os))"
  using app_started [OF assms(2-8), of self thread nblk] assms(1,9,10) by (auto simp: dev_open_def split: option.splits)

lemma app_table:
  "cb_state (((\<lambda>_. tcp_cb_zero)(0 := app_listener e)) 0) = LISTEN" "cb_iface (((\<lambda>_. tcp_cb_zero)(0 := app_listener e)) 0) = None"
  "cb_port (((\<lambda>_. tcp_cb_zero)(0 := app_listener e)) 0) = hton16 e 20000" "peer_addr (((\<lambda>_. tcp_cb_zero)(0 := app_listener e)) 0) = 0"
  "port_only ((\<lambda>_. tcp_cb_zero)(0 := app_listener e)) 0 (hton16 e 20000)" "cb_used (((\<lambda>_. tcp_cb_zero)(0 := app_listener e)) 0)"
  "cb_backlog (((\<lambda>_. tcp_cb_zero)(0 := app_listener e)) 0) = []"
  "find (\<lambda>i. IS_FREE_CB (((\<lambda>_. tcp_cb_zero)(0 := app_listener e)) i)) [0..<TCP_CB_TABLE_SIZE] = Some 1"
  "cb_txq (((\<lambda>_. tcp_cb_zero)(0 := app_listener e)) 1) = []"
  by (simp_all add: app_listener_def port_only_def IS_FREE_CB_def tcp_cb_zero_def, intro find_least) simp_all

end
