(* ===== verification/Spec2Isabelle.thy ===== *)
theory Spec2Isabelle
  imports Prelude Sys Byteorder Checksum Bitmask Pqueue Cstring Wire Raw Net Ethernet Arp Iphdr Ipfrag Ip Ipview Tcphdr Tcpcb Tcpseg Tcpmoves Tcptimer Tcpapi Tcpinv Tcpwire Tcpopen Tcpreach Tcpstream Tcpdata Tcpclose Tcpedge Dump App
begin

text \<open>
  A model of the user-space TCP/IP stack under \<open>src/\<close>.
\<close>

section \<open>A client connects to the server\<close>

text \<open>
  Property C87: once the echo server has started (state \<open>b0\<close>) and knows the hardware address of a client (\<open>b\<close>
  differs from \<open>b0\<close> in the table of neighbours and in the count of system calls), \<open>tcp_api_connect\<close> of the client
  to port 20000 of 192.168.33.13 completes through all layers of both stacks, the accepting thread of the
  server takes the connection and starts a handler for it, and both sides agree on the sequence numbers.
\<close>

theorem echo_server_accepts:
  fixes a :: "'a tcp_scheme" and s b0 b :: "'b tcp_scheme"
  assumes start: "main_start os self thread blk nblk s = Inr (Some (db, l), b0)"
      "os_works os" "drivers s = []" "protos s = []" "protocols s = []" "cb_table s = (\<lambda>_. tcp_cb_zero)"
      "length (nd_addr blk) = 16" "length (nd_broadcast blk) = 16" "default_netif b0 = Some nb" "dev_open b0 db hab fd"
    and server: "b = b0\<lparr>arp_tbl := neighbours, sys_tick := k\<rparr>" "reaches b nb ipa (app_addr e) haa hab fdb" "ipa \<noteq> 0" "e = os_endian os"
    and client: "tcp_host a da na ipa haa" "reaches a na (app_addr e) ipa hab haa fda" "default_netif a = Some na" "\<not> tcp_mutex a"
    and cb: "cb = cb_table a i" "i < TCP_CB_TABLE_SIZE" "cb_used cb" "cb_state cb = CLOSED" "cb_port cb \<noteq> 0" "cb_txq cb = []"
      "port_only (cb_table a) i (cb_port cb)"
    and osa: "os_fine osa ta" "e = os_endian osa" "issa = os_random osa (Suc (sys_tick a))" "issa < issa + 1" "issa + 1 < issa + 1 + 0xffff"
    and osb: "os_fine osb tb" "e = os_endian osb" "issb = os_random osb (Suc (sys_tick b))" "issb < issb + 1"
    and osc: "\<forall>k. os_ret osc k = 0"
  shows "\<exists>a' b1 b2 b3 syn synack ack r1 r2 r3.
    receive osb waitb db syn b = Inr b1 \<and> sys_sent b1 = sys_sent b @ [(fdb, synack, r2)] \<and>
    tcp_api_connect osa waita [deliver osa waita da synack] (int i) (app_addr e) 20000 a = Inr (0, a') \<and>
    sys_sent a' = sys_sent a @ [(fda, syn, r1), (fda, ack, r3)] \<and> receive osb waitb db ack b1 = Inr b2 \<and>
    accept_handler osc (([], \<lambda>s. s) # rounds) l [] b2 = accept_handler osc rounds l [1] b3 \<and>
    cb_state (cb_table a' i) = ESTABLISHED \<and> cb_state (cb_table b3 1) = ESTABLISHED \<and> cb_used (cb_table b3 1) \<and>
    snd_nxt (cb_table a' i) = rcv_nxt (cb_table b3 1) \<and> snd_nxt (cb_table b3 1) = rcv_nxt (cb_table a' i)"
proof -
  have b0: "l = 0" "tcp_host b0 db nb (app_addr e) hab" "\<not> tcp_mutex b0" "cb_table b0 = (\<lambda>_. tcp_cb_zero)(0 := app_listener e)"
    using app_started_state [OF start] server(4) by simp_all
  have host: "tcp_host b db nb (app_addr e) hab" "\<not> tcp_mutex b"
    using b0(2,3) tcp_host_cong [of b0 b] by (simp_all add: server(1) same_net_def)
  have tbl: "cb_table b = (\<lambda>_. tcp_cb_zero)(0 := app_listener e)" by (simp add: server(1) b0(4))
  have lis: "(0 :: nat) < TCP_CB_TABLE_SIZE" "cb_state (cb_table b 0) = LISTEN" "cb_iface (cb_table b 0) = None"
    "cb_port (cb_table b 0) = hton16 e 20000" "peer_addr (cb_table b 0) \<noteq> ipa" "port_only (cb_table b) 0 (hton16 e 20000)"
    "cb_used (cb_table b 0)" "cb_backlog (cb_table b 0) = []"
    "find (\<lambda>i. IS_FREE_CB (cb_table b i)) [0..<TCP_CB_TABLE_SIZE] = Some 1" "cb_txq (cb_table b 1) = []"
    unfolding tbl using app_table [of e] server(3) by (simp_all del: upt_rec_numeral)
  obtain a' b1 b2 b3 syn synack ack r1 r2 r3 where h: "receive osb waitb db syn b = Inr b1" "sys_sent b1 = sys_sent b @ [(fdb, synack, r2)]"
    "tcp_api_connect osa waita [deliver osa waita da synack] (int i) (app_addr e) 20000 a = Inr (0, a')"
    "sys_sent a' = sys_sent a @ [(fda, syn, r1), (fda, ack, r3)]" "receive osb waitb db ack b1 = Inr b2"
    "tcp_api_accept [] (int 0) b2 = Inr (int 1, b3)" "cb_state (cb_table a' i) = ESTABLISHED" "cb_state (cb_table b3 1) = ESTABLISHED"
    "cb_used (cb_table b3 1)" "snd_nxt (cb_table a' i) = rcv_nxt (cb_table b3 1)" "snd_nxt (cb_table b3 1) = rcv_nxt (cb_table a' i)"
    using handshake_run [OF client cb host(1) server(2) host(2) lis osa osb, of waitb waita] by blast
  obtain k where k: "accept_handler osc (([], \<lambda>s. s) # rounds) (int 0) [] b2 = accept_handler osc rounds (int 0) ([] @ [int 1]) (b3\<lparr>sys_tick := k\<rparr>)"
    using accept_round [OF h(6) osc, of rounds "[]"] by blast
  show ?thesis
    by (intro exI [of _ a'] exI [of _ b1] exI [of _ b2] exI [of _ "b3\<lparr>sys_tick := k\<rparr>"] exI [of _ syn] exI [of _ synack] exI [of _ ack]
        exI [of _ r1] exI [of _ r2] exI [of _ r3]) (use h k b0(1) in \<open>simp del: accept_handler.simps\<close>)
qed

text \<open>A run: the server starts from the state it is loaded with, and the client of the examples connects to it.\<close>

definition echo_neighbours :: "arp_entry list" where
  "echo_neighbours = arp_entry_zero\<lparr>ae_used := True, ae_pa := 5, ae_ha := [2, 0, 0, 0, 0, 1]\<rparr> # replicate 4095 arp_entry_zero"

lemma server_reaches:
  assumes "net_ifs b0 n = Some (app_netif e d nblk)" "dev_open b0 d ha fd" "net_devs b0 d = Some dev" "unat (nd_mtu dev) = 1500"
    and "nd_flags dev = NETDEV_FLAG_BROADCAST"
  shows "reaches (b0\<lparr>arp_tbl := echo_neighbours, sys_tick := k\<rparr>) n 5 (app_addr e) [2, 0, 0, 0, 0, 1] ha fd"
proof -
  have "dev_open (b0\<lparr>arp_tbl := echo_neighbours, sys_tick := k\<rparr>) d ha fd"
    using assms(2) ready_cong(3) [of b0 "b0\<lparr>arp_tbl := echo_neighbours, sys_tick := k\<rparr>"] by (simp add: same_net_def)
  moreover have "arp_lookup echo_neighbours 5 = Some [2, 0, 0, 0, 0, 1]"
    by (simp add: echo_neighbours_def arp_lookup_def arp_table_select_def ETHERNET_ADDR_ANY_def)
  ultimately show ?thesis using assms by (simp add: reaches_def hop_known_def app_netif_def)
qed

definition echo_client :: tcp where
  "echo_client = tcp_start 3 (plain_dev [2, 0, 0, 0, 0, 1] 7) 4 (plain_netif 5) (Some (app_addr Little, [2, 0, 0, 0, 0, 9]))
     ((\<lambda>_. tcp_cb_zero)(1 := tcp_cb_zero\<lparr>cb_used := True, cb_port := 77\<rparr>))"

lemma echo_client_host:
  "tcp_host echo_client 3 4 5 [2, 0, 0, 0, 0, 1]" "reaches echo_client 4 (app_addr Little) 5 [2, 0, 0, 0, 0, 9] [2, 0, 0, 0, 0, 1] 7"
  "default_netif echo_client = Some 4" "\<not> tcp_mutex echo_client" "cb_used (cb_table echo_client 1)" "cb_state (cb_table echo_client 1) = CLOSED"
  "cb_port (cb_table echo_client 1) \<noteq> 0" "cb_txq (cb_table echo_client 1) = []"
  "port_only (cb_table echo_client) 1 (cb_port (cb_table echo_client 1))"
proof -
  have addr: "app_addr Little \<noteq> 0xffffffff" unfolding app_addr_def by code_simp
  show "tcp_host echo_client 3 4 5 [2, 0, 0, 0, 0, 1]" "reaches echo_client 4 (app_addr Little) 5 [2, 0, 0, 0, 0, 9] [2, 0, 0, 0, 0, 1] 7"
    "default_netif echo_client = Some 4" "\<not> tcp_mutex echo_client"
    using tcp_start_host [of "[2, 0, 0, 0, 0, 1]" "plain_netif 5"] addr
      tcp_start_reaches [of "[2, 0, 0, 0, 0, 1]" "[2, 0, 0, 0, 0, 9]" "app_addr Little" 3 7 4 "plain_netif 5"]
    by (simp_all add: echo_client_def ETHERNET_ADDR_ANY_def plain_netif_def)
  show "cb_used (cb_table echo_client 1)" "cb_state (cb_table echo_client 1) = CLOSED" "cb_port (cb_table echo_client 1) \<noteq> 0"
    "cb_txq (cb_table echo_client 1) = []" "port_only (cb_table echo_client) 1 (cb_port (cb_table echo_client 1))"
    by (simp_all add: echo_client_def port_only_def tcp_cb_zero_def IS_FREE_CB_def)
qed

theorem echo_server_accepts_witness:
  "\<exists>db b0 b1 b2 b3 a' syn synack ack.
    main_start (plain_os 50 60) 1 2 (plain_dev [2, 0, 0, 0, 0, 9] 0) (plain_netif 0) echo_loaded = Inr (Some (db, 0), b0) \<and>
    receive (plain_os 50 60) (\<lambda>_. []) db syn (b0\<lparr>arp_tbl := echo_neighbours, sys_tick := 0\<rparr>) = Inr b1 \<and>
    tcp_api_connect (plain_os 50 60) (\<lambda>_. []) [deliver (plain_os 50 60) (\<lambda>_. []) 3 synack] 1 (app_addr Little) 20000 echo_client = Inr (0, a') \<and>
    receive (plain_os 50 60) (\<lambda>_. []) db ack b1 = Inr b2 \<and>
    accept_handler (plain_os 50 0) [([], \<lambda>s. s)] 0 [] b2 = accept_handler (plain_os 50 0) [] 0 [1] b3 \<and>
    cb_state (cb_table a' 1) = ESTABLISHED \<and> cb_state (cb_table b3 1) = ESTABLISHED"
proof -
  let ?os = "plain_os 50 60" and ?w = "(\<lambda>_. []) :: tcp waits" and ?blk = "plain_dev [2, 0, 0, 0, 0, 9] 0"
  have l: "os_works ?os" "drivers echo_loaded = []" "protos echo_loaded = []" "protocols echo_loaded = []"
    "cb_table echo_loaded = (\<lambda>_. tcp_cb_zero)" "length (nd_addr ?blk) = 16" "length (nd_broadcast ?blk) = 16"
    and ha: "take 6 (nd_addr ?blk) = [2, 0, 0, 0, 0, 9]" "take 6 (nd_addr ?blk) \<noteq> ETHERNET_ADDR_ANY"
    by (simp_all add: os_works_def echo_loaded_def plain_dev_def ETHERNET_ADDR_ANY_def)
  obtain db n b0 fd dev where b0: "main_start ?os 1 2 ?blk (plain_netif 0) echo_loaded = Inr (Some (db, 0), b0)"
    "default_netif b0 = Some n" "dev_open b0 db [2, 0, 0, 0, 0, 9] fd" "net_ifs b0 n = Some (app_netif Little db (plain_netif 0))"
    "net_devs b0 db = Some dev" "unat (nd_mtu dev) = 1500" "nd_flags dev = NETDEV_FLAG_BROADCAST"
    using app_started [OF l, of 1 2 "plain_netif 0"] ha by auto
  note r = server_reaches [OF b0(4,3,5-7), of 0]
  have os: "os_fine ?os (50, 0)" "Little = os_endian ?os" "\<forall>k. os_ret (plain_os 50 0) k = 0" "(5 :: u32) \<noteq> 0" "(1 :: nat) < TCP_CB_TABLE_SIZE"
    "1000 = os_random ?os (Suc (sys_tick echo_client))" "(1000 :: u32) < 1000 + 1" "(1000 + 1 :: u32) < 1000 + 1 + 0xffff"
    "1000 = os_random ?os (Suc (sys_tick (b0\<lparr>arp_tbl := echo_neighbours, sys_tick := 0\<rparr>)))"
    by (simp_all add: os_fine_def)
  from echo_server_accepts [OF b0(1) l b0(2,3) refl r os(4,2) echo_client_host(1-4) refl os(5) echo_client_host(5-9) os(1,2,6-8) os(1,2,9,7) os(3), of ?w ?w "[]"]
  show ?thesis using b0(1) by (simp del: accept_handler.simps) blast
qed

end
